theory Spec2Isabelle
  imports Main "HOL-Library.Sublist"
begin

section \<open>Influenza autocuration: a shallow embedding of Autocuration.py\<close>

text \<open>
  Python integers are modelled as \<open>int\<close>, Python strings as \<open>string\<close>, lists as lists.
  A Python \<open>set\<close> of integers is modelled as a duplicate-free list: the source only ever
  counts the elements of such a set, tests membership, or sorts it before it iterates, so
  the (unspecified) iteration order of the set never reaches a result.
  Every exception the source can raise is a value of \<open>py_error\<close>; a function that can
  raise returns \<open>py_error + 'a\<close>, with \<open>Inl\<close> for the exception.
\<close>

subsection \<open>Errors\<close>

datatype py_error =
    IndexError
  | KeyError string
  | ValueError
  | ZeroDivisionError
  | UnboundLocalError string
  | AttributeError string
  | PyException string
  | TypeError
  | IOError

subsection \<open>Alignment parsing: class InDelSubs, constructor\<close>

text \<open>\<open>[i for i, ltr in enumerate(seq) if ltr == "-"]\<close>\<close>

definition dash_positions :: "string \<Rightarrow> int list" where
  "dash_positions s = [int i. i \<leftarrow> [0..<length s], s ! i = CHR ''-'']"

text \<open>\<open>a.union(b)\<close>, \<open>a.intersection(b)\<close> and \<open>a - b\<close> on duplicate-free lists.\<close>

definition set_union :: "int list \<Rightarrow> int list \<Rightarrow> int list" where
  "set_union a b = a @ [x \<leftarrow> b. x \<notin> set a]"

definition set_intersection :: "int list \<Rightarrow> int list \<Rightarrow> int list" where
  "set_intersection a b = [x \<leftarrow> a. x \<in> set b]"

definition set_minus :: "int list \<Rightarrow> int list \<Rightarrow> int list" where
  "set_minus a b = [x \<leftarrow> a. x \<notin> set b]"

text \<open>
  \<open>itertools.groupby(xs, key)\<close>: maximal blocks of adjacent elements with equal keys.
\<close>

fun groupby :: "('a \<Rightarrow> 'k) \<Rightarrow> 'a list \<Rightarrow> 'a list list" where
  "groupby key [] = []"
| "groupby key (x # xs) =
     (case groupby key xs of
        [] \<Rightarrow> [[x]]
      | g # gs \<Rightarrow> (case g of
                    [] \<Rightarrow> [x] # gs
                  | y # ys \<Rightarrow> if key x = key y then (x # g) # gs else [x] # g # gs))"

text \<open>\<open>enumerate(xs)\<close>\<close>

definition enumerate_py :: "'a list \<Rightarrow> (int \<times> 'a) list" where
  "enumerate_py xs = zip (map int [0..<length xs]) xs"

text \<open>
  \<open>for k, g in groupby(enumerate(xs), lambda ix: ix[0] - ix[1]):
       groups.append(list(map(itemgetter(1), g)))\<close>
\<close>

definition consecutive_groups :: "int list \<Rightarrow> int list list" where
  "consecutive_groups xs = map (map snd) (groupby (\<lambda>ix. fst ix - snd ix) (enumerate_py xs))"

record indelsubs =
  nkdp :: "int list"
  nkip :: "int list"
  nkadp :: "int list"
  query_seq :: string
  profile_seqs :: "string list"
  del_groups :: "int list list"
  ins_groups :: "int list list"

text \<open>
  The two loops over \<open>profile_seqs_minus = profile_seqs[1:len(profile_seqs)]\<close>, both
  started from \<open>first_seq_dashes\<close>, the gap positions of \<open>profile_seqs[0]\<close>.
\<close>

definition profile_dash_union :: "string list \<Rightarrow> int list" where
  "profile_dash_union seqs =
     foldl (\<lambda>u seq. set_union u (dash_positions seq))
       (dash_positions (seqs ! 0)) (drop 1 seqs)"

definition profile_dash_intsct :: "string list \<Rightarrow> int list" where
  "profile_dash_intsct seqs =
     foldl (\<lambda>u seq. set_intersection u (dash_positions seq))
       (dash_positions (seqs ! 0)) (drop 1 seqs)"

text \<open>
  The constructor, from the list of sequences read from the alignment file (the FASTA
  reader is outside the model). \<open>sequences[len(sequences)-1]\<close> raises on an empty list
  (index \<open>-1\<close>), \<open>profile_seqs[0]\<close> raises when the alignment has a single row.
  \<open>np.sort\<close> of the positions is \<open>sort\<close>.
\<close>

definition InDelSubs_init :: "string list \<Rightarrow> py_error + indelsubs" where
  "InDelSubs_init sequences =
     (if sequences = [] then Inl IndexError
      else
        let query_seq = sequences ! (length sequences - 1);
            profile_seqs = take (length sequences - 1) sequences
        in if profile_seqs = [] then Inl IndexError
           else
             let nkdp = dash_positions query_seq;
                 nkip = set_minus (profile_dash_intsct profile_seqs) nkdp;
                 nkadp = set_minus (profile_dash_union profile_seqs) nkip;
                 flag_dels = sort (set_minus nkdp nkadp);
                 del_groups = consecutive_groups flag_dels;
                 nkip = sort nkip;
                 ins_groups = consecutive_groups nkip
             in Inr \<lparr> nkdp = nkdp, nkip = nkip, nkadp = nkadp, query_seq = query_seq,
                      profile_seqs = profile_seqs, del_groups = del_groups,
                      ins_groups = ins_groups \<rparr>)"

subsection \<open>Strings\<close>

text \<open>\<open>str(n)\<close> for a Python integer: decimal digits, with a leading minus sign.\<close>

definition digit_char :: "nat \<Rightarrow> char" where
  "digit_char d = char_of (48 + d)"

fun str_nat :: "nat \<Rightarrow> string" where
  "str_nat n = (if n < 10 then [digit_char n] else str_nat (n div 10) @ [digit_char (n mod 10)])"

declare str_nat.simps [simp del]

definition str :: "int \<Rightarrow> string" where
  "str i = (if i < 0 then CHR ''-'' # str_nat (nat (- i)) else str_nat (nat i))"

text \<open>\<open>s.upper()\<close> on ASCII letters.\<close>

definition upper_char :: "char \<Rightarrow> char" where
  "upper_char c =
     (let n = (of_char c :: nat) in if 97 \<le> n \<and> n \<le> 122 then char_of (n - 32) else c)"

definition upper :: "string \<Rightarrow> string" where
  "upper s = map upper_char s"

text \<open>
  \<open>xs[a:b]\<close>: a negative bound counts from the end, and both bounds are clipped to the
  list.
\<close>

definition py_slice :: "'a list \<Rightarrow> int \<Rightarrow> int \<Rightarrow> 'a list" where
  "py_slice xs a b =
     (let n = int (length xs);
          lo = (if a < 0 then max 0 (a + n) else min a n);
          hi = (if b < 0 then max 0 (b + n) else min b n)
      in take (nat (hi - lo)) (drop (nat lo) xs))"

text \<open>\<open>sub in s\<close> for strings: \<open>sub\<close> occurs in \<open>s\<close> as a contiguous block.\<close>

fun str_in :: "string \<Rightarrow> string \<Rightarrow> bool" where
  "str_in sub [] = (sub = [])"
| "str_in sub (c # cs) = (prefix sub (c # cs) \<or> str_in sub cs)"

subsection \<open>Tables\<close>

text \<open>
  A flag is the 5-tuple the source appends; the fields carry the column names the source
  gives the tuple when it prints it as a table.
\<close>

record flag =
  Flag :: string
  Profile_Position :: string
  Query_Position :: string
  Variant :: string
  Length :: int

text \<open>A row of \<open>boundary_df\<close> and a row of \<open>lookup_df\<close>.\<close>

record boundary_row =
  Region :: string
  Start :: int
  End :: int

record lookup_row =
  lk_Flag :: string
  lk_Start :: int
  lk_End :: int

text \<open>A loop that appends to \<open>flags\<close> and stops at the first exception.\<close>

fun collect :: "('a \<Rightarrow> py_error + 'b list) \<Rightarrow> 'a list \<Rightarrow> py_error + 'b list" where
  "collect f [] = Inr []"
| "collect f (x # xs) =
     (case f x of
        Inl e \<Rightarrow> Inl e
      | Inr ys \<Rightarrow> (case collect f xs of Inl e \<Rightarrow> Inl e | Inr zs \<Rightarrow> Inr (ys @ zs)))"

subsection \<open>InDelSubs.check_lookup\<close>

definition check_lookup :: "lookup_row list \<Rightarrow> string \<Rightarrow> int \<Rightarrow> int \<Rightarrow> string" where
  "check_lookup lookup_df flg start end' =
     (let table = [r \<leftarrow> lookup_df. lk_Flag r = flg \<and> lk_Start r \<le> start \<and> lk_End r \<ge> end']
      in if length table > 0 then ''PASS'' else ''FAIL'')"

subsection \<open>InDelSubs.deletion_flags\<close>

text \<open>
  The four comprehensions that translate an alignment column \<open>j\<close>:
  \<open>(j-len([i for i in self.nkip if i < j]))+1\<close> (profile position of a column),
  \<open>(j-len([i for i in self.nkip if i <= j]))+1\<close> (profile position before an insertion
  column), \<open>(j-len([i for i in self.nkdp if i < j]))+1\<close> (query position of a column) and
  \<open>(j-len([i for i in self.nkdp if i <= j]))+1\<close> (query position before a deleted column).
\<close>

definition col_to_prof :: "int list \<Rightarrow> int \<Rightarrow> int" where
  "col_to_prof I j = (j - int (length [i \<leftarrow> I. i < j])) + 1"

definition col_to_prof_le :: "int list \<Rightarrow> int \<Rightarrow> int" where
  "col_to_prof_le I j = (j - int (length [i \<leftarrow> I. i \<le> j])) + 1"

definition col_to_qry :: "int list \<Rightarrow> int \<Rightarrow> int" where
  "col_to_qry D j = (j - int (length [i \<leftarrow> D. i < j])) + 1"

definition col_to_qry_le :: "int list \<Rightarrow> int \<Rightarrow> int" where
  "col_to_qry_le D j = (j - int (length [i \<leftarrow> D. i \<le> j])) + 1"

definition all_profile_ins :: "indelsubs \<Rightarrow> int list" where
  "all_profile_ins m = map (col_to_prof_le (nkip m)) (nkip m)"

definition all_profile_del :: "indelsubs \<Rightarrow> int list" where
  "all_profile_del m = map (col_to_prof (nkip m)) (nkdp m)"

text \<open>
  \<open>start_q\<close> and \<open>end_q\<close>: a profile position \<open>p\<close> of the boundary file moved to the query,
  \<open>p + len([i for i in all_profile_ins if i < p]) - len([j for j in all_profile_del if j <= p])\<close>.
\<close>

definition prof_to_qry :: "indelsubs \<Rightarrow> int \<Rightarrow> int" where
  "prof_to_qry m p =
     p + int (length [i \<leftarrow> all_profile_ins m. i < p])
       - int (length [j \<leftarrow> all_profile_del m. j \<le> p])"

text \<open>
  The first two summands of \<open>start_q\<close>, \<open>p + len([i for i in all_profile_ins if i < p])\<close>,
  are the 1-based alignment column of profile position \<open>p\<close>; less one, its 0-based column.
  The list of insertion columns is a parameter, as in the comprehensions above.
\<close>

definition prof_to_col :: "int list \<Rightarrow> int \<Rightarrow> int" where
  "prof_to_col I p = p + int (length [i \<leftarrow> map (col_to_prof_le I) I. i < p]) - 1"

definition region_dels_p :: "indelsubs \<Rightarrow> int list \<Rightarrow> boundary_row \<Rightarrow> int list" where
  "region_dels_p m pos reg =
     [i \<leftarrow> map (col_to_prof (nkip m)) pos. Start reg \<le> i \<and> i \<le> End reg]"

definition region_dels_q :: "indelsubs \<Rightarrow> int list \<Rightarrow> boundary_row \<Rightarrow> int list" where
  "region_dels_q m pos reg =
     [i \<leftarrow> map (col_to_qry_le (nkdp m)) pos.
        prof_to_qry m (Start reg) \<le> i \<and> i \<le> prof_to_qry m (End reg)]"

text \<open>The body of the inner loop: one deletion run \<open>pos\<close> and one region \<open>reg\<close>.\<close>

definition deletion_region_flags ::
  "indelsubs \<Rightarrow> lookup_row list \<Rightarrow> int list \<Rightarrow> boundary_row \<Rightarrow> py_error + flag list" where
  "deletion_region_flags m lookup_df pos reg =
     (let region = Region reg;
          dels_p = region_dels_p m pos reg;
          dels_q = region_dels_q m pos reg
      in if dels_q = [] then Inl IndexError
         else if hd dels_q = 0 \<or> hd dels_q = int (length (query_seq m)) - int (length (nkdp m))
         then Inr []
         else if dels_p = [] then Inl IndexError
         else
           let profile_pos = (if length pos > 1 then str (hd dels_p) @ ''..'' @ str (last dels_p)
                              else str (hd dels_p));
               query_pos = str (hd dels_q) @ ''..'' @ str (hd dels_q + 1);
               emit = (\<lambda>k. [\<lparr> Flag = k, Profile_Position = profile_pos,
                               Query_Position = query_pos, Variant = ''del'',
                               Length = int (length dels_p) \<rparr>]);
               checked = (\<lambda>k. if check_lookup lookup_df k (hd dels_p) (last dels_p) = ''FAIL''
                               then emit k else [])
           in Inr (if region = ''CTS5'' then emit ''5'CTS-del''
                   else if region = ''CTS3'' then emit ''3'CTS-del''
                   else if region = ''NCR5'' then checked ''5'NCR-del''
                   else if region = ''NCR3'' then checked ''3'NCR-del''
                   else if region = ''CDS'' then
                     (if int (length pos) mod 3 = 0 then checked ''CDS-3Xdel''
                      else checked ''CDS-del'')
                   else []))"

text \<open>
  The body of the outer loop: the regions a run overlaps, in the order of the rows of
  \<open>boundary_df\<close>. \<open>profile_del[len(profile_del)-1]\<close> raises on an empty run.
\<close>

definition overlapping_regions :: "indelsubs \<Rightarrow> boundary_row list \<Rightarrow> int list \<Rightarrow> boundary_row list" where
  "overlapping_regions m boundary_df pos =
     (let profile_del = map (col_to_prof (nkip m)) pos
      in [r \<leftarrow> boundary_df. Start r \<le> last profile_del \<and> End r \<ge> hd profile_del])"

definition deletion_run_flags ::
  "indelsubs \<Rightarrow> boundary_row list \<Rightarrow> lookup_row list \<Rightarrow> int list \<Rightarrow> py_error + flag list" where
  "deletion_run_flags m boundary_df lookup_df pos =
     (if pos = [] then Inl IndexError
      else collect (deletion_region_flags m lookup_df pos) (overlapping_regions m boundary_df pos))"

definition deletion_flags ::
  "indelsubs \<Rightarrow> boundary_row list \<Rightarrow> lookup_row list \<Rightarrow> py_error + flag list" where
  "deletion_flags m boundary_df lookup_df =
     collect (deletion_run_flags m boundary_df lookup_df) (del_groups m)"

subsection \<open>InDelSubs.insertion_flags\<close>

text \<open>
  The body of the loop for one insertion run \<open>pos\<close>. \<open>pos[0]\<close> raises on an empty run and
  \<open>list(region['Region'])[0]\<close> raises when no row of \<open>boundary_df\<close> overlaps the run.
\<close>

definition insertion_run_flags ::
  "indelsubs \<Rightarrow> boundary_row list \<Rightarrow> int \<Rightarrow> int list \<Rightarrow> py_error + flag list" where
  "insertion_run_flags m boundary_df profile_length pos =
     (if pos = [] then Inl IndexError
      else
        let ins_muts = upper (py_slice (query_seq m) (hd pos) (last pos + 1));
            profile_ins = map (col_to_prof_le (nkip m)) pos;
            query_ins = map (col_to_qry (nkdp m)) pos;
            query_pos = (if length pos > 1 then str (hd query_ins) @ ''..'' @ str (last query_ins)
                         else str (hd query_ins));
            profile_pos = str (hd profile_ins) @ ''..'' @ str (hd profile_ins + 1);
            emit = (\<lambda>k pp. [\<lparr> Flag = k, Profile_Position = pp, Query_Position = query_pos,
                                Variant = ins_muts, Length = int (length pos) \<rparr>])
        in if hd profile_ins = 0 then Inr (emit ''5'NCR-ext'' profile_pos)
           else if hd profile_ins = profile_length
           then Inr (emit ''3'NCR-ext'' (str (hd profile_ins) @ ''..''))
           else
             let region = [r \<leftarrow> boundary_df.
                             Start r \<le> last profile_ins \<and> End r \<ge> hd profile_ins]
             in if region = [] then Inl IndexError
                else
                  let region = Region (hd region)
                  in Inr (if region = ''CTS5'' then emit ''5'CTS-ins'' profile_pos
                          else if region = ''CTS3'' then emit ''3'CTS-ins'' profile_pos
                          else if region = ''NCR5'' then emit ''5'NCR-ins'' profile_pos
                          else if region = ''NCR3'' then emit ''3'NCR-ins'' profile_pos
                          else if region = ''CDS'' then
                            (if int (length pos) mod 3 = 0 then emit ''CDS-3Xins'' profile_pos
                             else emit ''CDS-ins'' profile_pos)
                          else []))"

text \<open>
  \<open>boundary_df['End'][4]\<close> is a lookup by row label; the rows are labelled from 0, so it
  raises a \<open>KeyError\<close> on a table of fewer than five rows.
\<close>

definition insertion_flags :: "indelsubs \<Rightarrow> boundary_row list \<Rightarrow> py_error + flag list" where
  "insertion_flags m boundary_df =
     (if length boundary_df \<le> 4 then Inl (KeyError ''4'')
      else collect (insertion_run_flags m boundary_df (End (boundary_df ! 4))) (ins_groups m))"

subsection \<open>The loop bodies of deletion_flags and insertion_flags, piece by piece\<close>

text \<open>
  The test \<open>(region_dels_q[0] == 0) or (region_dels_q[0] ==
  (len(self.query_seq)-len(self.nkdp)))\<close> that ends the work on a region.
\<close>

definition terminal_subrun :: "indelsubs \<Rightarrow> int list \<Rightarrow> boundary_row \<Rightarrow> bool" where
  "terminal_subrun m pos reg \<longleftrightarrow>
     hd (region_dels_q m pos reg) = 0
   \<or> hd (region_dels_q m pos reg) = int (length (query_seq m)) - int (length (nkdp m))"

text \<open>The tuple the branches of the deletion loop append, for the flag kind \<open>k\<close>.\<close>

definition deletion_flag_tuple :: "indelsubs \<Rightarrow> int list \<Rightarrow> boundary_row \<Rightarrow> string \<Rightarrow> flag" where
  "deletion_flag_tuple m pos reg k =
     \<lparr> Flag = k,
       Profile_Position =
         (if length pos > 1
          then str (hd (region_dels_p m pos reg)) @ ''..'' @ str (last (region_dels_p m pos reg))
          else str (hd (region_dels_p m pos reg))),
       Query_Position =
         str (hd (region_dels_q m pos reg)) @ ''..'' @ str (hd (region_dels_q m pos reg) + 1),
       Variant = ''del'',
       Length = int (length (region_dels_p m pos reg)) \<rparr>"

text \<open>
  The flag kind of each branch of the chain \<open>if (region == 'CTS5'): ... elif ...\<close>; a row
  of another name has no branch.
\<close>

definition deletion_kind :: "string \<Rightarrow> int list \<Rightarrow> string option" where
  "deletion_kind region pos =
     (if region = ''CTS5'' then Some ''5'CTS-del''
      else if region = ''CTS3'' then Some ''3'CTS-del''
      else if region = ''NCR5'' then Some ''5'NCR-del''
      else if region = ''NCR3'' then Some ''3'NCR-del''
      else if region = ''CDS'' then
        Some (if int (length pos) mod 3 = 0 then ''CDS-3Xdel'' else ''CDS-del'')
      else None)"

text \<open>The kinds of the branches that call \<open>check_lookup\<close> before they append.\<close>

definition whitelist_checked :: "string \<Rightarrow> bool" where
  "whitelist_checked k \<longleftrightarrow>
     k = ''5'NCR-del'' \<or> k = ''3'NCR-del'' \<or> k = ''CDS-del'' \<or> k = ''CDS-3Xdel''"

text \<open>
  What the body of the deletion loop appends for one run and one region when neither
  \<open>region_dels_q[0]\<close> nor \<open>region_dels_p[0]\<close> raises: nothing after \<open>continue\<close>, else the tuple
  of the branch, unless the branch asks \<open>check_lookup\<close> and the answer is not \<open>FAIL\<close>.
\<close>

definition deletion_region_emits ::
  "indelsubs \<Rightarrow> lookup_row list \<Rightarrow> int list \<Rightarrow> boundary_row \<Rightarrow> flag list" where
  "deletion_region_emits m lookup_df pos reg =
     (if terminal_subrun m pos reg then []
      else case deletion_kind (Region reg) pos of
             None \<Rightarrow> []
           | Some k \<Rightarrow>
               if whitelist_checked k
                  \<and> check_lookup lookup_df k (hd (region_dels_p m pos reg))
                        (last (region_dels_p m pos reg)) \<noteq> ''FAIL''
               then [] else [deletion_flag_tuple m pos reg k])"

text \<open>
  The insertion loop: \<open>profile_ins\<close>, the rows the source selects into \<open>region\<close>, and the
  tuple its region branches append for the flag kind \<open>k\<close>.
\<close>

definition profile_ins :: "indelsubs \<Rightarrow> int list \<Rightarrow> int list" where
  "profile_ins m pos = map (col_to_prof_le (nkip m)) pos"

definition insertion_region :: "indelsubs \<Rightarrow> boundary_row list \<Rightarrow> int list \<Rightarrow> boundary_row list" where
  "insertion_region m boundary_df pos =
     [r \<leftarrow> boundary_df. Start r \<le> last (profile_ins m pos) \<and> End r \<ge> hd (profile_ins m pos)]"

definition insertion_flag_tuple :: "indelsubs \<Rightarrow> int list \<Rightarrow> string \<Rightarrow> flag" where
  "insertion_flag_tuple m pos k =
     \<lparr> Flag = k,
       Profile_Position = str (hd (profile_ins m pos)) @ ''..'' @ str (hd (profile_ins m pos) + 1),
       Query_Position =
         (if length pos > 1
          then str (hd (map (col_to_qry (nkdp m)) pos)) @ ''..''
               @ str (last (map (col_to_qry (nkdp m)) pos))
          else str (hd (map (col_to_qry (nkdp m)) pos))),
       Variant = upper (py_slice (query_seq m) (hd pos) (last pos + 1)),
       Length = int (length pos) \<rparr>"

text \<open>
  An insertion run reaches the branch \<open>elif (region == 'CDS')\<close>: it is neither of the two
  extensions, and the first row selected into \<open>region\<close> is the row \<open>CDS\<close>.
\<close>

definition classified_CDS :: "indelsubs \<Rightarrow> boundary_row list \<Rightarrow> int list \<Rightarrow> bool" where
  "classified_CDS m boundary_df pos \<longleftrightarrow>
     hd (profile_ins m pos) \<noteq> 0 \<and> hd (profile_ins m pos) \<noteq> End (boundary_df ! 4)
   \<and> insertion_region m boundary_df pos \<noteq> []
   \<and> Region (hd (insertion_region m boundary_df pos)) = ''CDS''"

subsection \<open>InDelSubs.substitution_flags\<close>

text \<open>
  \<open>x + sum([len(self.ins_groups[i]) for i in range(len(self.ins_groups))
              if self.ins_groups[i][0] < x])\<close>
\<close>

definition ins_adjust :: "indelsubs \<Rightarrow> int \<Rightarrow> int" where
  "ins_adjust m x = x + sum_list [int (length g). g \<leftarrow> ins_groups m, hd g < x]"

text \<open>
  The positions of one terminal region where the query differs from every profile row:
  \<open>[i+start for i in range(len(query)) if query[i] not in [seq[start:end+1][i] for seq in
  self.profile_seqs] and not ((i+start in self.nkip) or (i+start in self.nkdp))]\<close>, where
  \<open>offset\<close> is what the source adds to \<open>i\<close> (nothing for the 5' region). The inner list
  is built before the test, and \<open>seq[start:end+1][i]\<close> raises on a profile row that is too
  short.
\<close>

definition cts_muts :: "indelsubs \<Rightarrow> int \<Rightarrow> int \<Rightarrow> int \<Rightarrow> py_error + int list" where
  "cts_muts m start_adj end_adj offset =
     (let query = py_slice (query_seq m) start_adj (end_adj + 1)
      in collect
           (\<lambda>i. if \<exists>seq\<in>set (profile_seqs m).
                      length (py_slice seq start_adj (end_adj + 1)) \<le> i
                 then Inl IndexError
                 else Inr (if query ! i \<notin> set [py_slice seq start_adj (end_adj + 1) ! i.
                                                  seq \<leftarrow> profile_seqs m]
                             \<and> \<not> (int i + offset \<in> set (nkip m) \<or> int i + offset \<in> set (nkdp m))
                           then [int i + offset] else []))
           [0..<length query])"

text \<open>The body of the two loops over the runs of mismatches.\<close>

definition substitution_run_flags :: "indelsubs \<Rightarrow> string \<Rightarrow> int list \<Rightarrow> py_error + flag list" where
  "substitution_run_flags m k pos =
     (if pos = [] then Inl IndexError
      else
        let subs = upper (py_slice (query_seq m) (hd pos) (last pos + 1))
        in if card (set subs) = 1 \<and> hd (remdups subs) = CHR ''N'' then Inr []
           else
             let profile_sub = map (col_to_prof (nkip m)) pos;
                 query_sub = map (col_to_qry (nkdp m)) pos;
                 profile_pos = (if length pos > 1
                                then str (hd profile_sub) @ ''..'' @ str (last profile_sub)
                                else str (hd profile_sub));
                 query_pos = (if length pos > 1
                              then str (hd query_sub) @ ''..'' @ str (last query_sub)
                              else str (hd query_sub))
             in Inr [\<lparr> Flag = k, Profile_Position = profile_pos, Query_Position = query_pos,
                        Variant = subs, Length = int (length pos) \<rparr>])"

text \<open>
  \<open>list(CTS5['Start'])[0]\<close> raises when the table has no row of that region, and
  \<open>self.ins_groups[i][0]\<close> on an empty run.
\<close>

definition substitution_flags :: "indelsubs \<Rightarrow> boundary_row list \<Rightarrow> py_error + flag list" where
  "substitution_flags m boundary_df =
     (let CTS5 = [r \<leftarrow> boundary_df. Region r = ''CTS5''];
          CTS3 = [r \<leftarrow> boundary_df. Region r = ''CTS3'']
      in if CTS5 = [] \<or> CTS3 = [] then Inl IndexError
         else
           let CTS5_start = Start (hd CTS5) - 1;
               CTS3_start = Start (hd CTS3) - 1;
               CTS5_end = End (hd CTS5) - 1;
               CTS3_end = End (hd CTS3) - 1
           in if [] \<in> set (ins_groups m) then Inl IndexError
              else
                let CTS5_start_adj = CTS5_start;
                    CTS3_start_adj = ins_adjust m CTS3_start;
                    CTS5_end_adj = ins_adjust m CTS5_end;
                    CTS3_end_adj = ins_adjust m CTS3_end
                in case cts_muts m CTS5_start_adj CTS5_end_adj 0 of
                     Inl e \<Rightarrow> Inl e
                   | Inr cts5_muts \<Rightarrow>
                       (case cts_muts m CTS3_start_adj CTS3_end_adj CTS3_start_adj of
                          Inl e \<Rightarrow> Inl e
                        | Inr cts3_muts \<Rightarrow>
                            (case collect (substitution_run_flags m ''5'CTS-mut'')
                                    (consecutive_groups cts5_muts) of
                               Inl e \<Rightarrow> Inl e
                             | Inr flags5 \<Rightarrow>
                                 (case collect (substitution_run_flags m ''3'CTS-mut'')
                                         (consecutive_groups cts3_muts) of
                                    Inl e \<Rightarrow> Inl e
                                  | Inr flags3 \<Rightarrow> Inr (flags5 @ flags3)))))"

subsection \<open>More strings: split, strip, int\<close>

text \<open>
  \<open>s.split(sep)\<close> for a non-empty separator: \<open>skip\<close> counts the characters of a separator
  still to be dropped, \<open>cur\<close> is the current field, reversed.
\<close>

fun split_aux :: "string \<Rightarrow> nat \<Rightarrow> string \<Rightarrow> string \<Rightarrow> string list" where
  "split_aux sep skip cur [] = [rev cur]"
| "split_aux sep skip cur (c # cs) =
     (if skip > 0 then split_aux sep (skip - 1) cur cs
      else if prefix sep (c # cs) then rev cur # split_aux sep (length sep - 1) [] cs
      else split_aux sep 0 (c # cur) cs)"

definition split :: "string \<Rightarrow> string \<Rightarrow> string list" where
  "split s sep = split_aux sep 0 [] s"

text \<open>\<open>sep.join(xs)\<close>\<close>

fun join :: "string \<Rightarrow> string list \<Rightarrow> string" where
  "join sep [] = []"
| "join sep [x] = x"
| "join sep (x # y # ys) = x @ sep @ join sep (y # ys)"

text \<open>
  A character of the model is a code point below 256. Those \<open>str.strip()\<close> removes: tab,
  line feed, vertical tab, form feed, carriage return, the four separators 28 to 31, the
  space, and the code points 133 and 160.
\<close>

definition is_space :: "char \<Rightarrow> bool" where
  "is_space c =
     (let n = (of_char c :: nat)
      in (9 \<le> n \<and> n \<le> 13) \<or> (28 \<le> n \<and> n \<le> 32) \<or> n = 133 \<or> n = 160)"

definition strip :: "string \<Rightarrow> string" where
  "strip s = rev (dropWhile is_space (rev (dropWhile is_space s)))"

definition is_digit :: "char \<Rightarrow> bool" where
  "is_digit c = (let n = (of_char c :: nat) in 48 \<le> n \<and> n \<le> 57)"

definition digit_value :: "char \<Rightarrow> int" where
  "digit_value c = int (of_char c) - 48"

text \<open>
  The whitespace \<open>int(s)\<close> skips at both ends of \<open>s\<close>: tab, line feed, vertical tab, form
  feed, carriage return and the space, and the code points 133 and 160, which it turns
  into spaces first. The separators 28 to 31 are not among them.
\<close>

definition is_int_space :: "char \<Rightarrow> bool" where
  "is_int_space c =
     (let n = (of_char c :: nat) in (9 \<le> n \<and> n \<le> 13) \<or> n = 32 \<or> n = 133 \<or> n = 160)"

text \<open>
  \<open>int(s)\<close>: the whitespace at both ends is dropped, one sign is allowed, then come
  groups of decimal digits, separated by single underscores. Anything else is a
  \<open>ValueError\<close>, and so is a number of more than 4300 digits (the default limit of the
  interpreter on the conversion of a string, from version 3.11 on).
\<close>

definition py_int :: "string \<Rightarrow> py_error + int" where
  "py_int s =
     (let t = rev (dropWhile is_int_space (rev (dropWhile is_int_space s)));
          neg = (t \<noteq> [] \<and> hd t = CHR ''-'');
          body = (if t \<noteq> [] \<and> (hd t = CHR ''-'' \<or> hd t = CHR ''+'') then tl t else t);
          groups = split body ''_''
      in if (\<forall>g\<in>set groups. g \<noteq> [] \<and> (\<forall>c\<in>set g. is_digit c))
            \<and> length (concat groups) \<le> 4300
         then let v = foldl (\<lambda>a c. 10 * a + digit_value c) 0 (concat groups)
              in Inr (if neg then - v else v)
         else Inl ValueError)"

subsection \<open>Curation.parse_boundary_file\<close>

text \<open>
  The loop \<open>for line in boundary_types: if (line.startswith(strain_name)): boundary = line;
  break\<close>, after \<open>boundary = ""\<close>.
\<close>

definition select_boundary_line :: "string \<Rightarrow> string list \<Rightarrow> string" where
  "select_boundary_line strain_name boundary_types =
     (case find (prefix strain_name) boundary_types of None \<Rightarrow> [] | Some line \<Rightarrow> line)"

text \<open>
  The loop over the fields that fills the dictionary \<open>boundaries\<close>: \<open>coord.split("=")[1]\<close>
  raises on a field without \<open>=\<close>, \<open>int\<close> on a value that is not a number.
\<close>

fun parse_coords :: "string list \<Rightarrow> (string \<rightharpoonup> int) \<Rightarrow> py_error + (string \<rightharpoonup> int)" where
  "parse_coords [] boundaries = Inr boundaries"
| "parse_coords (coord # rest) boundaries =
     (let feat = hd (split coord ''='')
      in if length (split coord ''='') \<le> 1 then Inl IndexError
         else case py_int (split coord ''='' ! 1) of
                Inl e \<Rightarrow> Inl e
              | Inr pos \<Rightarrow> parse_coords rest (boundaries(feat \<mapsto> pos)))"

text \<open>\<open>boundaries[k]\<close>\<close>

definition dict_get :: "(string \<rightharpoonup> int) \<Rightarrow> string \<Rightarrow> py_error + int" where
  "dict_get d k = (case d k of None \<Rightarrow> Inl (KeyError k) | Some v \<Rightarrow> Inr v)"

text \<open>
  The table of the five regions. The source reads the keys in the order \<open>START\<close>, \<open>CTS5\<close>,
  \<open>ATG\<close>, \<open>STOP\<close>, \<open>CTS3\<close> (the column \<open>Start\<close>) and then \<open>END\<close> (the last new key of the column
  \<open>End\<close>); the first one missing raises.
\<close>

definition boundary_table :: "(string \<rightharpoonup> int) \<Rightarrow> py_error + boundary_row list" where
  "boundary_table boundaries =
     (case dict_get boundaries ''START'' of Inl e \<Rightarrow> Inl e | Inr START \<Rightarrow>
      case dict_get boundaries ''CTS5'' of Inl e \<Rightarrow> Inl e | Inr CTS5 \<Rightarrow>
      case dict_get boundaries ''ATG'' of Inl e \<Rightarrow> Inl e | Inr ATG \<Rightarrow>
      case dict_get boundaries ''STOP'' of Inl e \<Rightarrow> Inl e | Inr STOP \<Rightarrow>
      case dict_get boundaries ''CTS3'' of Inl e \<Rightarrow> Inl e | Inr CTS3 \<Rightarrow>
      case dict_get boundaries ''END'' of Inl e \<Rightarrow> Inl e | Inr END \<Rightarrow>
        Inr [\<lparr> Region = ''CTS5'', Start = START, End = CTS5 \<rparr>,
             \<lparr> Region = ''NCR5'', Start = CTS5 + 1, End = ATG - 1 \<rparr>,
             \<lparr> Region = ''CDS'', Start = ATG, End = STOP \<rparr>,
             \<lparr> Region = ''NCR3'', Start = STOP + 1, End = CTS3 - 1 \<rparr>,
             \<lparr> Region = ''CTS3'', Start = CTS3, End = END \<rparr>])"

text \<open>
  The file is given as its list of lines, each with its line end, or \<open>None\<close> when it cannot
  be opened or read. \<open>boundary.pop(0)\<close> drops the first field.
\<close>

definition parse_boundary_file :: "string \<Rightarrow> string list option \<Rightarrow> py_error + boundary_row list" where
  "parse_boundary_file strain_name boundary_file =
     (case boundary_file of
        None \<Rightarrow> Inl (PyException (CHR 0x0A # ''ERROR: Invalid boundary_file directory and/or file'' @ [CHR 0x0A]))
      | Some boundary_types \<Rightarrow>
          let boundary = split (select_boundary_line strain_name boundary_types) ''|''
          in case parse_coords (tl boundary) Map.empty of
               Inl e \<Rightarrow> Inl e
             | Inr boundaries \<Rightarrow> boundary_table boundaries)"

subsection \<open>Curation.parse_lookup_table\<close>

text \<open>One line of the lookup table that starts with the profile name.\<close>

definition parse_lookup_line :: "string \<Rightarrow> py_error + lookup_row" where
  "parse_lookup_line line =
     (let line_attribs = split line [CHR 0x09]
      in if length line_attribs \<le> 2 then Inl IndexError
         else
           let flg = line_attribs ! 1;
               start_end = split (line_attribs ! 2) ''..''
           in if length start_end = 2
              then (case py_int (start_end ! 0) of
                      Inl e \<Rightarrow> Inl e
                    | Inr start \<Rightarrow>
                        (case py_int (start_end ! 1) of
                           Inl e \<Rightarrow> Inl e
                         | Inr end' \<Rightarrow> Inr \<lparr> lk_Flag = flg, lk_Start = start, lk_End = end' \<rparr>))
              else (case py_int (start_end ! 0) of
                      Inl e \<Rightarrow> Inl e
                    | Inr start \<Rightarrow> Inr \<lparr> lk_Flag = flg, lk_Start = start, lk_End = start \<rparr>))"

definition parse_lookup_table :: "string \<Rightarrow> string list option \<Rightarrow> py_error + lookup_row list" where
  "parse_lookup_table profile_name lookup_table =
     (case lookup_table of
        None \<Rightarrow> Inl (PyException (CHR 0x0A # ''ERROR: Invalid lookup_table directory and/or file'' @ [CHR 0x0A]))
      | Some lookup_allowed \<Rightarrow>
          (case collect (\<lambda>line. case parse_lookup_line line of Inl e \<Rightarrow> Inl e | Inr r \<Rightarrow> Inr [r])
                  [line \<leftarrow> lookup_allowed. prefix profile_name line] of
             Inl e \<Rightarrow> Inl e
           | Inr profile_lookup \<Rightarrow>
               Inr (if profile_lookup \<noteq> [] then profile_lookup
                    else [\<lparr> lk_Flag = ''XXX'', lk_Start = - 1, lk_End = - 1 \<rparr>])))"

subsection \<open>class MolSeq\<close>

record molseq =
  seq_id :: string
  seq :: string

definition MolSeq_init :: "string \<Rightarrow> string \<Rightarrow> molseq" where
  "MolSeq_init accession sequence = \<lparr> seq_id = strip accession, seq = strip sequence \<rparr>"

definition get_length :: "molseq \<Rightarrow> int" where
  "get_length ms = int (length (seq ms))"

definition count_regular_nucs :: "molseq \<Rightarrow> int" where
  "count_regular_nucs ms =
     (let a = count_list (seq ms) CHR ''a'' + count_list (seq ms) CHR ''A'';
          c = count_list (seq ms) CHR ''c'' + count_list (seq ms) CHR ''C'';
          g = count_list (seq ms) CHR ''g'' + count_list (seq ms) CHR ''G'';
          t = count_list (seq ms) CHR ''t'' + count_list (seq ms) CHR ''T''
      in int (a + c + g + t))"

definition count_indeterminate_nucs :: "molseq \<Rightarrow> int" where
  "count_indeterminate_nucs ms =
     int (count_list (seq ms) CHR ''n'' + count_list (seq ms) CHR ''N'')"

text \<open>
  The two contents are quotients of integers, kept as numerator and denominator; the
  division raises on an empty sequence. The source compares the floating-point quotient
  with \<open>0.005\<close>; the model compares the exact quotient, \<open>n / d > 5 / 1000\<close> as
  \<open>1000 * n > 5 * d\<close>.
\<close>

definition get_n_content :: "molseq \<Rightarrow> py_error + int \<times> int" where
  "get_n_content ms =
     (if get_length ms = 0 then Inl ZeroDivisionError
      else Inr (count_indeterminate_nucs ms, get_length ms))"

definition get_ambig_content :: "molseq \<Rightarrow> py_error + int \<times> int" where
  "get_ambig_content ms =
     (if get_length ms = 0 then Inl ZeroDivisionError
      else Inr (get_length ms - (count_regular_nucs ms + count_indeterminate_nucs ms),
                get_length ms))"

definition exceeds_half_percent :: "int \<times> int \<Rightarrow> bool" where
  "exceeds_half_percent q = (1000 * fst q > 5 * snd q)"

subsection \<open>class Blast\<close>

text \<open>
  What the homology search hands back, as far as the constructor reads it: no record at
  all, a record without alignments, or the title of the first alignment with the
  \<open>identities\<close> and the \<open>align_length\<close> of its first segment pair.
\<close>

datatype blast_result =
    No_Record
  | No_Alignments
  | Top_Hit string int int

text \<open>The identity of the top hit, a quotient of two integers, or the string \<open>Unknown\<close>.\<close>

datatype identity = Identity_Unknown | Identity int int

record blast =
  blast_profile :: string
  blast_identity :: identity

text \<open>
  Without a record the loop body never runs and \<open>self.profile = profile\<close> reads an unbound
  variable; \<open>title.split("|")[3]\<close> raises on a title of fewer than four fields, the
  division on a zero \<open>align_length\<close>.
\<close>

definition Blast_init :: "blast_result \<Rightarrow> py_error + blast" where
  "Blast_init result =
     (case result of
        No_Record \<Rightarrow> Inl (UnboundLocalError ''profile'')
      | No_Alignments \<Rightarrow> Inr \<lparr> blast_profile = ''Unknown'', blast_identity = Identity_Unknown \<rparr>
      | Top_Hit title identities align_length \<Rightarrow>
          if length (split title ''|'') \<le> 3 then Inl IndexError
          else if align_length = 0 then Inl ZeroDivisionError
          else Inr \<lparr> blast_profile = split title ''|'' ! 3,
                     blast_identity = Identity identities align_length \<rparr>)"

definition get_strain :: "blast \<Rightarrow> string" where
  "get_strain b =
     (if blast_profile b = ''Unknown'' then ''Unknown''
      else join ''_'' (butlast (split (blast_profile b) ''_'')))"

subsection \<open>class Curation\<close>

text \<open>
  An attribute the constructor has not set is \<open>None\<close>; reading it raises an
  \<open>AttributeError\<close>. The attributes \<open>identity\<close>, \<open>strain_name\<close> and \<open>accession\<close> carry the
  suffix \<open>_attr\<close>, their plain names being those of the constructor's variables.
\<close>

record curation =
  mut_flags :: "flag list option"
  del_flags :: "flag list option"
  ins_flags :: "flag list option"
  sub_flags :: "flag list option"
  ambig_flags :: "string list option"
  profile :: string
  identity_attr :: identity
  strain_name_attr :: string
  accession_attr :: string

text \<open>
  Everything the constructor obtains from outside: the accession and the sequence read
  from the query file, the file names of the profile directory (\<open>None\<close> when it cannot be
  listed), the outcome of the homology search, the lines of the boundary file and of the
  lookup table, the rows of the alignment the aligner wrote, and whether saving the
  alignment fails.
\<close>

record world =
  query_record :: "py_error + string \<times> string"
  profile_dir_files :: "string list option"
  blast_run :: "py_error + blast_result"
  boundary_file_lines :: "string list option"
  lookup_table_lines :: "string list option"
  alignment_rows :: "py_error + string list"
  save_alignment_error :: "py_error option"

text \<open>
  The second half of the constructor, from the ambiguity flags on. The local variable
  \<open>identity\<close> is \<open>None\<close> when no assignment has bound it; \<open>identity < 0.80\<close> is
  \<open>100 * n < 80 * d\<close> on the quotient \<open>n / d\<close>, and raises a \<open>TypeError\<close> on the string
  \<open>Unknown\<close>.
\<close>

definition curate ::
  "world \<Rightarrow> string \<Rightarrow> string \<Rightarrow> string \<Rightarrow> string \<Rightarrow> identity option \<Rightarrow>
     boundary_row list \<Rightarrow> lookup_row list \<Rightarrow> py_error + curation" where
  "curate w accession sequence prof strain_name ident boundary_df lookup_df =
     (let molseq = MolSeq_init accession sequence
      in case get_n_content molseq of Inl e \<Rightarrow> Inl e | Inr n_content \<Rightarrow>
         case get_ambig_content molseq of Inl e \<Rightarrow> Inl e | Inr ambig_content \<Rightarrow>
         case ident of
           None \<Rightarrow> Inl (UnboundLocalError ''identity'')
         | Some Identity_Unknown \<Rightarrow> Inl TypeError
         | Some (Identity n d) \<Rightarrow>
             let ambig = (if exceeds_half_percent n_content then [''Excess-N''] else [])
                       @ (if exceeds_half_percent ambig_content then [''Excess-Ambig''] else [])
                       @ (if 100 * n < 80 * d then [''Excess-Dist''] else [])
             in case alignment_rows w of Inl e \<Rightarrow> Inl e | Inr sequences \<Rightarrow>
                case InDelSubs_init sequences of Inl e \<Rightarrow> Inl e | Inr muts \<Rightarrow>
                case deletion_flags muts boundary_df lookup_df of Inl e \<Rightarrow> Inl e | Inr dels \<Rightarrow>
                case insertion_flags muts boundary_df of Inl e \<Rightarrow> Inl e | Inr inss \<Rightarrow>
                case substitution_flags muts boundary_df of Inl e \<Rightarrow> Inl e | Inr subs \<Rightarrow>
                  (if length inss = 0 \<and> save_alignment_error w \<noteq> None
                   then Inl (the (save_alignment_error w))
                   else Inr \<lparr> mut_flags = Some (dels @ inss @ subs), del_flags = Some dels,
                              ins_flags = Some inss, sub_flags = Some subs,
                              ambig_flags = Some ambig, profile = prof,
                              identity_attr = Identity n d, strain_name_attr = strain_name,
                              accession_attr = accession \<rparr>))"

text \<open>
  The constructor. \<open>if strain_name:\<close> holds for a string that is given and not empty;
  on that branch nothing is assigned to \<open>identity\<close>.
\<close>

definition Curation_init :: "world \<Rightarrow> string option \<Rightarrow> py_error + curation" where
  "Curation_init w strain_name =
     (case query_record w of
        Inl e \<Rightarrow> Inl e
      | Inr (accession, sequence) \<Rightarrow>
          (case (if strain_name \<noteq> None \<and> strain_name \<noteq> Some []
                 then (case profile_dir_files w of
                         None \<Rightarrow> Inl (PyException (CHR 0x0A #
                                   ''ERROR: Invalid profiles directory or strain name'' @ [CHR 0x0A]))
                       | Some files \<Rightarrow>
                           (case [filename \<leftarrow> files. prefix (the strain_name) filename] of
                              [] \<Rightarrow> Inl (PyException (CHR 0x0A #
                                     ''ERROR: Invalid profiles directory or strain name'' @ [CHR 0x0A]))
                            | prof # _ \<Rightarrow> Inr (prof, None, the strain_name)))
                 else (case blast_run w of
                         Inl e \<Rightarrow> Inl e
                       | Inr result \<Rightarrow>
                           (case Blast_init result of
                              Inl e \<Rightarrow> Inl e
                            | Inr b \<Rightarrow> Inr (blast_profile b, Some (blast_identity b), get_strain b)))) of
             Inl e \<Rightarrow> Inl e
           | Inr (prof, ident, strain) \<Rightarrow>
               if prof = ''Unknown''
               then Inr \<lparr> mut_flags = None, del_flags = None, ins_flags = None, sub_flags = None,
                          ambig_flags = None, profile = ''Unknown'',
                          identity_attr = Identity_Unknown, strain_name_attr = ''Unknown'',
                          accession_attr = accession \<rparr>
               else (case parse_boundary_file strain (boundary_file_lines w) of
                       Inl e \<Rightarrow> Inl e
                     | Inr boundary_df \<Rightarrow>
                         (case parse_lookup_table prof (lookup_table_lines w) of
                            Inl e \<Rightarrow> Inl e
                          | Inr lookup_df \<Rightarrow>
                              curate w accession sequence prof strain ident boundary_df lookup_df))))"

text \<open>The accessors return a sentinel string or a table of flags.\<close>

datatype report = Sentinel string | Table "flag list"

datatype ambiguity_report = Ambiguity_Sentinel string | Ambiguity_List "string list"

definition flag_report :: "curation \<Rightarrow> string \<Rightarrow> flag list option \<Rightarrow> py_error + report" where
  "flag_report c attr flags =
     (if profile c = ''Unknown'' then Inr (Sentinel ''Unknown'')
      else case flags of
             None \<Rightarrow> Inl (AttributeError attr)
           | Some fs \<Rightarrow> Inr (if fs = [] then Sentinel ''Pass'' else Table fs))"

definition mutation_flags :: "curation \<Rightarrow> py_error + report" where
  "mutation_flags c = flag_report c ''mut_flags'' (mut_flags c)"

definition Curation_deletion_flags :: "curation \<Rightarrow> py_error + report" where
  "Curation_deletion_flags c = flag_report c ''del_flags'' (del_flags c)"

definition Curation_insertion_flags :: "curation \<Rightarrow> py_error + report" where
  "Curation_insertion_flags c = flag_report c ''ins_flags'' (ins_flags c)"

definition Curation_substitution_flags :: "curation \<Rightarrow> py_error + report" where
  "Curation_substitution_flags c = flag_report c ''sub_flags'' (sub_flags c)"

definition ambiguity_flags :: "curation \<Rightarrow> py_error + ambiguity_report" where
  "ambiguity_flags c =
     (if profile c = ''Unknown'' then Inr (Ambiguity_Sentinel ''Excess-Dist'')
      else case ambig_flags c of
             None \<Rightarrow> Inl (AttributeError ''ambig_flags'')
           | Some a \<Rightarrow> Inr (if a = [] then Ambiguity_Sentinel ''Pass'' else Ambiguity_List a))"

text \<open>
  \<open>self.profile == "Unknown" or self.ambig_flags\<close> reads \<open>ambig_flags\<close> only when the profile
  is known; a list is true when it is not empty.
\<close>

definition summary_flag :: "curation \<Rightarrow> py_error + string" where
  "summary_flag c =
     (if profile c = ''Unknown'' then Inr ''Ambig-Seq''
      else case ambig_flags c of
             None \<Rightarrow> Inl (AttributeError ''ambig_flags'')
           | Some a \<Rightarrow>
               if a \<noteq> [] then Inr ''Ambig-Seq''
               else case mut_flags c of
                      None \<Rightarrow> Inl (AttributeError ''mut_flags'')
                    | Some fs \<Rightarrow>
                        if True \<in> set [True. flg \<leftarrow> fs, str_in ''CDS'' (Flag flg)]
                        then Inr ''Flag-CDS''
                        else if True \<in> set [True. flg \<leftarrow> fs,
                                           str_in ''NCR'' (Flag flg) \<or> str_in ''CTS'' (Flag flg)]
                        then Inr ''Flag-NCR''
                        else Inr ''Pass'')"

subsection \<open>Example inputs\<close>

text \<open>
  The table \<open>parse_boundary_file\<close> builds from the line
  \<open>X|START=1|CTS5=2|ATG=5|STOP=7|CTS3=9|END=10\<close>.
\<close>

definition example_boundaries :: "boundary_row list" where
  "example_boundaries =
     [\<lparr> Region = ''CTS5'', Start = 1, End = 2 \<rparr>, \<lparr> Region = ''NCR5'', Start = 3, End = 4 \<rparr>,
      \<lparr> Region = ''CDS'', Start = 5, End = 7 \<rparr>, \<lparr> Region = ''NCR3'', Start = 8, End = 8 \<rparr>,
      \<lparr> Region = ''CTS3'', Start = 9, End = 10 \<rparr>]"

text \<open>The table \<open>parse_lookup_table\<close> returns for a profile without a line in the file.\<close>

definition unlisted_lookup :: "lookup_row list" where
  "unlisted_lookup = [\<lparr> lk_Flag = ''XXX'', lk_Start = - 1, lk_End = - 1 \<rparr>]"

text \<open>
  The object the constructor builds from the rows \<open>ACGTACGTAC\<close> (profile) and
  \<open>ACG---GTAC\<close> (query): one deletion run over the profile positions 4 to 6, across the
  end of \<open>NCR5\<close>.
\<close>

definition straddling_deletion :: indelsubs where
  "straddling_deletion =
     \<lparr> nkdp = [3, 4, 5], nkip = [], nkadp = [], query_seq = ''ACG---GTAC'',
       profile_seqs = [''ACGTACGTAC''], del_groups = [[3, 4, 5]], ins_groups = [] \<rparr>"

text \<open>
  The object built from the rows \<open>ACGTAC---GTAC\<close> (profile) and \<open>ACGT-CTTTGTAC\<close> (query):
  a deletion at profile position 5 and an insertion of three bases after profile position 6.
\<close>

definition deletion_and_insertion :: indelsubs where
  "deletion_and_insertion =
     \<lparr> nkdp = [4], nkip = [6, 7, 8], nkadp = [], query_seq = ''ACGT-CTTTGTAC'',
       profile_seqs = [''ACGTAC---GTAC''], del_groups = [[4]], ins_groups = [[6, 7, 8]] \<rparr>"


text \<open>
  A query for which the homology search finds no alignment, with no profile directory, no
  boundary file, no lookup table and no alignment at hand.
\<close>

definition unclassified_world :: world where
  "unclassified_world =
     \<lparr> query_record = Inr (''CY121680'', ''ACGTACGTAC''), profile_dir_files = None,
       blast_run = Inr No_Alignments, boundary_file_lines = None, lookup_table_lines = None,
       alignment_rows = Inl IOError, save_alignment_error = None \<rparr>"

text \<open>
  A complete set of inputs for the strain \<open>A_4_H1\<close>: one profile file, its line in the
  boundary file, an empty lookup table and the alignment of the query to one profile row.
\<close>

definition strain_world :: world where
  "strain_world =
     \<lparr> query_record = Inr (''CY121680'', ''ACGGTAC''),
       profile_dir_files = Some [''A_4_H1_profile.fasta''],
       blast_run = Inr (Top_Hit ''gnl|BL_ORD_ID|0|A_4_H1_profile'' 7 10),
       boundary_file_lines =
         Some [''A_4_H1|START=1|CTS5=2|ATG=5|STOP=7|CTS3=9|END=10'' @ [CHR 0x0A]],
       lookup_table_lines = Some [],
       alignment_rows = Inr [''ACGTACGTAC'', ''ACG---GTAC''],
       save_alignment_error = None \<rparr>"



text \<open>
  The table of the line \<open>X|START=1|CTS5=2|ATG=5|STOP=7|CTS3=8|END=10\<close>, where the 3' terminal
  sequence starts right after the coding region and the row \<open>NCR3\<close> is \<open>[8, 7]\<close>; and the
  object built from the rows \<open>ACGTACGTAC\<close> (profile) and \<open>ACGTAC--AC\<close> (query), with one
  deletion run over the profile positions 7 and 8.
\<close>

definition adjacent_stop_boundaries :: "boundary_row list" where
  "adjacent_stop_boundaries =
     [\<lparr> Region = ''CTS5'', Start = 1, End = 2 \<rparr>, \<lparr> Region = ''NCR5'', Start = 3, End = 4 \<rparr>,
      \<lparr> Region = ''CDS'', Start = 5, End = 7 \<rparr>, \<lparr> Region = ''NCR3'', Start = 8, End = 7 \<rparr>,
      \<lparr> Region = ''CTS3'', Start = 8, End = 10 \<rparr>]"

definition stop_deletion :: indelsubs where
  "stop_deletion =
     \<lparr> nkdp = [6, 7], nkip = [], nkadp = [], query_seq = ''ACGTAC--AC'',
       profile_seqs = [''ACGTACGTAC''], del_groups = [[6, 7]], ins_groups = [] \<rparr>"

text \<open>
  The table of the line \<open>X|START=1|CTS5=2|ATG=5|STOP=7|CTS3=9|END=9\<close>, which ends one position
  before the end of a profile of ten positions; and the object built from the rows
  \<open>ACGTAC---GTAC--\<close> (profile) and \<open>ACGTACTTTGTACGG\<close> (query), with an insertion of three
  bases after profile position 6 and one of two bases after profile position 10.
\<close>

definition short_boundaries :: "boundary_row list" where
  "short_boundaries =
     [\<lparr> Region = ''CTS5'', Start = 1, End = 2 \<rparr>, \<lparr> Region = ''NCR5'', Start = 3, End = 4 \<rparr>,
      \<lparr> Region = ''CDS'', Start = 5, End = 7 \<rparr>, \<lparr> Region = ''NCR3'', Start = 8, End = 8 \<rparr>,
      \<lparr> Region = ''CTS3'', Start = 9, End = 9 \<rparr>]"

definition two_insertions :: indelsubs where
  "two_insertions =
     \<lparr> nkdp = [], nkip = [6, 7, 8, 13, 14], nkadp = [], query_seq = ''ACGTACTTTGTACGG'',
       profile_seqs = [''ACGTAC---GTAC--''], del_groups = [], ins_groups = [[6, 7, 8], [13, 14]] \<rparr>"

section \<open>Properties\<close>

subsection \<open>The column sets of an alignment\<close>

lemma set_set_union: "set (set_union a b) = set a \<union> set b"
  by (auto simp: set_union_def)

lemma set_set_intersection: "set (set_intersection a b) = set a \<inter> set b"
  by (auto simp: set_intersection_def)

lemma set_set_minus: "set (set_minus a b) = set a - set b"
  by (auto simp: set_minus_def)

lemma set_foldl_union:
  "set (foldl (\<lambda>u seq. set_union u (dash_positions seq)) a xs)
     = set a \<union> (\<Union>s\<in>set xs. set (dash_positions s))"
  by (induction xs arbitrary: a) (auto simp: set_set_union)

lemma set_foldl_intersection:
  "set (foldl (\<lambda>u seq. set_intersection u (dash_positions seq)) a xs)
     = set a \<inter> (\<Inter>s\<in>set xs. set (dash_positions s))"
  by (induction xs arbitrary: a) (auto simp: set_set_intersection)

lemma set_profile_dash_union:
  "set (profile_dash_union (p # rest)) = (\<Union>s\<in>set (p # rest). set (dash_positions s))"
  by (simp add: profile_dash_union_def set_foldl_union)

lemma set_profile_dash_intsct:
  "set (profile_dash_intsct (p # rest)) = (\<Inter>s\<in>set (p # rest). set (dash_positions s))"
  by (simp add: profile_dash_intsct_def set_foldl_intersection)

text \<open>The constructor succeeds exactly on an alignment of at least two rows.\<close>

lemma InDelSubs_init_shape:
  assumes "InDelSubs_init sequences = Inr m"
  shows "\<exists>p rest q. sequences = (p # rest) @ [q]"
proof -
  from assms have ne: "sequences \<noteq> []" and pne: "take (length sequences - 1) sequences \<noteq> []"
    by (auto simp: InDelSubs_init_def Let_def split: if_splits)
  from ne have "sequences = butlast sequences @ [last sequences]" by simp
  moreover from pne obtain p rest where "butlast sequences = p # rest"
    by (cases "butlast sequences") (auto simp: butlast_conv_take)
  ultimately show ?thesis by metis
qed

lemma InDelSubs_init_snoc:
  "InDelSubs_init ((p # rest) @ [q]) =
     Inr \<lparr> nkdp = dash_positions q,
           nkip = sort (set_minus (profile_dash_intsct (p # rest)) (dash_positions q)),
           nkadp = set_minus (profile_dash_union (p # rest))
                     (set_minus (profile_dash_intsct (p # rest)) (dash_positions q)),
           query_seq = q,
           profile_seqs = p # rest,
           del_groups = consecutive_groups (sort (set_minus (dash_positions q)
               (set_minus (profile_dash_union (p # rest))
                     (set_minus (profile_dash_intsct (p # rest)) (dash_positions q))))),
           ins_groups = consecutive_groups
               (sort (set_minus (profile_dash_intsct (p # rest)) (dash_positions q))) \<rparr>"
  by (simp add: InDelSubs_init_def Let_def nth_append)

lemma InDelSubs_init_fields:
  assumes "InDelSubs_init sequences = Inr m"
  shows "sequences \<noteq> []" and "butlast sequences \<noteq> []"
    and "query_seq m = last sequences" and "profile_seqs m = butlast sequences"
    and "nkdp m = dash_positions (last sequences)"
    and "nkip m = sort (set_minus (profile_dash_intsct (butlast sequences)) (nkdp m))"
    and "nkadp m = set_minus (profile_dash_union (butlast sequences))
                     (set_minus (profile_dash_intsct (butlast sequences)) (nkdp m))"
    and "del_groups m = consecutive_groups (sort (set_minus (nkdp m) (nkadp m)))"
    and "ins_groups m = consecutive_groups (nkip m)"
proof -
  from InDelSubs_init_shape [OF assms] obtain p rest q where s: "sequences = (p # rest) @ [q]"
    by blast
  have b: "butlast sequences = p # rest" and l: "last sequences = q"
    unfolding s by (simp_all add: butlast_append)
  from assms have m: "m = \<lparr> nkdp = dash_positions q,
           nkip = sort (set_minus (profile_dash_intsct (p # rest)) (dash_positions q)),
           nkadp = set_minus (profile_dash_union (p # rest))
                     (set_minus (profile_dash_intsct (p # rest)) (dash_positions q)),
           query_seq = q,
           profile_seqs = p # rest,
           del_groups = consecutive_groups (sort (set_minus (dash_positions q)
               (set_minus (profile_dash_union (p # rest))
                     (set_minus (profile_dash_intsct (p # rest)) (dash_positions q))))),
           ins_groups = consecutive_groups
               (sort (set_minus (profile_dash_intsct (p # rest)) (dash_positions q))) \<rparr>"
    unfolding s InDelSubs_init_snoc by simp
  show "sequences \<noteq> []" by (simp add: s)
  show "butlast sequences \<noteq> []" by (simp add: b)
  show "query_seq m = last sequences" by (simp add: m l)
  show "profile_seqs m = butlast sequences" by (simp add: m b)
  show "nkdp m = dash_positions (last sequences)" by (simp add: m l)
  show "nkip m = sort (set_minus (profile_dash_intsct (butlast sequences)) (nkdp m))"
    by (simp add: m b)
  show "nkadp m = set_minus (profile_dash_union (butlast sequences))
                     (set_minus (profile_dash_intsct (butlast sequences)) (nkdp m))"
    by (simp add: m b)
  show "del_groups m = consecutive_groups (sort (set_minus (nkdp m) (nkadp m)))"
    by (simp add: m)
  show "ins_groups m = consecutive_groups (nkip m)"
    by (simp add: m)
qed

lemma InDelSubs_init_sets:
  assumes "InDelSubs_init sequences = Inr m"
  shows "set (nkip m) = (\<Inter>s\<in>set (butlast sequences). set (dash_positions s)) - set (nkdp m)"
    and "set (nkadp m) = (\<Union>s\<in>set (butlast sequences). set (dash_positions s)) - set (nkip m)"
proof -
  note f = InDelSubs_init_fields [OF assms]
  from f(2) obtain p rest where b: "butlast sequences = p # rest"
    by (cases "butlast sequences") auto
  show 1: "set (nkip m) = (\<Inter>s\<in>set (butlast sequences). set (dash_positions s)) - set (nkdp m)"
    unfolding f(6) b by (simp add: set_set_minus set_profile_dash_intsct)
  show "set (nkadp m) = (\<Union>s\<in>set (butlast sequences). set (dash_positions s)) - set (nkip m)"
    unfolding 1 unfolding f(7) b
    by (simp add: set_set_minus set_profile_dash_intsct set_profile_dash_union)
qed


subsection \<open>Counting positions below a column\<close>

lemma count_window_le:
  assumes "distinct (I :: int list)"
  shows "length [i \<leftarrow> I. a \<le> i \<and> i < b] \<le> nat (b - a)"
proof -
  have "length [i \<leftarrow> I. a \<le> i \<and> i < b] = card ({i. a \<le> i \<and> i < b} \<inter> set I)"
    using assms by (rule distinct_length_filter)
  also have "\<dots> \<le> card {a..<b}"
    by (rule card_mono) auto
  finally show ?thesis by simp
qed

lemma count_window_lt:
  assumes "distinct (I :: int list)" and "a \<notin> set I" and "a < b"
  shows "length [i \<leftarrow> I. a \<le> i \<and> i < b] < nat (b - a)"
proof -
  have "length [i \<leftarrow> I. a \<le> i \<and> i < b] = card ({i. a \<le> i \<and> i < b} \<inter> set I)"
    using assms(1) by (rule distinct_length_filter)
  also have "\<dots> \<le> card {a + 1..<b}"
  proof (rule card_mono)
    show "{i. a \<le> i \<and> i < b} \<inter> set I \<subseteq> {a + 1..<b}"
    proof
      fix x assume x: "x \<in> {i. a \<le> i \<and> i < b} \<inter> set I"
      with assms(2) have "x \<noteq> a" by auto
      with x show "x \<in> {a + 1..<b}" by auto
    qed
  qed simp
  finally show ?thesis using assms(3) by simp
qed

lemma count_lt_split:
  "a \<le> b \<Longrightarrow> length [i \<leftarrow> I. i < b] = length [i \<leftarrow> I. i < a] + length [i \<leftarrow> (I::int list). a \<le> i \<and> i < b]"
  by (induction I) auto

lemma count_le_lt:
  "length [i \<leftarrow> I. i \<le> j] = length [i \<leftarrow> I. i < j] + length [i \<leftarrow> (I::int list). i = j]"
  by (induction I) auto

lemma count_eq_distinct:
  "distinct I \<Longrightarrow> length [i \<leftarrow> (I::int list). i = j] = (if j \<in> set I then 1 else 0)"
  by (induction I) auto

lemma col_to_prof_le_member:
  "distinct I \<Longrightarrow> j \<in> set I \<Longrightarrow> col_to_prof_le I j = col_to_prof I j - 1"
  by (simp add: col_to_prof_le_def col_to_prof_def count_le_lt [where I = I and j = j] count_eq_distinct)

lemma col_to_prof_le_nonmember:
  "distinct I \<Longrightarrow> j \<notin> set I \<Longrightarrow> col_to_prof_le I j = col_to_prof I j"
  by (simp add: col_to_prof_le_def col_to_prof_def count_le_lt [where I = I and j = j] count_eq_distinct)

lemma col_to_prof_mono:
  assumes "distinct I" and "c \<le> c'"
  shows "col_to_prof I c \<le> col_to_prof I c'"
  using count_window_le [OF assms(1), of c c'] count_lt_split [OF assms(2), where I = I] assms(2)
  by (simp add: col_to_prof_def)

lemma col_to_prof_strict_mono:
  assumes "distinct I" and "c \<notin> set I" and "c < c'"
  shows "col_to_prof I c < col_to_prof I c'"
  using count_window_lt [OF assms] count_lt_split [where a = c and b = c' and I = I] assms(3)
  by (simp add: col_to_prof_def)

lemma col_to_prof_less_iff:
  assumes "distinct I" and "c \<notin> set I" and "c' \<notin> set I"
  shows "col_to_prof I c < col_to_prof I c' \<longleftrightarrow> c < c'"
  using col_to_prof_strict_mono [OF assms(1,2), of c'] col_to_prof_strict_mono [OF assms(1,3), of c]
  by (cases c c' rule: linorder_cases) auto

lemma col_to_prof_le_iff:
  assumes "distinct I" and "c \<notin> set I" and "c' \<notin> set I"
  shows "col_to_prof I c \<le> col_to_prof I c' \<longleftrightarrow> c \<le> c'"
  using col_to_prof_less_iff [OF assms(1,3,2)] by (simp add: linorder_not_less [symmetric])

lemma col_to_prof_inj:
  assumes "distinct I"
  shows "inj_on (col_to_prof I) (- set I)"
proof (rule inj_onI)
  fix c c' assume "c \<in> - set I" "c' \<in> - set I" "col_to_prof I c = col_to_prof I c'"
  then show "c = c'"
    using col_to_prof_less_iff [OF assms, of c c'] col_to_prof_less_iff [OF assms, of c' c]
    by (cases c c' rule: linorder_cases) auto
qed

lemma insertion_before_iff:
  assumes "distinct I" and "c \<notin> set I" and "j \<in> set I"
  shows "col_to_prof_le I j < col_to_prof I c \<longleftrightarrow> j < c"
proof (cases "j < c")
  case True
  then have "col_to_prof I j \<le> col_to_prof I c" using col_to_prof_mono [OF assms(1), of j c] by simp
  with True show ?thesis by (simp add: col_to_prof_le_member [OF assms(1,3)])
next
  case False
  with assms have "c < j" by (cases c j rule: linorder_cases) auto
  from col_to_prof_strict_mono [OF assms(1,2) this] False show ?thesis
    by (simp add: col_to_prof_le_member [OF assms(1,3)])
qed

lemma prof_to_col_col_to_prof:
  assumes "distinct I" and "c \<notin> set I"
  shows "prof_to_col I (col_to_prof I c) = c"
proof -
  have "[i \<leftarrow> map (col_to_prof_le I) I. i < col_to_prof I c]
          = map (col_to_prof_le I) [j \<leftarrow> I. col_to_prof_le I j < col_to_prof I c]"
    by (simp add: filter_map comp_def)
  also have "[j \<leftarrow> I. col_to_prof_le I j < col_to_prof I c] = [j \<leftarrow> I. j < c]"
    by (rule filter_cong) (auto simp: insertion_before_iff [OF assms])
  finally have "length [i \<leftarrow> map (col_to_prof_le I) I. i < col_to_prof I c] = length [j \<leftarrow> I. j < c]"
    by simp
  then show ?thesis by (simp add: prof_to_col_def) (simp add: col_to_prof_def)
qed

subsection \<open>Grouping consecutive positions\<close>

lemma groupby_concat: "concat (groupby key xs) = xs"
  by (induction xs) (auto split: list.splits)

lemma groupby_nonempty: "g \<in> set (groupby key xs) \<Longrightarrow> g \<noteq> []"
  by (induction xs arbitrary: g) (auto split: list.splits if_splits)

lemma groupby_hd:
  "xs \<noteq> [] \<Longrightarrow> groupby key xs \<noteq> [] \<and> hd (hd (groupby key xs)) = hd xs"
  by (cases xs) (auto split: list.splits)

lemma groupby_successively:
  "successively R xs \<Longrightarrow> g \<in> set (groupby key xs)
     \<Longrightarrow> successively (\<lambda>a b. R a b \<and> key a = key b) g"
proof (induction xs arbitrary: g)
  case Nil
  then show ?case by simp
next
  case (Cons x xs)
  show ?case
  proof (cases xs)
    case Nil
    with Cons.prems show ?thesis by simp
  next
    case (Cons y ys)
    from Cons.prems(1) Cons have R: "R x y" and S: "successively R xs" by simp_all
    from groupby_hd [of xs key] Cons obtain h hs where gb: "groupby key xs = h # hs" and hh: "hd h = y"
      by (cases "groupby key xs") auto
    from groupby_nonempty [of h key xs] gb obtain z zs where h: "h = z # zs" by (cases h) auto
    with hh have z: "z = y" by simp
    have ih: "\<And>g'. g' \<in> set (h # hs) \<Longrightarrow> successively (\<lambda>a b. R a b \<and> key a = key b) g'"
      using Cons.IH [OF S] gb by simp
    show ?thesis
    proof (cases "key x = key y")
      case True
      with Cons.prems(2) gb h z have "g = x # h \<or> g \<in> set hs" by auto
      then show ?thesis
      proof
        assume "g = x # h"
        with ih [of h] R True h z show ?thesis by simp
      next
        assume "g \<in> set hs"
        with ih show ?thesis by simp
      qed
    next
      case False
      with Cons.prems(2) gb h z have "g = [x] \<or> g \<in> set (h # hs)" by auto
      then show ?thesis using ih by auto
    qed
  qed
qed

lemma enumerate_py_successively:
  "successively (\<lambda>a b. fst b = fst a + 1) (enumerate_py xs)"
  by (simp add: successively_conv_nth enumerate_py_def)

lemma consecutive_groups_run:
  assumes "g \<in> set (consecutive_groups xs)"
  shows "g \<noteq> []" and "successively (\<lambda>x y. y = x + 1) g" and "set g \<subseteq> set xs"
proof -
  from assms obtain g' where g': "g' \<in> set (groupby (\<lambda>ix. fst ix - snd ix) (enumerate_py xs))"
    and g: "g = map snd g'"
    by (auto simp: consecutive_groups_def)
  from groupby_nonempty [OF g'] g show "g \<noteq> []" by simp
  from groupby_successively [OF enumerate_py_successively g']
  have "successively (\<lambda>a b. fst b = fst a + 1 \<and> fst a - snd a = fst b - snd b) g'" .
  then have "successively (\<lambda>a b. snd b = snd a + 1) g'"
    by (rule successively_mono) auto
  then show "successively (\<lambda>x y. y = x + 1) g"
    by (simp add: g successively_map)
  have "set g' \<subseteq> set (concat (groupby (\<lambda>ix. fst ix - snd ix) (enumerate_py xs)))"
    using g' by auto
  then have "set g' \<subseteq> set (enumerate_py xs)" by (simp add: groupby_concat)
  then have "\<And>a b. (a, b) \<in> set g' \<Longrightarrow> b \<in> set xs"
    unfolding enumerate_py_def by (blast dest: set_zip_rightD)
  then show "set g \<subseteq> set xs"
    by (auto simp: g)
qed

lemma run_set:
  "g \<noteq> [] \<Longrightarrow> successively (\<lambda>x y. y = x + 1) g \<Longrightarrow> set g = {hd g..last (g :: int list)}"
proof (induction g)
  case Nil
  then show ?case by simp
next
  case (Cons x g)
  show ?case
  proof (cases g)
    case Nil
    then show ?thesis by simp
  next
    case (Cons y ys)
    from Cons.prems(2) have ys: "y = x + 1 \<and> successively (\<lambda>x y. y = x + 1) (y # ys)"
      unfolding Cons by auto
    from ys have y: "y = x + 1" by blast
    from ys have s: "successively (\<lambda>x y. y = x + 1) g" unfolding Cons by blast
    from Cons.IH [OF _ s] Cons have ih: "set g = {x + 1..last g}" by (simp add: y)
    have "x + 1 \<in> set g" using Cons y by simp
    with ih have "x + 1 \<le> last g" by simp
    then have "insert x {x + 1..last g} = {x..last g}" by auto
    with ih Cons show ?thesis by simp
  qed
qed

lemma run_hd_le_last:
  "g \<noteq> [] \<Longrightarrow> successively (\<lambda>x y. y = x + 1) g \<Longrightarrow> hd g \<le> last (g :: int list)"
  using run_set [of g] by (metis atLeastAtMost_iff hd_in_set)

subsection \<open>What the constructor establishes\<close>

lemma dash_positions_conv:
  "dash_positions s = map int [i \<leftarrow> [0..<length s]. s ! i = CHR ''-'']"
proof -
  have "concat (map (\<lambda>i. if s ! i = CHR ''-'' then [int i] else []) xs)
          = map int [i \<leftarrow> xs. s ! i = CHR ''-'']" for xs
    by (induction xs) auto
  then show ?thesis by (simp add: dash_positions_def)
qed

lemma distinct_dash_positions: "distinct (dash_positions s)"
  by (simp add: dash_positions_conv distinct_map)

lemma distinct_foldl_intersection:
  "distinct a \<Longrightarrow> distinct (foldl (\<lambda>u seq. set_intersection u (dash_positions seq)) a xs)"
  by (induction xs arbitrary: a) (auto simp: set_intersection_def)

lemma distinct_profile_dash_intsct: "distinct (profile_dash_intsct ps)"
  by (simp add: profile_dash_intsct_def distinct_foldl_intersection distinct_dash_positions)

lemma InDelSubs_init_distinct:
  assumes "InDelSubs_init sequences = Inr m"
  shows "distinct (nkdp m)" and "distinct (nkip m)" and "set (nkip m) \<inter> set (nkdp m) = {}"
proof -
  note f = InDelSubs_init_fields [OF assms]
  show "distinct (nkdp m)" by (simp add: f(5) distinct_dash_positions)
  show "distinct (nkip m)"
    unfolding f(6) by (simp add: set_minus_def distinct_profile_dash_intsct)
  show "set (nkip m) \<inter> set (nkdp m) = {}"
    unfolding InDelSubs_init_sets(1) [OF assms] by blast
qed

lemma InDelSubs_init_del_groups:
  assumes "InDelSubs_init sequences = Inr m" and "pos \<in> set (del_groups m)"
  shows "pos \<noteq> []" and "successively (\<lambda>x y. y = x + 1) pos"
    and "set pos \<subseteq> set (nkdp m)" and "set pos \<inter> set (nkip m) = {}"
proof -
  from assms have g: "pos \<in> set (consecutive_groups (sort (set_minus (nkdp m) (nkadp m))))"
    by (simp add: InDelSubs_init_fields(8) [OF assms(1)])
  from consecutive_groups_run [OF g] show "pos \<noteq> []" and "successively (\<lambda>x y. y = x + 1) pos"
    by simp_all
  from consecutive_groups_run(3) [OF g] show s: "set pos \<subseteq> set (nkdp m)"
    by (auto simp: set_set_minus)
  with InDelSubs_init_distinct(3) [OF assms(1)] show "set pos \<inter> set (nkip m) = {}" by blast
qed

lemma InDelSubs_init_ins_groups:
  assumes "InDelSubs_init sequences = Inr m" and "pos \<in> set (ins_groups m)"
  shows "pos \<noteq> []" and "successively (\<lambda>x y. y = x + 1) pos" and "set pos \<subseteq> set (nkip m)"
proof -
  from assms have g: "pos \<in> set (consecutive_groups (nkip m))"
    by (simp add: InDelSubs_init_fields(9) [OF assms(1)])
  from consecutive_groups_run [OF g]
  show "pos \<noteq> []" and "successively (\<lambda>x y. y = x + 1) pos" and "set pos \<subseteq> set (nkip m)"
    by simp_all
qed

subsection \<open>Deletion runs and the regions they overlap\<close>

lemma count_le_as_lt: "length [i \<leftarrow> (D :: int list). i \<le> x] = length [i \<leftarrow> D. i < x + 1]"
  by (rule arg_cong [where f = length], rule filter_cong) auto

lemma col_to_qry_le_step:
  assumes "distinct D" and "x + 1 \<in> set D"
  shows "col_to_qry_le D (x + 1) = col_to_qry_le D x"
proof -
  have "length [i \<leftarrow> D. i \<le> x + 1]
          = length [i \<leftarrow> D. i < x + 1] + length [i \<leftarrow> D. i = x + 1]"
    by (rule count_le_lt)
  also have "length [i \<leftarrow> D. i = x + 1] = 1"
    using assms by (simp only: count_eq_distinct if_True)
  also have "length [i \<leftarrow> D. i < x + 1] = length [i \<leftarrow> D. i \<le> x]"
    by (rule count_le_as_lt [symmetric])
  finally have "int (length [i \<leftarrow> D. i \<le> x + 1]) = int (length [i \<leftarrow> D. i \<le> x]) + 1"
    by simp
  then show ?thesis
    unfolding col_to_qry_le_def by linarith
qed

lemma col_to_qry_le_run:
  assumes "distinct D"
  shows "g \<noteq> [] \<Longrightarrow> successively (\<lambda>x y. y = x + 1) g \<Longrightarrow> set g \<subseteq> set D
     \<Longrightarrow> x \<in> set g \<Longrightarrow> col_to_qry_le D x = col_to_qry_le D (hd g)"
proof (induction g)
  case Nil
  then show ?case by simp
next
  case (Cons a g)
  show ?case
  proof (cases g)
    case Nil
    with Cons.prems show ?thesis by simp
  next
    case (Cons b bs)
    from Cons.prems(2) have ab: "b = a + 1 \<and> successively (\<lambda>x y. y = x + 1) (b # bs)"
      unfolding Cons by auto
    then have s: "successively (\<lambda>x y. y = x + 1) g" unfolding Cons by blast
    from ab have b: "b = a + 1" by blast
    from Cons.prems(3) Cons b have "a + 1 \<in> set D" by simp
    from col_to_qry_le_step [OF assms this] have step: "col_to_qry_le D b = col_to_qry_le D a"
      by (simp add: b)
    show ?thesis
    proof (cases "x = a")
      case True
      then show ?thesis by simp
    next
      case False
      with Cons.prems(4) have "x \<in> set g" by simp
      from Cons.IH [OF _ s _ this] Cons.prems(3) Cons have "col_to_qry_le D x = col_to_qry_le D b"
        by simp
      with step show ?thesis by simp
    qed
  qed
qed

lemma col_to_prof_step:
  assumes "distinct I" and "x \<notin> set I"
  shows "col_to_prof I (x + 1) = col_to_prof I x + 1"
proof -
  have "length [i \<leftarrow> I. i < x + 1] = length [i \<leftarrow> I. i \<le> x]"
    by (rule count_le_as_lt [symmetric])
  also have "\<dots> = length [i \<leftarrow> I. i < x] + length [i \<leftarrow> I. i = x]"
    by (rule count_le_lt)
  also have "length [i \<leftarrow> I. i = x] = 0"
    using assms by (simp only: count_eq_distinct if_False)
  finally have "int (length [i \<leftarrow> I. i < x + 1]) = int (length [i \<leftarrow> I. i < x])"
    by simp
  then show ?thesis
    unfolding col_to_prof_def by linarith
qed

lemma col_to_prof_run:
  assumes "distinct I" and "successively (\<lambda>x y. y = x + 1) g" and "set g \<inter> set I = {}"
  shows "successively (\<lambda>x y. y = x + 1) (map (col_to_prof I) g)"
  unfolding successively_map
proof (rule successively_mono [OF assms(2)])
  fix x y assume "x \<in> set g" and "y = x + 1"
  with assms(3) have "x \<notin> set I" by blast
  from col_to_prof_step [OF assms(1) this] \<open>y = x + 1\<close>
  show "col_to_prof I y = col_to_prof I x + 1" by simp
qed

lemma length_filter_mono:
  "(\<And>x. x \<in> set xs \<Longrightarrow> P x \<Longrightarrow> Q x) \<Longrightarrow> length (filter P xs) \<le> length (filter Q xs)"
  by (induction xs) auto

lemma prof_to_qry_col_to_prof:
  assumes "distinct (nkip m)" and "set (nkip m) \<inter> set (nkdp m) = {}" and "c \<notin> set (nkip m)"
  shows "prof_to_qry m (col_to_prof (nkip m) c) = col_to_qry_le (nkdp m) c"
proof -
  have "[j \<leftarrow> all_profile_del m. j \<le> col_to_prof (nkip m) c]
      = map (col_to_prof (nkip m)) [d \<leftarrow> nkdp m. col_to_prof (nkip m) d \<le> col_to_prof (nkip m) c]"
    by (simp add: all_profile_del_def filter_map comp_def)
  also have "[d \<leftarrow> nkdp m. col_to_prof (nkip m) d \<le> col_to_prof (nkip m) c] = [d \<leftarrow> nkdp m. d \<le> c]"
  proof (rule filter_cong [OF refl])
    fix d assume "d \<in> set (nkdp m)"
    with assms(2) have "d \<notin> set (nkip m)" by blast
    from col_to_prof_le_iff [OF assms(1) this assms(3)]
    show "(col_to_prof (nkip m) d \<le> col_to_prof (nkip m) c) = (d \<le> c)" .
  qed
  finally have del: "length [j \<leftarrow> all_profile_del m. j \<le> col_to_prof (nkip m) c]
      = length [d \<leftarrow> nkdp m. d \<le> c]" by simp
  from prof_to_col_col_to_prof [OF assms(1,3)]
  have "col_to_prof (nkip m) c
       + int (length [i \<leftarrow> all_profile_ins m. i < col_to_prof (nkip m) c]) = c + 1"
    by (simp add: prof_to_col_def all_profile_ins_def)
  with del show ?thesis
    by (simp add: prof_to_qry_def col_to_qry_le_def)
qed

lemma prof_to_qry_mono:
  assumes "distinct (nkip m)" and "distinct (nkdp m)" and "set (nkip m) \<inter> set (nkdp m) = {}"
    and "p \<le> p'"
  shows "prof_to_qry m p \<le> prof_to_qry m p'"
proof -
  have ins: "length [i \<leftarrow> all_profile_ins m. i < p] \<le> length [i \<leftarrow> all_profile_ins m. i < p']"
    using assms(4) by (intro length_filter_mono) simp
  have "inj_on (col_to_prof (nkip m)) (set (nkdp m))"
    using col_to_prof_inj [OF assms(1)] assms(3) by (auto intro: inj_on_subset)
  with assms(2) have dist: "distinct (all_profile_del m)"
    by (simp add: all_profile_del_def distinct_map)
  have "length [j \<leftarrow> all_profile_del m. j \<le> p']
      = length [j \<leftarrow> all_profile_del m. j < p' + 1]" by (rule count_le_as_lt)
  also have "\<dots> = length [j \<leftarrow> all_profile_del m. j < p + 1]
       + length [j \<leftarrow> all_profile_del m. p + 1 \<le> j \<and> j < p' + 1]"
    using assms(4) by (intro count_lt_split) simp
  also have "length [j \<leftarrow> all_profile_del m. j < p + 1] = length [j \<leftarrow> all_profile_del m. j \<le> p]"
    by (rule count_le_as_lt [symmetric])
  finally have e: "length [j \<leftarrow> all_profile_del m. j \<le> p']
      = length [j \<leftarrow> all_profile_del m. j \<le> p]
        + length [j \<leftarrow> all_profile_del m. p + 1 \<le> j \<and> j < p' + 1]" .
  have w: "length [j \<leftarrow> all_profile_del m. p + 1 \<le> j \<and> j < p' + 1] \<le> nat (p' + 1 - (p + 1))"
    by (rule count_window_le [OF dist])
  from e w assms(4) have "int (length [j \<leftarrow> all_profile_del m. j \<le> p'])
      \<le> int (length [j \<leftarrow> all_profile_del m. j \<le> p]) + (p' - p)"
    by linarith
  with ins show ?thesis unfolding prof_to_qry_def by linarith
qed

lemma collect_total:
  "(\<And>x. x \<in> set xs \<Longrightarrow> \<exists>ys. f x = Inr ys) \<Longrightarrow> \<exists>zs. collect f xs = Inr zs"
proof (induction xs)
  case Nil
  then show ?case by simp
next
  case (Cons x xs)
  from Cons.prems [of x] obtain ys where "f x = Inr ys" by auto
  moreover from Cons.IH Cons.prems obtain zs where "collect f xs = Inr zs" by auto
  ultimately show ?case by simp
qed

lemma collect_Inr_iff:
  "collect f xs = Inr zs \<Longrightarrow> z \<in> set zs \<longleftrightarrow> (\<exists>x \<in> set xs. \<exists>ys. f x = Inr ys \<and> z \<in> set ys)"
  by (induction xs arbitrary: zs) (auto split: sum.splits)

lemma collect_Inr_all:
  "collect f xs = Inr zs \<Longrightarrow> x \<in> set xs \<Longrightarrow> \<exists>ys. f x = Inr ys"
  by (induction xs arbitrary: zs) (auto split: sum.splits)

lemma region_dels_q_nonempty:
  assumes d: "distinct (nkip m)" "distinct (nkdp m)" "set (nkip m) \<inter> set (nkdp m) = {}"
    and pos: "pos \<noteq> []" "successively (\<lambda>x y. y = x + 1) pos" "set pos \<subseteq> set (nkdp m)"
    and reg: "Start reg \<le> last (map (col_to_prof (nkip m)) pos)"
             "End reg \<ge> hd (map (col_to_prof (nkip m)) pos)"
  shows "region_dels_q m pos reg \<noteq> []"
proof -
  from pos(1) have h: "hd pos \<in> set pos" and l: "last pos \<in> set pos" by simp_all
  from h l pos(3) d(3) have hI: "hd pos \<notin> set (nkip m)" and lI: "last pos \<notin> set (nkip m)"
    by blast+
  have q: "col_to_qry_le (nkdp m) (last pos) = col_to_qry_le (nkdp m) (hd pos)"
    by (rule col_to_qry_le_run [OF d(2) pos l])
  from reg pos(1) have s: "Start reg \<le> col_to_prof (nkip m) (last pos)"
    and e: "col_to_prof (nkip m) (hd pos) \<le> End reg"
    by (simp_all add: last_map hd_map)
  have "prof_to_qry m (Start reg) \<le> prof_to_qry m (col_to_prof (nkip m) (last pos))"
    by (rule prof_to_qry_mono [OF d s])
  then have 1: "prof_to_qry m (Start reg) \<le> col_to_qry_le (nkdp m) (hd pos)"
    by (simp add: prof_to_qry_col_to_prof [OF d(1,3) lI] q)
  have "prof_to_qry m (col_to_prof (nkip m) (hd pos)) \<le> prof_to_qry m (End reg)"
    by (rule prof_to_qry_mono [OF d e])
  then have 2: "col_to_qry_le (nkdp m) (hd pos) \<le> prof_to_qry m (End reg)"
    by (simp add: prof_to_qry_col_to_prof [OF d(1,3) hI])
  from 1 2 h have "col_to_qry_le (nkdp m) (hd pos) \<in> set (region_dels_q m pos reg)"
    by (simp add: region_dels_q_def)
  then show ?thesis by auto
qed

lemma region_dels_p_nonempty:
  assumes d: "distinct (nkip m)" "set (nkip m) \<inter> set (nkdp m) = {}"
    and pos: "pos \<noteq> []" "successively (\<lambda>x y. y = x + 1) pos" "set pos \<subseteq> set (nkdp m)"
    and reg: "Start reg \<le> last (map (col_to_prof (nkip m)) pos)"
             "End reg \<ge> hd (map (col_to_prof (nkip m)) pos)"
    and ne: "Start reg \<le> End reg"
  shows "region_dels_p m pos reg \<noteq> []"
proof -
  let ?ps = "map (col_to_prof (nkip m)) pos"
  from pos(3) d(2) have "set pos \<inter> set (nkip m) = {}" by blast
  from col_to_prof_run [OF d(1) pos(2) this] have run: "successively (\<lambda>x y. y = x + 1) ?ps" .
  from pos(1) have pne: "?ps \<noteq> []" by simp
  have set: "set ?ps = {hd ?ps..last ?ps}" by (rule run_set [OF pne run])
  have le: "hd ?ps \<le> last ?ps" by (rule run_hd_le_last [OF pne run])
  let ?p = "max (Start reg) (hd ?ps)"
  from reg ne le have "?p \<in> {hd ?ps..last ?ps}" and "Start reg \<le> ?p" and "?p \<le> End reg"
    by auto
  with set have "?p \<in> set (region_dels_p m pos reg)"
    unfolding region_dels_p_def by simp
  then show ?thesis by auto
qed

lemma deletion_region_flags_total:
  assumes "region_dels_q m pos reg \<noteq> []" and "region_dels_p m pos reg \<noteq> []"
  shows "\<exists>fs. deletion_region_flags m lookup_df pos reg = Inr fs"
  using assms by (simp add: deletion_region_flags_def Let_def)

lemma overlapping_regions_iff:
  "reg \<in> set (overlapping_regions m boundary_df pos) \<longleftrightarrow>
     reg \<in> set boundary_df \<and> Start reg \<le> last (map (col_to_prof (nkip m)) pos)
       \<and> End reg \<ge> hd (map (col_to_prof (nkip m)) pos)"
  by (auto simp: overlapping_regions_def Let_def)

subsection \<open>Flags and the runs they come from\<close>

lemma check_lookup_iff:
  "check_lookup lookup_df k s e =
     (if \<exists>r\<in>set lookup_df. lk_Flag r = k \<and> lk_Start r \<le> s \<and> lk_End r \<ge> e
      then ''PASS'' else ''FAIL'')"
  by (auto simp: check_lookup_def Let_def filter_empty_conv)

lemma deletion_region_flags_member:
  assumes "deletion_region_flags m lookup_df pos reg = Inr fs" and "f \<in> set fs"
  shows "Length f = int (length (region_dels_p m pos reg))"
    and "region_dels_p m pos reg \<noteq> []"
    and "Variant f = ''del''"
    and "Flag f = ''CDS-3Xdel'' \<longleftrightarrow> Region reg = ''CDS'' \<and> int (length pos) mod 3 = 0"
    and "Flag f = ''CDS-del'' \<longleftrightarrow> Region reg = ''CDS'' \<and> int (length pos) mod 3 \<noteq> 0"
  using assms
  by (auto simp: deletion_region_flags_def Let_def split: if_splits)

lemma deletion_flags_member:
  assumes "deletion_flags m boundary_df lookup_df = Inr fs" and "f \<in> set fs"
  shows "\<exists>pos\<in>set (del_groups m). \<exists>reg\<in>set (overlapping_regions m boundary_df pos). \<exists>zs.
           pos \<noteq> [] \<and> deletion_region_flags m lookup_df pos reg = Inr zs \<and> f \<in> set zs"
proof -
  from assms obtain pos ys where pos: "pos \<in> set (del_groups m)"
    and ys: "deletion_run_flags m boundary_df lookup_df pos = Inr ys" and f: "f \<in> set ys"
    unfolding deletion_flags_def by (auto simp: collect_Inr_iff)
  from ys have ne: "pos \<noteq> []" and c: "collect (deletion_region_flags m lookup_df pos)
      (overlapping_regions m boundary_df pos) = Inr ys"
    by (auto simp: deletion_run_flags_def split: if_splits)
  from c f obtain reg zs where "reg \<in> set (overlapping_regions m boundary_df pos)"
    and "deletion_region_flags m lookup_df pos reg = Inr zs" and "f \<in> set zs"
    by (auto simp: collect_Inr_iff)
  with pos ne show ?thesis by blast
qed

lemma insertion_run_flags_member:
  assumes "insertion_run_flags m boundary_df plen pos = Inr fs" and "f \<in> set fs"
  shows "pos \<noteq> []" and "Length f = int (length pos)"
    and "Flag f = ''CDS-3Xins'' \<Longrightarrow> int (length pos) mod 3 = 0"
    and "Flag f = ''CDS-ins'' \<Longrightarrow> int (length pos) mod 3 \<noteq> 0"
  using assms
  by (auto simp: insertion_run_flags_def Let_def split: if_splits)

lemma length_region_dels_p_inside:
  assumes "\<forall>c\<in>set pos. Start reg \<le> col_to_prof (nkip m) c \<and> col_to_prof (nkip m) c \<le> End reg"
  shows "length (region_dels_p m pos reg) = length pos"
  using assms by (simp add: region_dels_p_def)


subsection \<open>The whitelist and the terminal test\<close>

lemma deletion_region_flags_whitelist:
  "deletion_region_flags m lookup_df pos reg =
     (case deletion_region_flags m [] pos reg of
        Inl e \<Rightarrow> Inl e
      | Inr fs \<Rightarrow>
          Inr [f \<leftarrow> fs. \<not> ((Flag f = ''5'NCR-del'' \<or> Flag f = ''3'NCR-del''
                               \<or> Flag f = ''CDS-del'' \<or> Flag f = ''CDS-3Xdel'')
                          \<and> (\<exists>r\<in>set lookup_df. lk_Flag r = Flag f
                                 \<and> lk_Start r \<le> hd (region_dels_p m pos reg)
                                 \<and> lk_End r \<ge> last (region_dels_p m pos reg)))])"
proof (cases "region_dels_q m pos reg = []")
  case True
  then show ?thesis by (simp add: deletion_region_flags_def Let_def)
next
  case q: False
  show ?thesis
  proof (cases "hd (region_dels_q m pos reg) = 0
      \<or> hd (region_dels_q m pos reg) = int (length (query_seq m)) - int (length (nkdp m))")
    case True
    with q show ?thesis by (simp add: deletion_region_flags_def Let_def)
  next
    case t: False
    show ?thesis
    proof (cases "region_dels_p m pos reg = []")
      case True
      with q t show ?thesis by (simp add: deletion_region_flags_def Let_def)
    next
      case p: False
      consider (cts5) "Region reg = ''CTS5''" | (cts3) "Region reg = ''CTS3''"
        | (ncr5) "Region reg = ''NCR5''" | (ncr3) "Region reg = ''NCR3''"
        | (cds) "Region reg = ''CDS''"
        | (other) "Region reg \<noteq> ''CTS5''" "Region reg \<noteq> ''CTS3''" "Region reg \<noteq> ''NCR5''"
            "Region reg \<noteq> ''NCR3''" "Region reg \<noteq> ''CDS''"
        by blast
      then show ?thesis
      proof cases
        case cts5
        with q t p show ?thesis by (simp add: deletion_region_flags_def Let_def)
      next
        case cts3
        with q t p show ?thesis by (simp add: deletion_region_flags_def Let_def)
      next
        case ncr5
        show ?thesis
        proof (cases "\<exists>r\<in>set lookup_df. lk_Flag r = ''5'NCR-del''
            \<and> lk_Start r \<le> hd (region_dels_p m pos reg) \<and> lk_End r \<ge> last (region_dels_p m pos reg)")
          case True
          with ncr5 q t p show ?thesis
            by (auto simp: deletion_region_flags_def Let_def check_lookup_iff)
        next
          case False
          with ncr5 q t p show ?thesis
            by (auto simp: deletion_region_flags_def Let_def check_lookup_iff)
        qed
      next
        case ncr3
        show ?thesis
        proof (cases "\<exists>r\<in>set lookup_df. lk_Flag r = ''3'NCR-del''
            \<and> lk_Start r \<le> hd (region_dels_p m pos reg) \<and> lk_End r \<ge> last (region_dels_p m pos reg)")
          case True
          with ncr3 q t p show ?thesis
            by (auto simp: deletion_region_flags_def Let_def check_lookup_iff)
        next
          case False
          with ncr3 q t p show ?thesis
            by (auto simp: deletion_region_flags_def Let_def check_lookup_iff)
        qed
      next
        case cds
        show ?thesis
        proof (cases "int (length pos) mod 3 = 0")
          case f3: True
          show ?thesis
          proof (cases "\<exists>r\<in>set lookup_df. lk_Flag r = ''CDS-3Xdel''
              \<and> lk_Start r \<le> hd (region_dels_p m pos reg) \<and> lk_End r \<ge> last (region_dels_p m pos reg)")
            case True
            with cds q t p f3 show ?thesis
              by (auto simp: deletion_region_flags_def Let_def check_lookup_iff)
          next
            case False
            with cds q t p f3 show ?thesis
              by (auto simp: deletion_region_flags_def Let_def check_lookup_iff)
          qed
        next
          case f3: False
          show ?thesis
          proof (cases "\<exists>r\<in>set lookup_df. lk_Flag r = ''CDS-del''
              \<and> lk_Start r \<le> hd (region_dels_p m pos reg) \<and> lk_End r \<ge> last (region_dels_p m pos reg)")
            case True
            with cds q t p f3 show ?thesis
              by (auto simp: deletion_region_flags_def Let_def check_lookup_iff)
          next
            case False
            with cds q t p f3 show ?thesis
              by (auto simp: deletion_region_flags_def Let_def check_lookup_iff)
          qed
        qed
      next
        case other
        with q t p show ?thesis by (simp add: deletion_region_flags_def Let_def)
      qed
    qed
  qed
qed

lemma collect_rel:
  assumes "\<And>x. x \<in> set xs \<Longrightarrow> rel_sum (=) R (g x) (f x)"
    and "R [] []" and "\<And>a b c d. R a b \<Longrightarrow> R c d \<Longrightarrow> R (a @ c) (b @ d)"
  shows "rel_sum (=) R (collect g xs) (collect f xs)"
  using assms(1)
proof (induction xs)
  case Nil
  show ?case by (simp add: assms(2))
next
  case (Cons x xs)
  from Cons.prems have x: "rel_sum (=) R (g x) (f x)" by simp
  from Cons have ih: "rel_sum (=) R (collect g xs) (collect f xs)" by simp
  show ?case
  proof (cases "g x")
    case (Inl e)
    with x show ?thesis by (cases "f x") simp_all
  next
    case gx: (Inr a)
    with x obtain b where fx: "f x = Inr b" and ab: "R a b" by (cases "f x") simp_all
    show ?thesis
    proof (cases "collect g xs")
      case (Inl e)
      with ih gx fx show ?thesis by (cases "collect f xs") simp_all
    next
      case cg: (Inr c)
      with ih obtain d where cf: "collect f xs = Inr d" and cd: "R c d"
        by (cases "collect f xs") simp_all
      from assms(3) [OF ab cd] gx fx cg cf show ?thesis by simp
    qed
  qed
qed

lemma kept_rel_filter:
  assumes "\<And>f. K f \<Longrightarrow> Q f"
  shows "set (filter Q cs) \<subseteq> set cs \<and> filter K (filter Q cs) = filter K cs"
  using assms by (auto intro: filter_cong)

lemma deletion_region_flags_rel:
  "rel_sum (=) (\<lambda>fs cs. set fs \<subseteq> set cs
       \<and> [f \<leftarrow> fs. \<not> (Flag f = ''5'NCR-del'' \<or> Flag f = ''3'NCR-del''
                      \<or> Flag f = ''CDS-del'' \<or> Flag f = ''CDS-3Xdel'')]
         = [f \<leftarrow> cs. \<not> (Flag f = ''5'NCR-del'' \<or> Flag f = ''3'NCR-del''
                      \<or> Flag f = ''CDS-del'' \<or> Flag f = ''CDS-3Xdel'')])
     (deletion_region_flags m lookup_df pos reg) (deletion_region_flags m [] pos reg)"
proof (cases "deletion_region_flags m [] pos reg")
  case (Inl e)
  then show ?thesis by (subst deletion_region_flags_whitelist) simp
next
  case (Inr cs)
  show ?thesis
    unfolding deletion_region_flags_whitelist [of m lookup_df] Inr sum.case rel_sum_simps
    by (rule kept_rel_filter) blast
qed

lemma deletion_flags_rel:
  "rel_sum (=) (\<lambda>fs cs. set fs \<subseteq> set cs
       \<and> [f \<leftarrow> fs. \<not> (Flag f = ''5'NCR-del'' \<or> Flag f = ''3'NCR-del''
                      \<or> Flag f = ''CDS-del'' \<or> Flag f = ''CDS-3Xdel'')]
         = [f \<leftarrow> cs. \<not> (Flag f = ''5'NCR-del'' \<or> Flag f = ''3'NCR-del''
                      \<or> Flag f = ''CDS-del'' \<or> Flag f = ''CDS-3Xdel'')])
     (deletion_flags m boundary_df lookup_df) (deletion_flags m boundary_df [])"
  unfolding deletion_flags_def
proof (rule collect_rel)
  fix pos
  show "rel_sum (=) (\<lambda>fs cs. set fs \<subseteq> set cs
       \<and> [f \<leftarrow> fs. \<not> (Flag f = ''5'NCR-del'' \<or> Flag f = ''3'NCR-del''
                      \<or> Flag f = ''CDS-del'' \<or> Flag f = ''CDS-3Xdel'')]
         = [f \<leftarrow> cs. \<not> (Flag f = ''5'NCR-del'' \<or> Flag f = ''3'NCR-del''
                      \<or> Flag f = ''CDS-del'' \<or> Flag f = ''CDS-3Xdel'')])
      (deletion_run_flags m boundary_df lookup_df pos) (deletion_run_flags m boundary_df [] pos)"
  proof (cases "pos = []")
    case True
    then show ?thesis by (simp add: deletion_run_flags_def)
  next
    case False
    then show ?thesis
      unfolding deletion_run_flags_def if_not_P [OF False]
      by (intro collect_rel deletion_region_flags_rel) auto
  qed
qed auto

lemma deletion_region_flags_terminal:
  assumes "region_dels_q m pos reg \<noteq> []"
    and "hd (region_dels_q m pos reg) = 0
       \<or> hd (region_dels_q m pos reg) = int (length (query_seq m)) - int (length (nkdp m))"
  shows "deletion_region_flags m lookup_df pos reg = Inr []"
  using assms by (simp add: deletion_region_flags_def Let_def)

lemma deletion_region_flags_candidate:
  assumes q: "region_dels_q m pos reg \<noteq> []"
    and t: "hd (region_dels_q m pos reg) \<noteq> 0"
      "hd (region_dels_q m pos reg) \<noteq> int (length (query_seq m)) - int (length (nkdp m))"
    and p: "region_dels_p m pos reg \<noteq> []"
    and r: "Region reg = ''CTS5'' \<or> Region reg = ''NCR5'' \<or> Region reg = ''CDS''
          \<or> Region reg = ''NCR3'' \<or> Region reg = ''CTS3''"
  shows "\<exists>f. deletion_region_flags m [] pos reg = Inr [f]
           \<and> Variant f = ''del'' \<and> Length f = int (length (region_dels_p m pos reg))
           \<and> (Region reg = ''CTS5'' \<longrightarrow> Flag f = ''5'CTS-del'')
           \<and> (Region reg = ''NCR5'' \<longrightarrow> Flag f = ''5'NCR-del'')
           \<and> (Region reg = ''CDS'' \<longrightarrow>
                 Flag f = (if int (length pos) mod 3 = 0 then ''CDS-3Xdel'' else ''CDS-del''))
           \<and> (Region reg = ''NCR3'' \<longrightarrow> Flag f = ''3'NCR-del'')
           \<and> (Region reg = ''CTS3'' \<longrightarrow> Flag f = ''3'CTS-del'')"
proof -
  have c: "check_lookup [] k s e = ''FAIL''" for k s e by (simp add: check_lookup_def)
  from r consider (cts5) "Region reg = ''CTS5''" | (ncr5) "Region reg = ''NCR5''"
    | (cds) "Region reg = ''CDS''" | (ncr3) "Region reg = ''NCR3''" | (cts3) "Region reg = ''CTS3''"
    by blast
  then show ?thesis
  proof cases
    case cts5
    with q t p show ?thesis by (simp add: deletion_region_flags_def Let_def c)
  next
    case ncr5
    with q t p show ?thesis by (simp add: deletion_region_flags_def Let_def c)
  next
    case cds
    with q t p show ?thesis by (simp add: deletion_region_flags_def Let_def c)
  next
    case ncr3
    with q t p show ?thesis by (simp add: deletion_region_flags_def Let_def c)
  next
    case cts3
    with q t p show ?thesis by (simp add: deletion_region_flags_def Let_def c)
  qed
qed

lemma deletion_region_flags_lookup_cases:
  assumes "deletion_region_flags m [] pos reg = Inr [f]"
  shows "deletion_region_flags m lookup_df pos reg = Inr [f]
       \<or> deletion_region_flags m lookup_df pos reg = Inr []"
  by (subst (1 2) deletion_region_flags_whitelist) (simp add: assms)


subsection \<open>Substrings\<close>

lemma str_in_iff_sublist: "str_in sub s \<longleftrightarrow> sublist sub s"
  by (induction s) (auto simp: sublist_Cons_right)

lemma True_in_comprehension:
  "True \<in> set [True. x \<leftarrow> xs, P x] \<longleftrightarrow> (\<exists>x\<in>set xs. P x)"
  by (induction xs) auto


subsection \<open>The constructor of Curation and the boundary file\<close>

lemma curate_Inr:
  assumes "curate w accession sequence prof strain ident boundary_df lookup_df = Inr c"
  shows "\<exists>sequences muts dels inss subs.
           alignment_rows w = Inr sequences \<and> InDelSubs_init sequences = Inr muts
         \<and> deletion_flags muts boundary_df lookup_df = Inr dels
         \<and> insertion_flags muts boundary_df = Inr inss
         \<and> substitution_flags muts boundary_df = Inr subs
         \<and> del_flags c = Some dels \<and> ins_flags c = Some inss \<and> sub_flags c = Some subs
         \<and> mut_flags c = Some (dels @ inss @ subs)"
  using assms unfolding curate_def Let_def
  by (auto split: sum.splits option.splits identity.splits if_splits)

lemma deletion_flags_other_kinds:
  assumes "deletion_flags m boundary_df lookup_df = Inr dels"
    and "deletion_flags m boundary_df lookup_df' = Inr dels'"
  shows "[f \<leftarrow> dels. \<not> (Flag f = ''5'NCR-del'' \<or> Flag f = ''3'NCR-del''
                      \<or> Flag f = ''CDS-del'' \<or> Flag f = ''CDS-3Xdel'')]
       = [f \<leftarrow> dels'. \<not> (Flag f = ''5'NCR-del'' \<or> Flag f = ''3'NCR-del''
                      \<or> Flag f = ''CDS-del'' \<or> Flag f = ''CDS-3Xdel'')]"
proof -
  from deletion_flags_rel [of m boundary_df lookup_df] assms(1)
  obtain cs where cs: "deletion_flags m boundary_df [] = Inr cs"
    and 1: "[f \<leftarrow> dels. \<not> (Flag f = ''5'NCR-del'' \<or> Flag f = ''3'NCR-del''
                      \<or> Flag f = ''CDS-del'' \<or> Flag f = ''CDS-3Xdel'')]
       = [f \<leftarrow> cs. \<not> (Flag f = ''5'NCR-del'' \<or> Flag f = ''3'NCR-del''
                      \<or> Flag f = ''CDS-del'' \<or> Flag f = ''CDS-3Xdel'')]"
    by (cases "deletion_flags m boundary_df []") simp_all
  from deletion_flags_rel [of m boundary_df lookup_df'] assms(2) cs
  have "[f \<leftarrow> dels'. \<not> (Flag f = ''5'NCR-del'' \<or> Flag f = ''3'NCR-del''
                      \<or> Flag f = ''CDS-del'' \<or> Flag f = ''CDS-3Xdel'')]
       = [f \<leftarrow> cs. \<not> (Flag f = ''5'NCR-del'' \<or> Flag f = ''3'NCR-del''
                      \<or> Flag f = ''CDS-del'' \<or> Flag f = ''CDS-3Xdel'')]"
    by simp
  with 1 show ?thesis by simp
qed

lemma find_conv_filter:
  "find P xs = (case filter P xs of [] \<Rightarrow> None | x # _ \<Rightarrow> Some x)"
  by (induction xs) auto

lemma curate_unbound:
  "curate w accession sequence prof strain None boundary_df lookup_df =
     (if strip sequence = [] then Inl ZeroDivisionError else Inl (UnboundLocalError ''identity''))"
  by (simp add: curate_def get_n_content_def get_ambig_content_def get_length_def MolSeq_init_def)

lemma find_first:
  "(\<forall>x\<in>set pre. \<not> P x) \<Longrightarrow> P y \<Longrightarrow> find P (pre @ y # post) = Some y"
  by (induction pre) auto

lemma find_none: "(\<forall>x\<in>set xs. \<not> P x) \<Longrightarrow> find P xs = None"
  by (induction xs) auto

subsection \<open>The methods in terms of their loop bodies\<close>

lemma deletion_region_flags_unfold:
  "deletion_region_flags m lookup_df pos reg =
     (if region_dels_q m pos reg = [] then Inl IndexError
      else if terminal_subrun m pos reg then Inr []
      else if region_dels_p m pos reg = [] then Inl IndexError
      else Inr (deletion_region_emits m lookup_df pos reg))"
proof (cases "region_dels_q m pos reg = []")
  case True
  then show ?thesis by (simp add: deletion_region_flags_def Let_def)
next
  case q: False
  show ?thesis
  proof (cases "terminal_subrun m pos reg")
    case True
    with q show ?thesis by (simp add: deletion_region_flags_def Let_def terminal_subrun_def)
  next
    case t: False
    show ?thesis
    proof (cases "region_dels_p m pos reg = []")
      case True
      with q t show ?thesis by (simp add: deletion_region_flags_def Let_def terminal_subrun_def)
    next
      case p: False
      from t have t': "hd (region_dels_q m pos reg) \<noteq> 0"
        "hd (region_dels_q m pos reg) \<noteq> int (length (query_seq m)) - int (length (nkdp m))"
        by (simp_all add: terminal_subrun_def)
      consider (cts5) "Region reg = ''CTS5''" | (cts3) "Region reg = ''CTS3''"
        | (ncr5) "Region reg = ''NCR5''" | (ncr3) "Region reg = ''NCR3''"
        | (cds) "Region reg = ''CDS''"
        | (other) "Region reg \<noteq> ''CTS5''" "Region reg \<noteq> ''CTS3''" "Region reg \<noteq> ''NCR5''"
            "Region reg \<noteq> ''NCR3''" "Region reg \<noteq> ''CDS''"
        by blast
      then show ?thesis
      proof cases
        case cts5
        with q t t' p show ?thesis
          by (simp add: deletion_region_flags_def Let_def deletion_region_emits_def
              deletion_kind_def whitelist_checked_def deletion_flag_tuple_def)
      next
        case cts3
        with q t t' p show ?thesis
          by (simp add: deletion_region_flags_def Let_def deletion_region_emits_def
              deletion_kind_def whitelist_checked_def deletion_flag_tuple_def)
      next
        case ncr5
        with q t t' p show ?thesis
          by (simp add: deletion_region_flags_def Let_def deletion_region_emits_def
              deletion_kind_def whitelist_checked_def deletion_flag_tuple_def)
      next
        case ncr3
        with q t t' p show ?thesis
          by (simp add: deletion_region_flags_def Let_def deletion_region_emits_def
              deletion_kind_def whitelist_checked_def deletion_flag_tuple_def)
      next
        case cds
        with q t t' p show ?thesis
          by (simp add: deletion_region_flags_def Let_def deletion_region_emits_def
              deletion_kind_def whitelist_checked_def deletion_flag_tuple_def)
      next
        case other
        with q t t' p show ?thesis
          by (simp add: deletion_region_flags_def Let_def deletion_region_emits_def
              deletion_kind_def)
      qed
    qed
  qed
qed

lemma collect_Inr_concat:
  assumes "collect f xs = Inr zs" and "\<And>x ys. x \<in> set xs \<Longrightarrow> f x = Inr ys \<Longrightarrow> ys = g x"
  shows "zs = concat (map g xs)"
  using assms
proof (induction xs arbitrary: zs)
  case Nil
  then show ?case by simp
next
  case (Cons x xs)
  from Cons.prems(1) obtain ys ws where fx: "f x = Inr ys" and c: "collect f xs = Inr ws"
    and zs: "zs = ys @ ws"
    by (auto split: sum.splits)
  from Cons.prems(2) [of x ys] fx have "ys = g x" by simp
  moreover from Cons.IH [OF c] Cons.prems(2) have "ws = concat (map g xs)" by simp
  ultimately show ?case by (simp add: zs)
qed

lemma deletion_flags_eq:
  assumes "deletion_flags m boundary_df lookup_df = Inr fs"
  shows "fs = concat (map (\<lambda>pos. concat (map (deletion_region_emits m lookup_df pos)
                                         (overlapping_regions m boundary_df pos)))
                        (del_groups m))"
  using assms unfolding deletion_flags_def
proof (rule collect_Inr_concat)
  fix pos ys assume "deletion_run_flags m boundary_df lookup_df pos = Inr ys"
  then have c: "collect (deletion_region_flags m lookup_df pos)
      (overlapping_regions m boundary_df pos) = Inr ys"
    by (auto simp: deletion_run_flags_def split: if_splits)
  show "ys = concat (map (deletion_region_emits m lookup_df pos)
                      (overlapping_regions m boundary_df pos))"
    using c
  proof (rule collect_Inr_concat)
    fix reg zs assume "deletion_region_flags m lookup_df pos reg = Inr zs"
    then show "zs = deletion_region_emits m lookup_df pos reg"
      by (cases "terminal_subrun m pos reg")
        (auto simp: deletion_region_flags_unfold deletion_region_emits_def split: if_splits)
  qed
qed


lemma Flag_deletion_flag_tuple [simp]: "Flag (deletion_flag_tuple m pos reg k) = k"
  by (simp add: deletion_flag_tuple_def)

lemma deletion_region_emits_filter:
  "deletion_region_emits m lookup_df pos reg =
     [f \<leftarrow> deletion_region_emits m [] pos reg.
        \<not> (whitelist_checked (Flag f)
           \<and> (\<exists>row\<in>set lookup_df. lk_Flag row = Flag f
                  \<and> lk_Start row \<le> hd (region_dels_p m pos reg)
                  \<and> lk_End row \<ge> last (region_dels_p m pos reg)))]"
proof (cases "terminal_subrun m pos reg")
  case True
  then show ?thesis by (simp add: deletion_region_emits_def)
next
  case t: False
  show ?thesis
  proof (cases "deletion_kind (Region reg) pos")
    case None
    with t show ?thesis by (simp add: deletion_region_emits_def)
  next
    case (Some k)
    have n: "check_lookup [] k s e = ''FAIL''" for s e by (simp add: check_lookup_def)
    show ?thesis
    proof (cases "\<exists>row\<in>set lookup_df. lk_Flag row = k
                  \<and> lk_Start row \<le> hd (region_dels_p m pos reg)
                  \<and> lk_End row \<ge> last (region_dels_p m pos reg)")
      case True
      with t Some show ?thesis
        by (auto simp: deletion_region_emits_def n check_lookup_iff)
    next
      case False
      with t Some show ?thesis
        by (auto simp: deletion_region_emits_def n check_lookup_iff)
    qed
  qed
qed




lemma deletion_region_emits_kept:
  assumes "\<not> terminal_subrun m pos reg" and "deletion_kind (Region reg) pos = Some k"
    and "\<not> whitelist_checked k \<or> check_lookup lookup_df k (hd (region_dels_p m pos reg))
            (last (region_dels_p m pos reg)) = ''FAIL''"
  shows "deletion_region_emits m lookup_df pos reg = [deletion_flag_tuple m pos reg k]"
  using assms by (auto simp: deletion_region_emits_def)


lemma deletion_flags_region:
  assumes fs: "deletion_flags m boundary_df lookup_df = Inr fs" and pos: "pos \<in> set (del_groups m)"
    and reg: "reg \<in> set (overlapping_regions m boundary_df pos)"
  shows "pos \<noteq> []" and "region_dels_q m pos reg \<noteq> []"
    and "\<not> terminal_subrun m pos reg \<Longrightarrow> region_dels_p m pos reg \<noteq> []"
    and "set (deletion_region_emits m lookup_df pos reg) \<subseteq> set fs"
proof -
  from collect_Inr_all [OF fs [unfolded deletion_flags_def] pos] obtain ys where
    ys: "deletion_run_flags m boundary_df lookup_df pos = Inr ys" ..
  then show ne: "pos \<noteq> []" by (auto simp: deletion_run_flags_def split: if_splits)
  with ys have c: "collect (deletion_region_flags m lookup_df pos)
      (overlapping_regions m boundary_df pos) = Inr ys"
    by (simp add: deletion_run_flags_def)
  from collect_Inr_all [OF c reg] obtain zs where
    zs: "deletion_region_flags m lookup_df pos reg = Inr zs" ..
  from zs show q: "region_dels_q m pos reg \<noteq> []"
    by (auto simp: deletion_region_flags_unfold split: if_splits)
  from zs q show "region_dels_p m pos reg \<noteq> []" if "\<not> terminal_subrun m pos reg"
    using that by (auto simp: deletion_region_flags_unfold split: if_splits)
  from zs have e: "zs = deletion_region_emits m lookup_df pos reg"
    by (cases "terminal_subrun m pos reg")
       (auto simp: deletion_region_flags_unfold deletion_region_emits_def split: if_splits)
  have "set zs \<subseteq> set ys" using collect_Inr_iff [OF c] reg zs by blast
  moreover have "set ys \<subseteq> set fs"
    using collect_Inr_iff [OF fs [unfolded deletion_flags_def]] pos ys by blast
  ultimately show "set (deletion_region_emits m lookup_df pos reg) \<subseteq> set fs"
    unfolding e by blast
qed

lemma Length_deletion_flag_tuple [simp]:
  "Length (deletion_flag_tuple m pos reg k) = int (length (region_dels_p m pos reg))"
  by (simp add: deletion_flag_tuple_def)

lemma insertion_flag_tuple_sel [simp]:
  "Flag (insertion_flag_tuple m pos k) = k"
  "Length (insertion_flag_tuple m pos k) = int (length pos)"
  by (simp_all add: insertion_flag_tuple_def)

lemma insertion_run_flags_CDS:
  assumes "pos \<noteq> []" and "classified_CDS m boundary_df pos"
  shows "insertion_run_flags m boundary_df (End (boundary_df ! 4)) pos =
     Inr [insertion_flag_tuple m pos
            (if int (length pos) mod 3 = 0 then ''CDS-3Xins'' else ''CDS-ins'')]"
  using assms
  by (simp add: insertion_run_flags_def Let_def classified_CDS_def insertion_region_def
      profile_ins_def insertion_flag_tuple_def)

lemma insertion_run_flags_CDS_member:
  assumes "insertion_run_flags m boundary_df (End (boundary_df ! 4)) pos = Inr fs" and "f \<in> set fs"
    and "Flag f = ''CDS-3Xins'' \<or> Flag f = ''CDS-ins''"
  shows "classified_CDS m boundary_df pos" and "f = insertion_flag_tuple m pos (Flag f)"
  using assms
  by (auto simp: insertion_run_flags_def Let_def classified_CDS_def insertion_region_def
      profile_ins_def insertion_flag_tuple_def split: if_splits)

lemma insertion_flags_run:
  assumes gs: "insertion_flags m boundary_df = Inr gs" and pos: "pos \<in> set (ins_groups m)"
  shows "pos \<noteq> []"
    and "\<And>ys. insertion_run_flags m boundary_df (End (boundary_df ! 4)) pos = Inr ys
           \<Longrightarrow> set ys \<subseteq> set gs"
proof -
  from gs have c: "collect (insertion_run_flags m boundary_df (End (boundary_df ! 4)))
      (ins_groups m) = Inr gs"
    by (auto simp: insertion_flags_def split: if_splits)
  from collect_Inr_all [OF c pos] show "pos \<noteq> []"
    by (auto simp: insertion_run_flags_def)
  show "set ys \<subseteq> set gs"
    if "insertion_run_flags m boundary_df (End (boundary_df ! 4)) pos = Inr ys" for ys
    using collect_Inr_iff [OF c] pos that by blast
qed

text \<open>
  Claim C4. For every alignment the constructor accepts, with \<open>D\<close> the gap columns of the
  query (the last row), \<open>X\<close> the columns where every profile row has a gap and \<open>U\<close> the
  columns where some profile row has a gap: the insertion columns are \<open>I = X - D\<close>, the
  accepted columns are \<open>A = U - I\<close>, and so \<open>I\<close> is disjoint from \<open>D\<close> and \<open>A\<close> from \<open>I\<close>.
\<close>

theorem column_sets_of_alignment:
  assumes "InDelSubs_init sequences = Inr m"
  shows "set (nkdp m) = set (dash_positions (last sequences))
       \<and> set (nkip m) = (\<Inter>s\<in>set (butlast sequences). set (dash_positions s)) - set (nkdp m)
       \<and> set (nkadp m) = (\<Union>s\<in>set (butlast sequences). set (dash_positions s)) - set (nkip m)
       \<and> set (nkip m) \<inter> set (nkdp m) = {}
       \<and> set (nkadp m) \<inter> set (nkip m) = {}"
proof -
  note s = InDelSubs_init_sets [OF assms]
  have d: "set (nkdp m) = set (dash_positions (last sequences))"
    by (simp add: InDelSubs_init_fields(5) [OF assms])
  have i: "set (nkip m) \<inter> set (nkdp m) = {}" unfolding s(1) by blast
  have a: "set (nkadp m) \<inter> set (nkip m) = {}" unfolding s(2) by blast
  from d s i a show ?thesis by blast
qed

theorem column_sets_of_alignment_witness:
  "InDelSubs_init [''AC--GT-A'', ''A-C-GT-A'', ''ACG--TTA'']
     = Inr \<lparr> nkdp = [3, 4], nkip = [6], nkadp = [2, 3, 1], query_seq = ''ACG--TTA'',
             profile_seqs = [''AC--GT-A'', ''A-C-GT-A''], del_groups = [[4]],
             ins_groups = [[6]] \<rparr>
   \<and> set [6 :: int] \<inter> set [3, 4] = {}
   \<and> set [2, 3, 1 :: int] \<inter> set [6] = {}"
proof -
  have h: "InDelSubs_init [''AC--GT-A'', ''A-C-GT-A'', ''ACG--TTA'']
     = Inr \<lparr> nkdp = [3, 4], nkip = [6], nkadp = [2, 3, 1], query_seq = ''ACG--TTA'',
             profile_seqs = [''AC--GT-A'', ''A-C-GT-A''], del_groups = [[4]],
             ins_groups = [[6]] \<rparr>"
    by code_simp
  have "set (nkip \<lparr> nkdp = [3, 4], nkip = [6], nkadp = [2, 3, 1], query_seq = ''ACG--TTA'',
             profile_seqs = [''AC--GT-A'', ''A-C-GT-A''], del_groups = [[4]],
             ins_groups = [[6]] \<rparr>) \<inter> set (nkdp \<lparr> nkdp = [3, 4], nkip = [6], nkadp = [2, 3, 1], query_seq = ''ACG--TTA'',
             profile_seqs = [''AC--GT-A'', ''A-C-GT-A''], del_groups = [[4]],
             ins_groups = [[6]] \<rparr>) = {}
     \<and> set (nkadp \<lparr> nkdp = [3, 4], nkip = [6], nkadp = [2, 3, 1], query_seq = ''ACG--TTA'',
             profile_seqs = [''AC--GT-A'', ''A-C-GT-A''], del_groups = [[4]],
             ins_groups = [[6]] \<rparr>) \<inter> set (nkip \<lparr> nkdp = [3, 4], nkip = [6], nkadp = [2, 3, 1], query_seq = ''ACG--TTA'',
             profile_seqs = [''AC--GT-A'', ''A-C-GT-A''], del_groups = [[4]],
             ins_groups = [[6]] \<rparr>) = {}"
    using column_sets_of_alignment [OF h] by blast
  then have "set [6 :: int] \<inter> set [3, 4] = {} \<and> set [2, 3, 1 :: int] \<inter> set [6] = {}"
    by (simp only: indelsubs.simps)
  with h show ?thesis by blast
qed

text \<open>
  Claim C5. For the insertion columns \<open>I\<close> of any alignment and every column \<open>c\<close> outside
  \<open>I\<close>: the profile position of \<open>c\<close> is \<open>c - |{j \<in> I. j < c}| + 1\<close>, the map is injective on the
  columns outside \<open>I\<close>, and the column of a profile position, as \<open>start_q\<close> computes it, takes
  the profile position of \<open>c\<close> back to \<open>c\<close>. The query position of a column outside the query
  gap columns \<open>D\<close> is the same expression over \<open>D\<close>, so the same holds for it.
\<close>

theorem column_position_round_trip:
  assumes "InDelSubs_init sequences = Inr m"
  shows "(\<forall>c. c \<notin> set (nkip m) \<longrightarrow>
            col_to_prof (nkip m) c = c - int (card {j \<in> set (nkip m). j < c}) + 1
          \<and> prof_to_col (nkip m) (col_to_prof (nkip m) c) = c)
       \<and> inj_on (col_to_prof (nkip m)) (- set (nkip m))
       \<and> (\<forall>c. c \<notin> set (nkdp m) \<longrightarrow>
            col_to_qry (nkdp m) c = c - int (card {j \<in> set (nkdp m). j < c}) + 1
          \<and> prof_to_col (nkdp m) (col_to_qry (nkdp m) c) = c)
       \<and> inj_on (col_to_qry (nkdp m)) (- set (nkdp m))"
proof -
  note d = InDelSubs_init_distinct [OF assms]
  have q: "col_to_qry = col_to_prof"
    by (intro ext) (simp add: col_to_qry_def col_to_prof_def)
  have card: "col_to_prof I c = c - int (card {j \<in> set I. j < c}) + 1" if "distinct I" for I c
  proof -
    have "{j. j < c} \<inter> set I = {j \<in> set I. j < c}" by blast
    then show ?thesis
      by (simp add: col_to_prof_def distinct_length_filter [OF that])
  qed
  show ?thesis
    unfolding q
    using card [OF d(1)] card [OF d(2)] prof_to_col_col_to_prof [OF d(1)]
      prof_to_col_col_to_prof [OF d(2)] col_to_prof_inj [OF d(1)] col_to_prof_inj [OF d(2)]
    by simp
qed

theorem column_position_round_trip_witness:
  "InDelSubs_init [''AC--GT-A'', ''A-C-GT-A'', ''ACG--TTA'']
     = Inr \<lparr> nkdp = [3, 4], nkip = [6], nkadp = [2, 3, 1], query_seq = ''ACG--TTA'',
             profile_seqs = [''AC--GT-A'', ''A-C-GT-A''], del_groups = [[4]],
             ins_groups = [[6]] \<rparr>
   \<and> col_to_prof [6] 7 = 7 \<and> prof_to_col [6] (col_to_prof [6] 7) = 7
   \<and> col_to_qry [3, 4] 5 = 4 \<and> prof_to_col [3, 4] (col_to_qry [3, 4] 5) = 5"
proof -
  have h: "InDelSubs_init [''AC--GT-A'', ''A-C-GT-A'', ''ACG--TTA'']
     = Inr \<lparr> nkdp = [3, 4], nkip = [6], nkadp = [2, 3, 1], query_seq = ''ACG--TTA'',
             profile_seqs = [''AC--GT-A'', ''A-C-GT-A''], del_groups = [[4]],
             ins_groups = [[6]] \<rparr>"
    by code_simp
  have i: "(7 :: int) \<notin> set [6]" and d: "(5 :: int) \<notin> set [3, 4]" by simp_all
  have r: "(\<forall>c. c \<notin> set [6] \<longrightarrow>
            col_to_prof [6] c = c - int (card {j \<in> set [6]. j < c}) + 1
          \<and> prof_to_col [6] (col_to_prof [6] c) = c)
       \<and> inj_on (col_to_prof [6]) (- set [6])
       \<and> (\<forall>c. c \<notin> set [3, 4] \<longrightarrow>
            col_to_qry [3, 4] c = c - int (card {j \<in> set [3, 4]. j < c}) + 1
          \<and> prof_to_col [3, 4] (col_to_qry [3, 4] c) = c)
       \<and> inj_on (col_to_qry [3, 4]) (- set [3, 4])"
    by (rule column_position_round_trip [OF h, unfolded indelsubs.select_convs])
  from r i have "prof_to_col [6] (col_to_prof [6] 7) = 7" by blast
  moreover from r d have "prof_to_col [3, 4] (col_to_qry [3, 4] 5) = 5" by blast
  moreover have "col_to_prof [6] 7 = 7" and "col_to_qry [3, 4] 5 = 4"
    by (simp_all add: col_to_prof_def col_to_qry_def)
  ultimately show ?thesis using h by blast
qed

text \<open>
  Claim C10, as the code has it. For every alignment the constructor accepts, every deletion
  run and every row of \<open>boundary_df\<close> that passes the overlap test, \<open>region_dels_q\<close> is not
  empty, so \<open>region_dels_q[0]\<close> is in bounds. \<open>deletion_flags\<close> returns a list of flags
  whenever no row of \<open>boundary_df\<close> has its \<open>Start\<close> above its \<open>End\<close>.
\<close>

theorem region_dels_q_in_bounds:
  assumes "InDelSubs_init sequences = Inr m"
  shows "(\<forall>pos\<in>set (del_groups m). \<forall>reg\<in>set (overlapping_regions m boundary_df pos).
            region_dels_q m pos reg \<noteq> [])
       \<and> ((\<forall>r\<in>set boundary_df. Start r \<le> End r) \<longrightarrow>
            (\<exists>flags. deletion_flags m boundary_df lookup_df = Inr flags))"
proof -
  note d = InDelSubs_init_distinct [OF assms]
  have q: "region_dels_q m pos reg \<noteq> []"
    if "pos \<in> set (del_groups m)" and "reg \<in> set (overlapping_regions m boundary_df pos)"
    for pos reg
  proof -
    note g = InDelSubs_init_del_groups [OF assms that(1)]
    from that(2) have r: "Start reg \<le> last (map (col_to_prof (nkip m)) pos)"
      "End reg \<ge> hd (map (col_to_prof (nkip m)) pos)"
      by (simp_all add: overlapping_regions_iff)
    show ?thesis by (rule region_dels_q_nonempty [OF d(2,1,3) g(1,2,3) r])
  qed
  have total: "\<exists>flags. deletion_flags m boundary_df lookup_df = Inr flags"
    if ok: "\<forall>r\<in>set boundary_df. Start r \<le> End r"
    unfolding deletion_flags_def
  proof (rule collect_total)
    fix pos assume pos: "pos \<in> set (del_groups m)"
    note g = InDelSubs_init_del_groups [OF assms pos]
    have "\<exists>zs. collect (deletion_region_flags m lookup_df pos)
                  (overlapping_regions m boundary_df pos) = Inr zs"
    proof (rule collect_total)
      fix reg assume reg: "reg \<in> set (overlapping_regions m boundary_df pos)"
      then have r: "Start reg \<le> last (map (col_to_prof (nkip m)) pos)"
        "End reg \<ge> hd (map (col_to_prof (nkip m)) pos)" and b: "reg \<in> set boundary_df"
        by (simp_all add: overlapping_regions_iff)
      from ok b have ne: "Start reg \<le> End reg" by blast
      have p: "region_dels_p m pos reg \<noteq> []"
        by (rule region_dels_p_nonempty [OF d(2,3) g(1,2,3) r ne])
      show "\<exists>ys. deletion_region_flags m lookup_df pos reg = Inr ys"
        by (rule deletion_region_flags_total [OF q [OF pos reg] p])
    qed
    with g(1) show "\<exists>ys. deletion_run_flags m boundary_df lookup_df pos = Inr ys"
      by (simp add: deletion_run_flags_def)
  qed
  from q total show ?thesis by blast
qed

theorem region_dels_q_in_bounds_witness:
  "InDelSubs_init [''ACGTACGTAC'', ''ACG---GTAC'']
     = Inr \<lparr> nkdp = [3, 4, 5], nkip = [], nkadp = [], query_seq = ''ACG---GTAC'',
             profile_seqs = [''ACGTACGTAC''], del_groups = [[3, 4, 5]], ins_groups = [] \<rparr>
   \<and> region_dels_q \<lparr> nkdp = [3, 4, 5], nkip = [], nkadp = [], query_seq = ''ACG---GTAC'',
             profile_seqs = [''ACGTACGTAC''], del_groups = [[3, 4, 5]], ins_groups = [] \<rparr>
        [3, 4, 5] \<lparr> Region = ''CDS'', Start = 5, End = 7 \<rparr> \<noteq> []
   \<and> (\<exists>flags. deletion_flags \<lparr> nkdp = [3, 4, 5], nkip = [], nkadp = [], query_seq = ''ACG---GTAC'',
             profile_seqs = [''ACGTACGTAC''], del_groups = [[3, 4, 5]], ins_groups = [] \<rparr>
        [\<lparr> Region = ''CTS5'', Start = 1, End = 2 \<rparr>, \<lparr> Region = ''NCR5'', Start = 3, End = 4 \<rparr>,
         \<lparr> Region = ''CDS'', Start = 5, End = 7 \<rparr>, \<lparr> Region = ''NCR3'', Start = 8, End = 8 \<rparr>,
         \<lparr> Region = ''CTS3'', Start = 9, End = 10 \<rparr>] [] = Inr flags)"
proof -
  let ?m = "\<lparr> nkdp = [3, 4, 5], nkip = [], nkadp = [], query_seq = ''ACG---GTAC'',
             profile_seqs = [''ACGTACGTAC''], del_groups = [[3, 4, 5]], ins_groups = [] \<rparr>"
  let ?b = "[\<lparr> Region = ''CTS5'', Start = 1, End = 2 \<rparr>, \<lparr> Region = ''NCR5'', Start = 3, End = 4 \<rparr>,
         \<lparr> Region = ''CDS'', Start = 5, End = 7 \<rparr>, \<lparr> Region = ''NCR3'', Start = 8, End = 8 \<rparr>,
         \<lparr> Region = ''CTS3'', Start = 9, End = 10 \<rparr>]"
  have h: "InDelSubs_init [''ACGTACGTAC'', ''ACG---GTAC''] = Inr ?m"
    by code_simp
  have p: "[3, 4, 5] \<in> set (del_groups ?m)" by simp
  have r: "\<lparr> Region = ''CDS'', Start = 5, End = 7 \<rparr> \<in> set (overlapping_regions ?m ?b [3, 4, 5])"
    by (simp add: overlapping_regions_def col_to_prof_def)
  have ok: "\<forall>r\<in>set ?b. Start r \<le> End r" by simp
  from region_dels_q_in_bounds [OF h, of ?b "[]"] p r ok h show ?thesis by blast
qed

text \<open>
  A boundary line with \<open>ATG = CTS5 + 1\<close> gives the row \<open>NCR5\<close> the bounds \<open>[4, 3]\<close>. A deletion
  run over the profile positions 3 and 4 passes the overlap test of that row, nothing of
  the run lies inside it, and \<open>region_dels_p[0]\<close> raises.
\<close>

theorem deletion_flags_total_counterexample:
  "InDelSubs_init [''ACGTACGTAC'', ''AC--ACGTAC'']
     = Inr \<lparr> nkdp = [2, 3], nkip = [], nkadp = [], query_seq = ''AC--ACGTAC'',
             profile_seqs = [''ACGTACGTAC''], del_groups = [[2, 3]], ins_groups = [] \<rparr>
   \<and> deletion_flags \<lparr> nkdp = [2, 3], nkip = [], nkadp = [], query_seq = ''AC--ACGTAC'',
             profile_seqs = [''ACGTACGTAC''], del_groups = [[2, 3]], ins_groups = [] \<rparr>
        [\<lparr> Region = ''CTS5'', Start = 1, End = 3 \<rparr>, \<lparr> Region = ''NCR5'', Start = 4, End = 3 \<rparr>,
         \<lparr> Region = ''CDS'', Start = 4, End = 7 \<rparr>, \<lparr> Region = ''NCR3'', Start = 8, End = 8 \<rparr>,
         \<lparr> Region = ''CTS3'', Start = 9, End = 10 \<rparr>] unlisted_lookup = Inl IndexError"
  by code_simp

text \<open>
  Claim C1, as the code has it. A deletion run that reaches the branch of the row \<open>CDS\<close>
  (it passes the overlap test of the row and the terminal test does not skip it) and that
  the lookup table does not accept yields \<open>CDS-3Xdel\<close> if the length of the whole run is a
  positive multiple of 3, and \<open>CDS-del\<close> otherwise; an insertion run classified in the row
  \<open>CDS\<close> yields \<open>CDS-3Xins\<close> if its length is a positive multiple of 3, and \<open>CDS-ins\<close>
  otherwise: the body of the loop appends that flag and no other, and the flag is in the
  list \<open>deletion_flags\<close> (or \<open>insertion_flags\<close>) returns, whenever it returns. Conversely
  every flag of these four kinds comes from such a run, and is the
  \<open>3X\<close> one if and only if the length of its run is a positive multiple of 3. The \<open>Length\<close>
  of an insertion flag is the length of its run. The \<open>Length\<close> of a deletion flag is the
  number of positions of the run inside the region: positive, and equal to the length of
  the run when the run lies inside the region.
\<close>

theorem frame_of_CDS_flags:
  "(region_dels_q m dpos dreg \<noteq> [] \<and> region_dels_p m dpos dreg \<noteq> []
      \<and> Region dreg = ''CDS'' \<and> \<not> terminal_subrun m dpos dreg
      \<and> check_lookup lookup_df
            (if int (length dpos) mod 3 = 0 then ''CDS-3Xdel'' else ''CDS-del'')
            (hd (region_dels_p m dpos dreg)) (last (region_dels_p m dpos dreg)) = ''FAIL''
    \<longrightarrow> deletion_region_flags m lookup_df dpos dreg
        = Inr [deletion_flag_tuple m dpos dreg
                 (if int (length dpos) mod 3 = 0 then ''CDS-3Xdel'' else ''CDS-del'')])
   \<and> (ipos \<noteq> [] \<and> classified_CDS m boundary_df ipos
    \<longrightarrow> insertion_run_flags m boundary_df (End (boundary_df ! 4)) ipos
        = Inr [insertion_flag_tuple m ipos
                 (if int (length ipos) mod 3 = 0 then ''CDS-3Xins'' else ''CDS-ins'')])
   \<and> (deletion_flags m boundary_df lookup_df = Inr fs \<longrightarrow>
      (\<forall>pos\<in>set (del_groups m). \<forall>reg\<in>set (overlapping_regions m boundary_df pos).
         Region reg = ''CDS'' \<and> \<not> terminal_subrun m pos reg \<longrightarrow>
           0 < length pos \<and> 0 < length (region_dels_p m pos reg)
         \<and> (int (length pos) mod 3 = 0
              \<and> check_lookup lookup_df ''CDS-3Xdel'' (hd (region_dels_p m pos reg))
                   (last (region_dels_p m pos reg)) = ''FAIL''
            \<longrightarrow> deletion_region_flags m lookup_df pos reg
                   = Inr [deletion_flag_tuple m pos reg ''CDS-3Xdel'']
               \<and> deletion_flag_tuple m pos reg ''CDS-3Xdel'' \<in> set fs)
         \<and> (int (length pos) mod 3 \<noteq> 0
              \<and> check_lookup lookup_df ''CDS-del'' (hd (region_dels_p m pos reg))
                   (last (region_dels_p m pos reg)) = ''FAIL''
            \<longrightarrow> deletion_region_flags m lookup_df pos reg
                   = Inr [deletion_flag_tuple m pos reg ''CDS-del'']
               \<and> deletion_flag_tuple m pos reg ''CDS-del'' \<in> set fs))
    \<and> (\<forall>f\<in>set fs. Flag f = ''CDS-3Xdel'' \<or> Flag f = ''CDS-del'' \<longrightarrow>
         (\<exists>pos\<in>set (del_groups m). \<exists>reg\<in>set boundary_df. \<exists>zs.
            deletion_region_flags m lookup_df pos reg = Inr zs \<and> f \<in> set zs
          \<and> Region reg = ''CDS'' \<and> 0 < length pos
          \<and> (Flag f = ''CDS-3Xdel'' \<longleftrightarrow> int (length pos) mod 3 = 0)
          \<and> (Flag f = ''CDS-del'' \<longleftrightarrow> int (length pos) mod 3 \<noteq> 0)
          \<and> Length f = int (length (region_dels_p m pos reg)) \<and> 0 < Length f
          \<and> ((\<forall>c\<in>set pos. Start reg \<le> col_to_prof (nkip m) c \<and> col_to_prof (nkip m) c \<le> End reg)
               \<longrightarrow> Length f = int (length pos)))))
   \<and> (insertion_flags m boundary_df = Inr gs \<longrightarrow>
      (\<forall>pos\<in>set (ins_groups m). classified_CDS m boundary_df pos \<longrightarrow>
           0 < length pos
         \<and> (int (length pos) mod 3 = 0
            \<longrightarrow> insertion_run_flags m boundary_df (End (boundary_df ! 4)) pos
                   = Inr [insertion_flag_tuple m pos ''CDS-3Xins'']
               \<and> insertion_flag_tuple m pos ''CDS-3Xins'' \<in> set gs)
         \<and> (int (length pos) mod 3 \<noteq> 0
            \<longrightarrow> insertion_run_flags m boundary_df (End (boundary_df ! 4)) pos
                   = Inr [insertion_flag_tuple m pos ''CDS-ins'']
               \<and> insertion_flag_tuple m pos ''CDS-ins'' \<in> set gs))
    \<and> (\<forall>f\<in>set gs. Flag f = ''CDS-3Xins'' \<or> Flag f = ''CDS-ins'' \<longrightarrow>
         (\<exists>pos\<in>set (ins_groups m). \<exists>zs.
            insertion_run_flags m boundary_df (End (boundary_df ! 4)) pos = Inr zs \<and> f \<in> set zs
          \<and> classified_CDS m boundary_df pos
          \<and> Length f = int (length pos) \<and> 0 < Length f
          \<and> (Flag f = ''CDS-3Xins'' \<longleftrightarrow> Length f mod 3 = 0)
          \<and> (Flag f = ''CDS-ins'' \<longleftrightarrow> Length f mod 3 \<noteq> 0))))"
proof -
  have A: "(region_dels_q m dpos dreg \<noteq> [] \<and> region_dels_p m dpos dreg \<noteq> []
      \<and> Region dreg = ''CDS'' \<and> \<not> terminal_subrun m dpos dreg
      \<and> check_lookup lookup_df
            (if int (length dpos) mod 3 = 0 then ''CDS-3Xdel'' else ''CDS-del'')
            (hd (region_dels_p m dpos dreg)) (last (region_dels_p m dpos dreg)) = ''FAIL''
    \<longrightarrow> deletion_region_flags m lookup_df dpos dreg
        = Inr [deletion_flag_tuple m dpos dreg
                 (if int (length dpos) mod 3 = 0 then ''CDS-3Xdel'' else ''CDS-del'')])"
  proof
    assume a: "region_dels_q m dpos dreg \<noteq> [] \<and> region_dels_p m dpos dreg \<noteq> []
      \<and> Region dreg = ''CDS'' \<and> \<not> terminal_subrun m dpos dreg
      \<and> check_lookup lookup_df
            (if int (length dpos) mod 3 = 0 then ''CDS-3Xdel'' else ''CDS-del'')
            (hd (region_dels_p m dpos dreg)) (last (region_dels_p m dpos dreg)) = ''FAIL''"
    then have q: "region_dels_q m dpos dreg \<noteq> []" and p: "region_dels_p m dpos dreg \<noteq> []"
      and cds: "Region dreg = ''CDS''" and t: "\<not> terminal_subrun m dpos dreg"
      by blast+
    from cds have k: "deletion_kind (Region dreg) dpos
        = Some (if int (length dpos) mod 3 = 0 then ''CDS-3Xdel'' else ''CDS-del'')"
      by (simp add: deletion_kind_def)
    from a have "\<not> whitelist_checked
          (if int (length dpos) mod 3 = 0 then ''CDS-3Xdel'' else ''CDS-del'')
       \<or> check_lookup lookup_df
            (if int (length dpos) mod 3 = 0 then ''CDS-3Xdel'' else ''CDS-del'')
            (hd (region_dels_p m dpos dreg)) (last (region_dels_p m dpos dreg)) = ''FAIL''"
      by blast
    note e = deletion_region_emits_kept [OF t k this]
    from q t p show "deletion_region_flags m lookup_df dpos dreg
        = Inr [deletion_flag_tuple m dpos dreg
                 (if int (length dpos) mod 3 = 0 then ''CDS-3Xdel'' else ''CDS-del'')]"
      unfolding deletion_region_flags_unfold e by simp
  qed
  have B: "(ipos \<noteq> [] \<and> classified_CDS m boundary_df ipos
    \<longrightarrow> insertion_run_flags m boundary_df (End (boundary_df ! 4)) ipos
        = Inr [insertion_flag_tuple m ipos
                 (if int (length ipos) mod 3 = 0 then ''CDS-3Xins'' else ''CDS-ins'')])"
    using insertion_run_flags_CDS [of ipos m boundary_df] by blast
  have DI: "(deletion_flags m boundary_df lookup_df = Inr fs \<longrightarrow>
      (\<forall>pos\<in>set (del_groups m). \<forall>reg\<in>set (overlapping_regions m boundary_df pos).
         Region reg = ''CDS'' \<and> \<not> terminal_subrun m pos reg \<longrightarrow>
           0 < length pos \<and> 0 < length (region_dels_p m pos reg)
         \<and> (int (length pos) mod 3 = 0
              \<and> check_lookup lookup_df ''CDS-3Xdel'' (hd (region_dels_p m pos reg))
                   (last (region_dels_p m pos reg)) = ''FAIL''
            \<longrightarrow> deletion_region_flags m lookup_df pos reg
                   = Inr [deletion_flag_tuple m pos reg ''CDS-3Xdel'']
               \<and> deletion_flag_tuple m pos reg ''CDS-3Xdel'' \<in> set fs)
         \<and> (int (length pos) mod 3 \<noteq> 0
              \<and> check_lookup lookup_df ''CDS-del'' (hd (region_dels_p m pos reg))
                   (last (region_dels_p m pos reg)) = ''FAIL''
            \<longrightarrow> deletion_region_flags m lookup_df pos reg
                   = Inr [deletion_flag_tuple m pos reg ''CDS-del'']
               \<and> deletion_flag_tuple m pos reg ''CDS-del'' \<in> set fs))
    \<and> (\<forall>f\<in>set fs. Flag f = ''CDS-3Xdel'' \<or> Flag f = ''CDS-del'' \<longrightarrow>
         (\<exists>pos\<in>set (del_groups m). \<exists>reg\<in>set boundary_df. \<exists>zs.
            deletion_region_flags m lookup_df pos reg = Inr zs \<and> f \<in> set zs
          \<and> Region reg = ''CDS'' \<and> 0 < length pos
          \<and> (Flag f = ''CDS-3Xdel'' \<longleftrightarrow> int (length pos) mod 3 = 0)
          \<and> (Flag f = ''CDS-del'' \<longleftrightarrow> int (length pos) mod 3 \<noteq> 0)
          \<and> Length f = int (length (region_dels_p m pos reg)) \<and> 0 < Length f
          \<and> ((\<forall>c\<in>set pos. Start reg \<le> col_to_prof (nkip m) c \<and> col_to_prof (nkip m) c \<le> End reg)
               \<longrightarrow> Length f = int (length pos)))))
   \<and> (insertion_flags m boundary_df = Inr gs \<longrightarrow>
      (\<forall>pos\<in>set (ins_groups m). classified_CDS m boundary_df pos \<longrightarrow>
           0 < length pos
         \<and> (int (length pos) mod 3 = 0
            \<longrightarrow> insertion_run_flags m boundary_df (End (boundary_df ! 4)) pos
                   = Inr [insertion_flag_tuple m pos ''CDS-3Xins'']
               \<and> insertion_flag_tuple m pos ''CDS-3Xins'' \<in> set gs)
         \<and> (int (length pos) mod 3 \<noteq> 0
            \<longrightarrow> insertion_run_flags m boundary_df (End (boundary_df ! 4)) pos
                   = Inr [insertion_flag_tuple m pos ''CDS-ins'']
               \<and> insertion_flag_tuple m pos ''CDS-ins'' \<in> set gs))
    \<and> (\<forall>f\<in>set gs. Flag f = ''CDS-3Xins'' \<or> Flag f = ''CDS-ins'' \<longrightarrow>
         (\<exists>pos\<in>set (ins_groups m). \<exists>zs.
            insertion_run_flags m boundary_df (End (boundary_df ! 4)) pos = Inr zs \<and> f \<in> set zs
          \<and> classified_CDS m boundary_df pos
          \<and> Length f = int (length pos) \<and> 0 < Length f
          \<and> (Flag f = ''CDS-3Xins'' \<longleftrightarrow> Length f mod 3 = 0)
          \<and> (Flag f = ''CDS-ins'' \<longleftrightarrow> Length f mod 3 \<noteq> 0))))"
  proof (rule conjI; rule impI; rule conjI)
    assume fs: "deletion_flags m boundary_df lookup_df = Inr fs"
    show "(\<forall>pos\<in>set (del_groups m). \<forall>reg\<in>set (overlapping_regions m boundary_df pos).
           Region reg = ''CDS'' \<and> \<not> terminal_subrun m pos reg \<longrightarrow>
             0 < length pos \<and> 0 < length (region_dels_p m pos reg)
           \<and> (int (length pos) mod 3 = 0
                \<and> check_lookup lookup_df ''CDS-3Xdel'' (hd (region_dels_p m pos reg))
                     (last (region_dels_p m pos reg)) = ''FAIL''
              \<longrightarrow> deletion_region_flags m lookup_df pos reg
                     = Inr [deletion_flag_tuple m pos reg ''CDS-3Xdel'']
                 \<and> deletion_flag_tuple m pos reg ''CDS-3Xdel'' \<in> set fs)
           \<and> (int (length pos) mod 3 \<noteq> 0
                \<and> check_lookup lookup_df ''CDS-del'' (hd (region_dels_p m pos reg))
                     (last (region_dels_p m pos reg)) = ''FAIL''
              \<longrightarrow> deletion_region_flags m lookup_df pos reg
                     = Inr [deletion_flag_tuple m pos reg ''CDS-del'']
                 \<and> deletion_flag_tuple m pos reg ''CDS-del'' \<in> set fs))"
    proof (intro ballI impI)
      fix pos reg
      assume pos: "pos \<in> set (del_groups m)"
        and reg: "reg \<in> set (overlapping_regions m boundary_df pos)"
        and a: "Region reg = ''CDS'' \<and> \<not> terminal_subrun m pos reg"
      note fr = deletion_flags_region [OF fs pos reg]
      from a have cds: "Region reg = ''CDS''" and t: "\<not> terminal_subrun m pos reg" by blast+
      from fr(1) have l: "0 < length pos" by simp
      from fr(3) [OF t] have p: "region_dels_p m pos reg \<noteq> []" .
      then have lp: "0 < length (region_dels_p m pos reg)" by simp
      have y3: "deletion_region_flags m lookup_df pos reg
                     = Inr [deletion_flag_tuple m pos reg ''CDS-3Xdel'']
                 \<and> deletion_flag_tuple m pos reg ''CDS-3Xdel'' \<in> set fs"
        if h: "int (length pos) mod 3 = 0
                \<and> check_lookup lookup_df ''CDS-3Xdel'' (hd (region_dels_p m pos reg))
                     (last (region_dels_p m pos reg)) = ''FAIL''"
      proof -
        from cds h have k: "deletion_kind (Region reg) pos = Some ''CDS-3Xdel''"
          by (simp add: deletion_kind_def)
        from h have "\<not> whitelist_checked ''CDS-3Xdel''
            \<or> check_lookup lookup_df ''CDS-3Xdel'' (hd (region_dels_p m pos reg))
                     (last (region_dels_p m pos reg)) = ''FAIL''" by blast
        note e = deletion_region_emits_kept [OF t k this]
        from fr(2) t p e fr(4) show ?thesis
          by (simp add: deletion_region_flags_unfold)
      qed
      have y1: "deletion_region_flags m lookup_df pos reg
                     = Inr [deletion_flag_tuple m pos reg ''CDS-del'']
                 \<and> deletion_flag_tuple m pos reg ''CDS-del'' \<in> set fs"
        if h: "int (length pos) mod 3 \<noteq> 0
                \<and> check_lookup lookup_df ''CDS-del'' (hd (region_dels_p m pos reg))
                     (last (region_dels_p m pos reg)) = ''FAIL''"
      proof -
        from cds h have k: "deletion_kind (Region reg) pos = Some ''CDS-del''"
          by (simp add: deletion_kind_def)
        from h have "\<not> whitelist_checked ''CDS-del''
            \<or> check_lookup lookup_df ''CDS-del'' (hd (region_dels_p m pos reg))
                     (last (region_dels_p m pos reg)) = ''FAIL''" by blast
        note e = deletion_region_emits_kept [OF t k this]
        from fr(2) t p e fr(4) show ?thesis
          by (simp add: deletion_region_flags_unfold)
      qed
      from l lp y3 y1
      show "0 < length pos \<and> 0 < length (region_dels_p m pos reg)
           \<and> (int (length pos) mod 3 = 0
                \<and> check_lookup lookup_df ''CDS-3Xdel'' (hd (region_dels_p m pos reg))
                     (last (region_dels_p m pos reg)) = ''FAIL''
              \<longrightarrow> deletion_region_flags m lookup_df pos reg
                     = Inr [deletion_flag_tuple m pos reg ''CDS-3Xdel'']
                 \<and> deletion_flag_tuple m pos reg ''CDS-3Xdel'' \<in> set fs)
           \<and> (int (length pos) mod 3 \<noteq> 0
                \<and> check_lookup lookup_df ''CDS-del'' (hd (region_dels_p m pos reg))
                     (last (region_dels_p m pos reg)) = ''FAIL''
              \<longrightarrow> deletion_region_flags m lookup_df pos reg
                     = Inr [deletion_flag_tuple m pos reg ''CDS-del'']
                 \<and> deletion_flag_tuple m pos reg ''CDS-del'' \<in> set fs)"
        by (intro conjI impI) blast+
    qed
  next
    assume fs: "deletion_flags m boundary_df lookup_df = Inr fs"
    show "(\<forall>f\<in>set fs. Flag f = ''CDS-3Xdel'' \<or> Flag f = ''CDS-del'' \<longrightarrow>
           (\<exists>pos\<in>set (del_groups m). \<exists>reg\<in>set boundary_df. \<exists>zs.
              deletion_region_flags m lookup_df pos reg = Inr zs \<and> f \<in> set zs
            \<and> Region reg = ''CDS'' \<and> 0 < length pos
            \<and> (Flag f = ''CDS-3Xdel'' \<longleftrightarrow> int (length pos) mod 3 = 0)
            \<and> (Flag f = ''CDS-del'' \<longleftrightarrow> int (length pos) mod 3 \<noteq> 0)
            \<and> Length f = int (length (region_dels_p m pos reg)) \<and> 0 < Length f
            \<and> ((\<forall>c\<in>set pos. Start reg \<le> col_to_prof (nkip m) c \<and> col_to_prof (nkip m) c \<le> End reg)
                 \<longrightarrow> Length f = int (length pos))))"
    proof (intro ballI impI)
      fix f assume f: "f \<in> set fs"
        and k: "Flag f = ''CDS-3Xdel'' \<or> Flag f = ''CDS-del''"
      from deletion_flags_member [OF fs f] obtain pos reg zs where pos: "pos \<in> set (del_groups m)"
        and reg: "reg \<in> set (overlapping_regions m boundary_df pos)" and ne: "pos \<noteq> []"
        and zs: "deletion_region_flags m lookup_df pos reg = Inr zs" and fz: "f \<in> set zs"
        by blast
      note mem = deletion_region_flags_member [OF zs fz]
      from reg have b: "reg \<in> set boundary_df" by (simp add: overlapping_regions_iff)
      from k mem(4,5) have cds: "Region reg = ''CDS''" by blast
      have inside: "Length f = int (length pos)"
        if "\<forall>c\<in>set pos. Start reg \<le> col_to_prof (nkip m) c \<and> col_to_prof (nkip m) c \<le> End reg"
        using length_region_dels_p_inside [OF that] mem(1) by simp
      from mem(1,2) have lpos: "0 < Length f" by simp
      from k mem(4,5) cds have k3: "Flag f = ''CDS-3Xdel'' \<longleftrightarrow> int (length pos) mod 3 = 0"
        and k1: "Flag f = ''CDS-del'' \<longleftrightarrow> int (length pos) mod 3 \<noteq> 0"
        by simp_all
      from ne have lne: "0 < length pos" by simp
      have "deletion_region_flags m lookup_df pos reg = Inr zs \<and> f \<in> set zs
              \<and> Region reg = ''CDS'' \<and> 0 < length pos
              \<and> (Flag f = ''CDS-3Xdel'' \<longleftrightarrow> int (length pos) mod 3 = 0)
              \<and> (Flag f = ''CDS-del'' \<longleftrightarrow> int (length pos) mod 3 \<noteq> 0)
              \<and> Length f = int (length (region_dels_p m pos reg)) \<and> 0 < Length f
              \<and> ((\<forall>c\<in>set pos. Start reg \<le> col_to_prof (nkip m) c \<and> col_to_prof (nkip m) c \<le> End reg)
                   \<longrightarrow> Length f = int (length pos))"
        using zs fz cds lne k3 k1 mem(1) lpos inside by (intro conjI impI) assumption+
      then show "\<exists>pos\<in>set (del_groups m). \<exists>reg\<in>set boundary_df. \<exists>zs.
                deletion_region_flags m lookup_df pos reg = Inr zs \<and> f \<in> set zs
              \<and> Region reg = ''CDS'' \<and> 0 < length pos
              \<and> (Flag f = ''CDS-3Xdel'' \<longleftrightarrow> int (length pos) mod 3 = 0)
              \<and> (Flag f = ''CDS-del'' \<longleftrightarrow> int (length pos) mod 3 \<noteq> 0)
              \<and> Length f = int (length (region_dels_p m pos reg)) \<and> 0 < Length f
              \<and> ((\<forall>c\<in>set pos. Start reg \<le> col_to_prof (nkip m) c \<and> col_to_prof (nkip m) c \<le> End reg)
                   \<longrightarrow> Length f = int (length pos))"
        using pos b by (intro bexI [of _ pos] bexI [of _ reg] exI [of _ zs])
    qed
  next
    assume gs: "insertion_flags m boundary_df = Inr gs"
    show "(\<forall>pos\<in>set (ins_groups m). classified_CDS m boundary_df pos \<longrightarrow>
             0 < length pos
           \<and> (int (length pos) mod 3 = 0
              \<longrightarrow> insertion_run_flags m boundary_df (End (boundary_df ! 4)) pos
                     = Inr [insertion_flag_tuple m pos ''CDS-3Xins'']
                 \<and> insertion_flag_tuple m pos ''CDS-3Xins'' \<in> set gs)
           \<and> (int (length pos) mod 3 \<noteq> 0
              \<longrightarrow> insertion_run_flags m boundary_df (End (boundary_df ! 4)) pos
                     = Inr [insertion_flag_tuple m pos ''CDS-ins'']
                 \<and> insertion_flag_tuple m pos ''CDS-ins'' \<in> set gs))"
    proof (intro ballI impI)
      fix pos
      assume pos: "pos \<in> set (ins_groups m)" and cl: "classified_CDS m boundary_df pos"
      note ir = insertion_flags_run [OF gs pos]
      note e = insertion_run_flags_CDS [OF ir(1) cl]
      from ir(1) have l: "0 < length pos" by simp
      have y3: "insertion_run_flags m boundary_df (End (boundary_df ! 4)) pos
                     = Inr [insertion_flag_tuple m pos ''CDS-3Xins'']
                 \<and> insertion_flag_tuple m pos ''CDS-3Xins'' \<in> set gs"
        if h: "int (length pos) mod 3 = 0"
      proof -
        from e h have 1: "insertion_run_flags m boundary_df (End (boundary_df ! 4)) pos
                     = Inr [insertion_flag_tuple m pos ''CDS-3Xins'']" by simp
        from ir(2) [OF 1] 1 show ?thesis by simp
      qed
      have y1: "insertion_run_flags m boundary_df (End (boundary_df ! 4)) pos
                     = Inr [insertion_flag_tuple m pos ''CDS-ins'']
                 \<and> insertion_flag_tuple m pos ''CDS-ins'' \<in> set gs"
        if h: "int (length pos) mod 3 \<noteq> 0"
      proof -
        from e h have 1: "insertion_run_flags m boundary_df (End (boundary_df ! 4)) pos
                     = Inr [insertion_flag_tuple m pos ''CDS-ins'']" by simp
        from ir(2) [OF 1] 1 show ?thesis by simp
      qed
      from l y3 y1
      show "0 < length pos
           \<and> (int (length pos) mod 3 = 0
              \<longrightarrow> insertion_run_flags m boundary_df (End (boundary_df ! 4)) pos
                     = Inr [insertion_flag_tuple m pos ''CDS-3Xins'']
                 \<and> insertion_flag_tuple m pos ''CDS-3Xins'' \<in> set gs)
           \<and> (int (length pos) mod 3 \<noteq> 0
              \<longrightarrow> insertion_run_flags m boundary_df (End (boundary_df ! 4)) pos
                     = Inr [insertion_flag_tuple m pos ''CDS-ins'']
                 \<and> insertion_flag_tuple m pos ''CDS-ins'' \<in> set gs)"
        by (intro conjI impI) blast+
    qed
  next
    assume gs: "insertion_flags m boundary_df = Inr gs"
    show "(\<forall>f\<in>set gs. Flag f = ''CDS-3Xins'' \<or> Flag f = ''CDS-ins'' \<longrightarrow>
           (\<exists>pos\<in>set (ins_groups m). \<exists>zs.
              insertion_run_flags m boundary_df (End (boundary_df ! 4)) pos = Inr zs \<and> f \<in> set zs
            \<and> classified_CDS m boundary_df pos
            \<and> Length f = int (length pos) \<and> 0 < Length f
            \<and> (Flag f = ''CDS-3Xins'' \<longleftrightarrow> Length f mod 3 = 0)
            \<and> (Flag f = ''CDS-ins'' \<longleftrightarrow> Length f mod 3 \<noteq> 0)))"
    proof (intro ballI impI)
      fix f assume f: "f \<in> set gs"
        and k: "Flag f = ''CDS-3Xins'' \<or> Flag f = ''CDS-ins''"
      from gs have c: "collect (insertion_run_flags m boundary_df (End (boundary_df ! 4))) (ins_groups m) = Inr gs"
        by (auto simp: insertion_flags_def split: if_splits)
      with f obtain pos ys where pos: "pos \<in> set (ins_groups m)"
        and ys: "insertion_run_flags m boundary_df (End (boundary_df ! 4)) pos = Inr ys"
        and fy: "f \<in> set ys"
        by (auto simp: collect_Inr_iff)
      note mem = insertion_run_flags_member [OF ys fy]
      from mem(1,2) have pos_len: "0 < Length f" by simp
      have k3: "Flag f = ''CDS-3Xins'' \<longleftrightarrow> Length f mod 3 = 0"
      proof
        assume "Flag f = ''CDS-3Xins''"
        from mem(3) [OF this] show "Length f mod 3 = 0" by (simp add: mem(2))
      next
        assume z: "Length f mod 3 = 0"
        show "Flag f = ''CDS-3Xins''"
        proof (rule ccontr)
          assume "Flag f \<noteq> ''CDS-3Xins''"
          with k have "Flag f = ''CDS-ins''" by blast
          from mem(4) [OF this] z show False by (simp add: mem(2))
        qed
      qed
      have k1: "Flag f = ''CDS-ins'' \<longleftrightarrow> Length f mod 3 \<noteq> 0"
      proof
        assume "Flag f = ''CDS-ins''"
        from mem(4) [OF this] show "Length f mod 3 \<noteq> 0" by (simp add: mem(2))
      next
        assume z: "Length f mod 3 \<noteq> 0"
        show "Flag f = ''CDS-ins''"
        proof (rule ccontr)
          assume "Flag f \<noteq> ''CDS-ins''"
          with k have "Flag f = ''CDS-3Xins''" by blast
          from mem(3) [OF this] z show False by (simp add: mem(2))
        qed
      qed
      have cl: "classified_CDS m boundary_df pos"
        by (rule insertion_run_flags_CDS_member(1) [OF ys fy k])
      have "insertion_run_flags m boundary_df (End (boundary_df ! 4)) pos = Inr ys \<and> f \<in> set ys
              \<and> classified_CDS m boundary_df pos
              \<and> Length f = int (length pos) \<and> 0 < Length f
              \<and> (Flag f = ''CDS-3Xins'' \<longleftrightarrow> Length f mod 3 = 0)
              \<and> (Flag f = ''CDS-ins'' \<longleftrightarrow> Length f mod 3 \<noteq> 0)"
        using ys fy cl mem(2) pos_len k3 k1 by (intro conjI) assumption+
      then show "\<exists>pos\<in>set (ins_groups m). \<exists>zs.
                insertion_run_flags m boundary_df (End (boundary_df ! 4)) pos = Inr zs \<and> f \<in> set zs
              \<and> classified_CDS m boundary_df pos
              \<and> Length f = int (length pos) \<and> 0 < Length f
              \<and> (Flag f = ''CDS-3Xins'' \<longleftrightarrow> Length f mod 3 = 0)
              \<and> (Flag f = ''CDS-ins'' \<longleftrightarrow> Length f mod 3 \<noteq> 0)"
        using pos by (intro bexI [of _ pos] exI [of _ ys])
    qed
  qed
  show ?thesis by (rule conjI [OF A conjI [OF B DI]])
qed

theorem frame_of_CDS_flags_witness:
  "InDelSubs_init [''ACGTAC---GTAC'', ''ACGT-CTTTGTAC''] = Inr deletion_and_insertion
   \<and> deletion_flags deletion_and_insertion example_boundaries unlisted_lookup
       = Inr [\<lparr> Flag = ''CDS-del'', Profile_Position = ''5'', Query_Position = ''4..5'',
                 Variant = ''del'', Length = 1 \<rparr>]
   \<and> insertion_flags deletion_and_insertion example_boundaries
       = Inr [\<lparr> Flag = ''CDS-3Xins'', Profile_Position = ''6..7'', Query_Position = ''6..8'',
                 Variant = ''TTT'', Length = 3 \<rparr>]
   \<and> deletion_region_flags deletion_and_insertion unlisted_lookup [4]
        \<lparr> Region = ''CDS'', Start = 5, End = 7 \<rparr>
       = Inr [deletion_flag_tuple deletion_and_insertion [4]
                \<lparr> Region = ''CDS'', Start = 5, End = 7 \<rparr> ''CDS-del'']
   \<and> insertion_run_flags deletion_and_insertion example_boundaries
        (End (example_boundaries ! 4)) [6, 7, 8]
       = Inr [insertion_flag_tuple deletion_and_insertion [6, 7, 8] ''CDS-3Xins'']
   \<and> deletion_flag_tuple deletion_and_insertion [4] \<lparr> Region = ''CDS'', Start = 5, End = 7 \<rparr>
       ''CDS-del''
       \<in> set [\<lparr> Flag = ''CDS-del'', Profile_Position = ''5'', Query_Position = ''4..5'',
                 Variant = ''del'', Length = 1 \<rparr>]
   \<and> insertion_flag_tuple deletion_and_insertion [6, 7, 8] ''CDS-3Xins''
       \<in> set [\<lparr> Flag = ''CDS-3Xins'', Profile_Position = ''6..7'', Query_Position = ''6..8'',
                 Variant = ''TTT'', Length = 3 \<rparr>]
   \<and> (\<exists>pos\<in>set (del_groups deletion_and_insertion). int (length pos) mod 3 \<noteq> 0)
   \<and> (\<exists>pos\<in>set (ins_groups deletion_and_insertion). (3 :: int) = int (length pos))"
proof -
  let ?fd = "\<lparr> Flag = ''CDS-del'', Profile_Position = ''5'', Query_Position = ''4..5'',
                 Variant = ''del'', Length = 1 \<rparr>"
  let ?fi = "\<lparr> Flag = ''CDS-3Xins'', Profile_Position = ''6..7'', Query_Position = ''6..8'',
                 Variant = ''TTT'', Length = 3 \<rparr>"
  let ?reg = "\<lparr> Region = ''CDS'', Start = 5, End = 7 \<rparr>"
  have h: "InDelSubs_init [''ACGTAC---GTAC'', ''ACGT-CTTTGTAC''] = Inr deletion_and_insertion"
    by code_simp
  have d: "deletion_flags deletion_and_insertion example_boundaries unlisted_lookup = Inr [?fd]"
    by code_simp
  have i: "insertion_flags deletion_and_insertion example_boundaries = Inr [?fi]"
    by code_simp
  have pd: "[4] \<in> set (del_groups deletion_and_insertion)"
    by (simp add: deletion_and_insertion_def)
  have rd: "?reg \<in> set (overlapping_regions deletion_and_insertion example_boundaries [4])"
    by code_simp
  have cd: "Region ?reg = ''CDS'' \<and> \<not> terminal_subrun deletion_and_insertion [4] ?reg"
    by code_simp
  have md: "int (length [4 :: int]) mod 3 \<noteq> 0
      \<and> check_lookup unlisted_lookup ''CDS-del''
           (hd (region_dels_p deletion_and_insertion [4] ?reg))
           (last (region_dels_p deletion_and_insertion [4] ?reg)) = ''FAIL''"
    by code_simp
  have pi: "[6, 7, 8] \<in> set (ins_groups deletion_and_insertion)"
    by (simp add: deletion_and_insertion_def)
  have ci: "classified_CDS deletion_and_insertion example_boundaries [6, 7, 8]"
    by code_simp
  have mi: "int (length [6, 7, 8 :: int]) mod 3 = 0" by simp
  have ad: "region_dels_q deletion_and_insertion [4] ?reg \<noteq> []
      \<and> region_dels_p deletion_and_insertion [4] ?reg \<noteq> []
      \<and> Region ?reg = ''CDS'' \<and> \<not> terminal_subrun deletion_and_insertion [4] ?reg
      \<and> check_lookup unlisted_lookup
            (if int (length [4 :: int]) mod 3 = 0 then ''CDS-3Xdel'' else ''CDS-del'')
            (hd (region_dels_p deletion_and_insertion [4] ?reg))
            (last (region_dels_p deletion_and_insertion [4] ?reg)) = ''FAIL''"
    by code_simp
  have bi: "[6, 7, 8 :: int] \<noteq> []
      \<and> classified_CDS deletion_and_insertion example_boundaries [6, 7, 8]"
    by code_simp
  note t = frame_of_CDS_flags [where m = deletion_and_insertion
      and boundary_df = example_boundaries and lookup_df = unlisted_lookup
      and fs = "[?fd]" and gs = "[?fi]" and dpos = "[4]" and dreg = ?reg and ipos = "[6, 7, 8]"]
  from mp [OF conjunct1 [OF t] ad]
  have ra: "deletion_region_flags deletion_and_insertion unlisted_lookup [4] ?reg
      = Inr [deletion_flag_tuple deletion_and_insertion [4] ?reg ''CDS-del'']"
    by simp
  from mp [OF conjunct1 [OF conjunct2 [OF t]] bi]
  have rb: "insertion_run_flags deletion_and_insertion example_boundaries
        (End (example_boundaries ! 4)) [6, 7, 8]
      = Inr [insertion_flag_tuple deletion_and_insertion [6, 7, 8] ''CDS-3Xins'']"
    by simp
  note t2 = conjunct2 [OF conjunct2 [OF t]]
  note td = mp [OF conjunct1 [OF t2] d]
  note ti = mp [OF conjunct2 [OF t2] i]
  note fd = mp [OF bspec [OF bspec [OF conjunct1 [OF td] pd] rd] cd]
  note fd1 = mp [OF conjunct2 [OF conjunct2 [OF conjunct2 [OF fd]]] md]
  have 1: "deletion_flag_tuple deletion_and_insertion [4] ?reg ''CDS-del'' \<in> set [?fd]"
    by (rule conjunct2 [OF fd1])
  note fi = mp [OF bspec [OF conjunct1 [OF ti] pi] ci]
  note fi3 = mp [OF conjunct1 [OF conjunct2 [OF fi]] mi]
  have 2: "insertion_flag_tuple deletion_and_insertion [6, 7, 8] ''CDS-3Xins'' \<in> set [?fi]"
    by (rule conjunct2 [OF fi3])
  from bspec [OF conjunct2 [OF td], of ?fd] have "\<exists>pos\<in>set (del_groups deletion_and_insertion). \<exists>reg\<in>set example_boundaries. \<exists>zs.
            deletion_region_flags deletion_and_insertion unlisted_lookup pos reg = Inr zs
          \<and> ?fd \<in> set zs
          \<and> Region reg = ''CDS'' \<and> 0 < length pos
          \<and> (Flag ?fd = ''CDS-3Xdel'' \<longleftrightarrow> int (length pos) mod 3 = 0)
          \<and> (Flag ?fd = ''CDS-del'' \<longleftrightarrow> int (length pos) mod 3 \<noteq> 0)
          \<and> Length ?fd = int (length (region_dels_p deletion_and_insertion pos reg)) \<and> 0 < Length ?fd
          \<and> ((\<forall>c\<in>set pos. Start reg \<le> col_to_prof (nkip deletion_and_insertion) c
                  \<and> col_to_prof (nkip deletion_and_insertion) c \<le> End reg)
               \<longrightarrow> Length ?fd = int (length pos))"
    by simp
  then have 3: "\<exists>pos\<in>set (del_groups deletion_and_insertion). int (length pos) mod 3 \<noteq> 0"
    by auto
  from bspec [OF conjunct2 [OF ti], of ?fi] have "\<exists>pos\<in>set (ins_groups deletion_and_insertion). \<exists>zs.
            insertion_run_flags deletion_and_insertion example_boundaries
              (End (example_boundaries ! 4)) pos = Inr zs \<and> ?fi \<in> set zs
          \<and> classified_CDS deletion_and_insertion example_boundaries pos
          \<and> Length ?fi = int (length pos) \<and> 0 < Length ?fi
          \<and> (Flag ?fi = ''CDS-3Xins'' \<longleftrightarrow> Length ?fi mod 3 = 0)
          \<and> (Flag ?fi = ''CDS-ins'' \<longleftrightarrow> Length ?fi mod 3 \<noteq> 0)"
    by simp
  then have 4: "\<exists>pos\<in>set (ins_groups deletion_and_insertion). (3 :: int) = int (length pos)"
    by auto
  from h d i ra rb 1 2 3 4 show ?thesis by (intro conjI) assumption+
qed

text \<open>
  A run of three columns over the profile positions 4 to 6, with the coding region starting
  at 5: the flag is \<open>CDS-3Xdel\<close> and its \<open>Length\<close> is 2. With a row \<open>CDS-3Xdel\<close> from 1 to 10
  in the lookup table, the same run, still classified in the coding region, yields no flag
  of the coding region at all. The run of \<open>stop_deletion\<close> gets its \<open>CDS-del\<close> from the row
  \<open>CDS\<close>, and the next row, \<open>NCR3\<close> of bounds \<open>[8, 7]\<close>, raises: \<open>deletion_flags\<close> returns no
  flag. The first run of \<open>two_insertions\<close> gets its \<open>CDS-3Xins\<close>, and the second one, after
  the last position of \<open>short_boundaries\<close>, finds no row and raises: \<open>insertion_flags\<close>
  returns no flag.
\<close>

theorem CDS_3Xdel_length_counterexample:
  "InDelSubs_init [''ACGTACGTAC'', ''ACG---GTAC''] = Inr straddling_deletion
   \<and> deletion_flags straddling_deletion example_boundaries unlisted_lookup
       = Inr [\<lparr> Flag = ''5'NCR-del'', Profile_Position = ''4..4'', Query_Position = ''3..4'',
                 Variant = ''del'', Length = 1 \<rparr>,
              \<lparr> Flag = ''CDS-3Xdel'', Profile_Position = ''5..6'', Query_Position = ''3..4'',
                 Variant = ''del'', Length = 2 \<rparr>]
   \<and> (2 :: int) mod 3 \<noteq> 0
   \<and> deletion_flags straddling_deletion example_boundaries
        [\<lparr> lk_Flag = ''CDS-3Xdel'', lk_Start = 1, lk_End = 10 \<rparr>]
       = Inr [\<lparr> Flag = ''5'NCR-del'', Profile_Position = ''4..4'', Query_Position = ''3..4'',
                 Variant = ''del'', Length = 1 \<rparr>]
   \<and> InDelSubs_init [''ACGTACGTAC'', ''ACGTAC--AC''] = Inr stop_deletion
   \<and> overlapping_regions stop_deletion adjacent_stop_boundaries [6, 7]
       = [\<lparr> Region = ''CDS'', Start = 5, End = 7 \<rparr>, \<lparr> Region = ''NCR3'', Start = 8, End = 7 \<rparr>,
          \<lparr> Region = ''CTS3'', Start = 8, End = 10 \<rparr>]
   \<and> deletion_region_flags stop_deletion unlisted_lookup [6, 7]
        \<lparr> Region = ''CDS'', Start = 5, End = 7 \<rparr>
       = Inr [\<lparr> Flag = ''CDS-del'', Profile_Position = ''7..7'', Query_Position = ''6..7'',
                 Variant = ''del'', Length = 1 \<rparr>]
   \<and> deletion_flags stop_deletion adjacent_stop_boundaries unlisted_lookup = Inl IndexError
   \<and> InDelSubs_init [''ACGTAC---GTAC--'', ''ACGTACTTTGTACGG''] = Inr two_insertions
   \<and> classified_CDS two_insertions short_boundaries [6, 7, 8]
   \<and> insertion_run_flags two_insertions short_boundaries (End (short_boundaries ! 4)) [6, 7, 8]
       = Inr [\<lparr> Flag = ''CDS-3Xins'', Profile_Position = ''6..7'', Query_Position = ''7..9'',
                 Variant = ''TTT'', Length = 3 \<rparr>]
   \<and> insertion_flags two_insertions short_boundaries = Inl IndexError"
  by code_simp

text \<open>
  Claim C2, as the code has it. \<open>check_lookup\<close> answers \<open>PASS\<close> exactly when some row of the
  lookup table has the flag label and has \<open>Start\<close> at or below the first and \<open>End\<close> at or above
  the last profile position it is given. The positions \<open>deletion_flags\<close> gives it are the
  first and the last profile position of the part of the run inside the region of the
  flag, the ones the flag reports, not those of the whole run. The flags a run yields in a
  region are those it yields with an empty lookup table (the candidates), without the
  candidates of kind \<open>5'NCR-del\<close>, \<open>3'NCR-del\<close>, \<open>CDS-del\<close> or \<open>CDS-3Xdel\<close> for which such a
  row exists, and \<open>deletion_flags\<close> returns exactly these, run by run and region by region,
  raising when and only when it raises with an empty table. Over all runs, the lookup table
  removes flags only, never a flag of another kind. \<open>insertion_flags\<close> and
  \<open>substitution_flags\<close> take no lookup table at all: two runs of the constructor that
  differ in the lookup table alone give the same insertion flags, the same substitution
  flags and the same deletion flags of every other kind.
\<close>

theorem whitelist_suppression:
  "check_lookup lookup_df k s e =
     (if \<exists>r\<in>set lookup_df. lk_Flag r = k \<and> lk_Start r \<le> s \<and> lk_End r \<ge> e
      then ''PASS'' else ''FAIL'')
   \<and> deletion_region_flags m lookup_df pos reg =
     (case deletion_region_flags m [] pos reg of
        Inl err \<Rightarrow> Inl err
      | Inr fs \<Rightarrow>
          Inr [f \<leftarrow> fs. \<not> ((Flag f = ''5'NCR-del'' \<or> Flag f = ''3'NCR-del''
                               \<or> Flag f = ''CDS-del'' \<or> Flag f = ''CDS-3Xdel'')
                          \<and> (\<exists>r\<in>set lookup_df. lk_Flag r = Flag f
                                 \<and> lk_Start r \<le> hd (region_dels_p m pos reg)
                                 \<and> lk_End r \<ge> last (region_dels_p m pos reg)))])
   \<and> deletion_flags m boundary_df lookup_df =
     (case deletion_flags m boundary_df [] of
        Inl e \<Rightarrow> Inl e
      | Inr cs \<Rightarrow>
          Inr (concat (map (\<lambda>pos. concat (map (\<lambda>reg.
                 [f \<leftarrow> deletion_region_emits m [] pos reg.
                    \<not> (whitelist_checked (Flag f)
                       \<and> (\<exists>row\<in>set lookup_df. lk_Flag row = Flag f
                              \<and> lk_Start row \<le> hd (region_dels_p m pos reg)
                              \<and> lk_End row \<ge> last (region_dels_p m pos reg)))])
                 (overlapping_regions m boundary_df pos))) (del_groups m))))
   \<and> (deletion_flags m boundary_df [] = Inr candidates \<longrightarrow>
        candidates = concat (map (\<lambda>pos. concat (map (deletion_region_emits m [] pos)
                                 (overlapping_regions m boundary_df pos))) (del_groups m)))
   \<and> (deletion_flags m boundary_df lookup_df = Inl err
        \<longleftrightarrow> deletion_flags m boundary_df [] = Inl err)
   \<and> (deletion_flags m boundary_df lookup_df = Inr flags
        \<and> deletion_flags m boundary_df [] = Inr candidates \<longrightarrow>
          set flags \<subseteq> set candidates
        \<and> [f \<leftarrow> flags. \<not> (Flag f = ''5'NCR-del'' \<or> Flag f = ''3'NCR-del''
                      \<or> Flag f = ''CDS-del'' \<or> Flag f = ''CDS-3Xdel'')]
          = [f \<leftarrow> candidates. \<not> (Flag f = ''5'NCR-del'' \<or> Flag f = ''3'NCR-del''
                      \<or> Flag f = ''CDS-del'' \<or> Flag f = ''CDS-3Xdel'')])
   \<and> (curate w accession sequence prof strain ident boundary_df lookup_df = Inr c
        \<and> curate w accession sequence prof strain ident boundary_df lookup_df' = Inr c' \<longrightarrow>
          ins_flags c = ins_flags c' \<and> sub_flags c = sub_flags c'
        \<and> (\<exists>dels dels'. del_flags c = Some dels \<and> del_flags c' = Some dels'
             \<and> [f \<leftarrow> dels. \<not> (Flag f = ''5'NCR-del'' \<or> Flag f = ''3'NCR-del''
                      \<or> Flag f = ''CDS-del'' \<or> Flag f = ''CDS-3Xdel'')]
               = [f \<leftarrow> dels'. \<not> (Flag f = ''5'NCR-del'' \<or> Flag f = ''3'NCR-del''
                      \<or> Flag f = ''CDS-del'' \<or> Flag f = ''CDS-3Xdel'')]))"
proof (intro conjI)
  show "check_lookup lookup_df k s e =
     (if \<exists>r\<in>set lookup_df. lk_Flag r = k \<and> lk_Start r \<le> s \<and> lk_End r \<ge> e
      then ''PASS'' else ''FAIL'')"
    by (rule check_lookup_iff)
  show "deletion_region_flags m lookup_df pos reg =
     (case deletion_region_flags m [] pos reg of
        Inl err \<Rightarrow> Inl err
      | Inr fs \<Rightarrow>
          Inr [f \<leftarrow> fs. \<not> ((Flag f = ''5'NCR-del'' \<or> Flag f = ''3'NCR-del''
                               \<or> Flag f = ''CDS-del'' \<or> Flag f = ''CDS-3Xdel'')
                          \<and> (\<exists>r\<in>set lookup_df. lk_Flag r = Flag f
                                 \<and> lk_Start r \<le> hd (region_dels_p m pos reg)
                                 \<and> lk_End r \<ge> last (region_dels_p m pos reg)))])"
    by (rule deletion_region_flags_whitelist)
  note r = deletion_flags_rel [of m boundary_df lookup_df]
  show "deletion_flags m boundary_df lookup_df =
     (case deletion_flags m boundary_df [] of
        Inl e \<Rightarrow> Inl e
      | Inr cs \<Rightarrow>
          Inr (concat (map (\<lambda>pos. concat (map (\<lambda>reg.
                 [f \<leftarrow> deletion_region_emits m [] pos reg.
                    \<not> (whitelist_checked (Flag f)
                       \<and> (\<exists>row\<in>set lookup_df. lk_Flag row = Flag f
                              \<and> lk_Start row \<le> hd (region_dels_p m pos reg)
                              \<and> lk_End row \<ge> last (region_dels_p m pos reg)))])
                 (overlapping_regions m boundary_df pos))) (del_groups m))))"
  proof (cases "deletion_flags m boundary_df []")
    case (Inl e)
    with r show ?thesis by (cases "deletion_flags m boundary_df lookup_df") simp_all
  next
    case (Inr cs)
    with r obtain fs where fs: "deletion_flags m boundary_df lookup_df = Inr fs"
      by (cases "deletion_flags m boundary_df lookup_df") simp_all
    have e: "deletion_region_emits m lookup_df pos = (\<lambda>reg.
                 [f \<leftarrow> deletion_region_emits m [] pos reg.
                    \<not> (whitelist_checked (Flag f)
                       \<and> (\<exists>row\<in>set lookup_df. lk_Flag row = Flag f
                              \<and> lk_Start row \<le> hd (region_dels_p m pos reg)
                              \<and> lk_End row \<ge> last (region_dels_p m pos reg)))])" for pos
      by (rule ext) (rule deletion_region_emits_filter)
    have "fs = concat (map (\<lambda>pos. concat (map (\<lambda>reg.
                 [f \<leftarrow> deletion_region_emits m [] pos reg.
                    \<not> (whitelist_checked (Flag f)
                       \<and> (\<exists>row\<in>set lookup_df. lk_Flag row = Flag f
                              \<and> lk_Start row \<le> hd (region_dels_p m pos reg)
                              \<and> lk_End row \<ge> last (region_dels_p m pos reg)))])
                 (overlapping_regions m boundary_df pos))) (del_groups m))"
      using deletion_flags_eq [OF fs] unfolding e .
    with fs Inr show ?thesis by simp
  qed
  show "deletion_flags m boundary_df [] = Inr candidates \<longrightarrow>
        candidates = concat (map (\<lambda>pos. concat (map (deletion_region_emits m [] pos)
                                 (overlapping_regions m boundary_df pos))) (del_groups m))"
    by (rule impI) (rule deletion_flags_eq)
  show "deletion_flags m boundary_df lookup_df = Inl err
        \<longleftrightarrow> deletion_flags m boundary_df [] = Inl err"
    using r by (cases "deletion_flags m boundary_df lookup_df";
                cases "deletion_flags m boundary_df []") simp_all
  show "deletion_flags m boundary_df lookup_df = Inr flags
        \<and> deletion_flags m boundary_df [] = Inr candidates \<longrightarrow>
          set flags \<subseteq> set candidates
        \<and> [f \<leftarrow> flags. \<not> (Flag f = ''5'NCR-del'' \<or> Flag f = ''3'NCR-del''
                      \<or> Flag f = ''CDS-del'' \<or> Flag f = ''CDS-3Xdel'')]
          = [f \<leftarrow> candidates. \<not> (Flag f = ''5'NCR-del'' \<or> Flag f = ''3'NCR-del''
                      \<or> Flag f = ''CDS-del'' \<or> Flag f = ''CDS-3Xdel'')]"
  proof
    assume a: "deletion_flags m boundary_df lookup_df = Inr flags
        \<and> deletion_flags m boundary_df [] = Inr candidates"
    from r show "set flags \<subseteq> set candidates
        \<and> [f \<leftarrow> flags. \<not> (Flag f = ''5'NCR-del'' \<or> Flag f = ''3'NCR-del''
                      \<or> Flag f = ''CDS-del'' \<or> Flag f = ''CDS-3Xdel'')]
          = [f \<leftarrow> candidates. \<not> (Flag f = ''5'NCR-del'' \<or> Flag f = ''3'NCR-del''
                      \<or> Flag f = ''CDS-del'' \<or> Flag f = ''CDS-3Xdel'')]"
      unfolding conjunct1 [OF a] conjunct2 [OF a] rel_sum_simps .
  qed
  show "curate w accession sequence prof strain ident boundary_df lookup_df = Inr c
        \<and> curate w accession sequence prof strain ident boundary_df lookup_df' = Inr c' \<longrightarrow>
          ins_flags c = ins_flags c' \<and> sub_flags c = sub_flags c'
        \<and> (\<exists>dels dels'. del_flags c = Some dels \<and> del_flags c' = Some dels'
             \<and> [f \<leftarrow> dels. \<not> (Flag f = ''5'NCR-del'' \<or> Flag f = ''3'NCR-del''
                      \<or> Flag f = ''CDS-del'' \<or> Flag f = ''CDS-3Xdel'')]
               = [f \<leftarrow> dels'. \<not> (Flag f = ''5'NCR-del'' \<or> Flag f = ''3'NCR-del''
                      \<or> Flag f = ''CDS-del'' \<or> Flag f = ''CDS-3Xdel'')])"
  proof
    assume a: "curate w accession sequence prof strain ident boundary_df lookup_df = Inr c
        \<and> curate w accession sequence prof strain ident boundary_df lookup_df' = Inr c'"
    from curate_Inr [OF conjunct1 [OF a]] obtain sequences muts dels inss subs where
      1: "alignment_rows w = Inr sequences" "InDelSubs_init sequences = Inr muts"
        "deletion_flags muts boundary_df lookup_df = Inr dels"
        "insertion_flags muts boundary_df = Inr inss"
        "substitution_flags muts boundary_df = Inr subs"
        "del_flags c = Some dels" "ins_flags c = Some inss" "sub_flags c = Some subs"
      by blast
    from curate_Inr [OF conjunct2 [OF a]] obtain sequences' muts' dels' inss' subs' where
      2: "alignment_rows w = Inr sequences'" "InDelSubs_init sequences' = Inr muts'"
        "deletion_flags muts' boundary_df lookup_df' = Inr dels'"
        "insertion_flags muts' boundary_df = Inr inss'"
        "substitution_flags muts' boundary_df = Inr subs'"
        "del_flags c' = Some dels'" "ins_flags c' = Some inss'" "sub_flags c' = Some subs'"
      by blast
    from 1(1) 2(1) have "sequences' = sequences" by simp
    with 1(2) 2(2) have m: "muts' = muts" by simp
    from 1(4,5,7,8) 2(4,5,7,8) m have i: "ins_flags c = ins_flags c'"
      and s: "sub_flags c = sub_flags c'" by simp_all
    from deletion_flags_other_kinds [OF 1(3) 2(3) [unfolded m]] 1(6) 2(6) i s
    show "ins_flags c = ins_flags c' \<and> sub_flags c = sub_flags c'
        \<and> (\<exists>dels dels'. del_flags c = Some dels \<and> del_flags c' = Some dels'
             \<and> [f \<leftarrow> dels. \<not> (Flag f = ''5'NCR-del'' \<or> Flag f = ''3'NCR-del''
                      \<or> Flag f = ''CDS-del'' \<or> Flag f = ''CDS-3Xdel'')]
               = [f \<leftarrow> dels'. \<not> (Flag f = ''5'NCR-del'' \<or> Flag f = ''3'NCR-del''
                      \<or> Flag f = ''CDS-del'' \<or> Flag f = ''CDS-3Xdel'')])"
      by blast
  qed
qed

theorem whitelist_suppression_witness:
  "deletion_flags straddling_deletion example_boundaries []
     = Inr [\<lparr> Flag = ''5'NCR-del'', Profile_Position = ''4..4'', Query_Position = ''3..4'',
               Variant = ''del'', Length = 1 \<rparr>,
            \<lparr> Flag = ''CDS-3Xdel'', Profile_Position = ''5..6'', Query_Position = ''3..4'',
               Variant = ''del'', Length = 2 \<rparr>]
   \<and> deletion_flags straddling_deletion example_boundaries
        [\<lparr> lk_Flag = ''CDS-3Xdel'', lk_Start = 5, lk_End = 6 \<rparr>]
     = Inr [\<lparr> Flag = ''5'NCR-del'', Profile_Position = ''4..4'', Query_Position = ''3..4'',
               Variant = ''del'', Length = 1 \<rparr>]
   \<and> set [\<lparr> Flag = ''5'NCR-del'', Profile_Position = ''4..4'', Query_Position = ''3..4'',
               Variant = ''del'', Length = 1 \<rparr>]
     \<subseteq> set [\<lparr> Flag = ''5'NCR-del'', Profile_Position = ''4..4'', Query_Position = ''3..4'',
               Variant = ''del'', Length = 1 \<rparr>,
            \<lparr> Flag = ''CDS-3Xdel'', Profile_Position = ''5..6'', Query_Position = ''3..4'',
               Variant = ''del'', Length = 2 \<rparr>]
   \<and> [\<lparr> Flag = ''5'NCR-del'', Profile_Position = ''4..4'', Query_Position = ''3..4'',
               Variant = ''del'', Length = 1 \<rparr>,
            \<lparr> Flag = ''CDS-3Xdel'', Profile_Position = ''5..6'', Query_Position = ''3..4'',
               Variant = ''del'', Length = 2 \<rparr>]
     = concat (map (\<lambda>pos. concat (map (deletion_region_emits straddling_deletion [] pos)
                 (overlapping_regions straddling_deletion example_boundaries pos)))
               (del_groups straddling_deletion))"
proof -
  let ?f1 = "\<lparr> Flag = ''5'NCR-del'', Profile_Position = ''4..4'', Query_Position = ''3..4'',
               Variant = ''del'', Length = 1 \<rparr>"
  let ?f2 = "\<lparr> Flag = ''CDS-3Xdel'', Profile_Position = ''5..6'', Query_Position = ''3..4'',
               Variant = ''del'', Length = 2 \<rparr>"
  let ?lk = "[\<lparr> lk_Flag = ''CDS-3Xdel'', lk_Start = 5, lk_End = 6 \<rparr>]"
  have c: "deletion_flags straddling_deletion example_boundaries [] = Inr [?f1, ?f2]"
    by code_simp
  have w: "deletion_flags straddling_deletion example_boundaries ?lk = Inr [?f1]"
    by code_simp
  note t = whitelist_suppression [where lookup_df = ?lk and m = straddling_deletion
      and boundary_df = example_boundaries and flags = "[?f1]" and candidates = "[?f1, ?f2]"]
  from t c w have 1: "set [?f1] \<subseteq> set [?f1, ?f2]" by blast
  from t c have 2: "[?f1, ?f2]
     = concat (map (\<lambda>pos. concat (map (deletion_region_emits straddling_deletion [] pos)
                 (overlapping_regions straddling_deletion example_boundaries pos)))
               (del_groups straddling_deletion))" by blast
  from c w 1 2 show ?thesis by (intro conjI) assumption+
qed

text \<open>
  The run of \<open>straddling_deletion\<close> covers the profile positions 4 to 6, and the part of it
  inside the coding region the positions 5 and 6. The row \<open>CDS-3Xdel\<close> from 5 to 6 does not
  reach down to the first profile position of the run, 4, and yet it removes the flag.
\<close>

theorem whitelist_subrun_counterexample:
  "InDelSubs_init [''ACGTACGTAC'', ''ACG---GTAC''] = Inr straddling_deletion
   \<and> del_groups straddling_deletion = [[3, 4, 5]]
   \<and> map (col_to_prof (nkip straddling_deletion)) [3, 4, 5] = [4, 5, 6]
   \<and> region_dels_p straddling_deletion [3, 4, 5] \<lparr> Region = ''CDS'', Start = 5, End = 7 \<rparr> = [5, 6]
   \<and> \<not> lk_Start \<lparr> lk_Flag = ''CDS-3Xdel'', lk_Start = 5, lk_End = 6 \<rparr>
         \<le> hd (map (col_to_prof (nkip straddling_deletion)) [3, 4, 5])
   \<and> deletion_flags straddling_deletion example_boundaries []
     = Inr [\<lparr> Flag = ''5'NCR-del'', Profile_Position = ''4..4'', Query_Position = ''3..4'',
               Variant = ''del'', Length = 1 \<rparr>,
            \<lparr> Flag = ''CDS-3Xdel'', Profile_Position = ''5..6'', Query_Position = ''3..4'',
               Variant = ''del'', Length = 2 \<rparr>]
   \<and> deletion_flags straddling_deletion example_boundaries
        [\<lparr> lk_Flag = ''CDS-3Xdel'', lk_Start = 5, lk_End = 6 \<rparr>]
     = Inr [\<lparr> Flag = ''5'NCR-del'', Profile_Position = ''4..4'', Query_Position = ''3..4'',
               Variant = ''del'', Length = 1 \<rparr>]"
  by code_simp




text \<open>
  Claim C6. \<open>summary_flag\<close> returns \<open>Ambig-Seq\<close> when the profile is \<open>Unknown\<close> or the list of
  ambiguity flags is not empty; else \<open>Flag-CDS\<close> when the kind of some mutation flag
  contains \<open>CDS\<close>; else \<open>Flag-NCR\<close> when the kind of some mutation flag contains \<open>NCR\<close> or
  \<open>CTS\<close>; else \<open>Pass\<close>. This holds for every list of ambiguity flags and every list of
  mutation flags.
\<close>

theorem summary_flag_precedence:
  "(profile c = ''Unknown'' \<longrightarrow> summary_flag c = Inr ''Ambig-Seq'')
   \<and> (ambig_flags c = Some a \<and> mut_flags c = Some fs \<longrightarrow>
        summary_flag c =
          Inr (if profile c = ''Unknown'' \<or> a \<noteq> [] then ''Ambig-Seq''
               else if \<exists>f\<in>set fs. sublist ''CDS'' (Flag f) then ''Flag-CDS''
               else if \<exists>f\<in>set fs. sublist ''NCR'' (Flag f) \<or> sublist ''CTS'' (Flag f)
               then ''Flag-NCR''
               else ''Pass''))"
  unfolding summary_flag_def True_in_comprehension str_in_iff_sublist
  by simp

theorem summary_flag_precedence_witness:
  "summary_flag \<lparr> mut_flags = Some [\<lparr> Flag = ''5'NCR-del'', Profile_Position = ''4..4'',
                       Query_Position = ''3..4'', Variant = ''del'', Length = 1 \<rparr>],
       del_flags = Some [\<lparr> Flag = ''5'NCR-del'', Profile_Position = ''4..4'',
                       Query_Position = ''3..4'', Variant = ''del'', Length = 1 \<rparr>],
       ins_flags = Some [], sub_flags = Some [], ambig_flags = Some [],
       profile = ''A_4_H1_profile.fasta'', identity_attr = Identity 99 100,
       strain_name_attr = ''A_4_H1'', accession_attr = ''CY121680'' \<rparr> = Inr ''Flag-NCR''"
proof -
  let ?f = "\<lparr> Flag = ''5'NCR-del'', Profile_Position = ''4..4'',
                       Query_Position = ''3..4'', Variant = ''del'', Length = 1 \<rparr>"
  let ?c = "\<lparr> mut_flags = Some [?f], del_flags = Some [?f],
       ins_flags = Some [], sub_flags = Some [], ambig_flags = Some [],
       profile = ''A_4_H1_profile.fasta'', identity_attr = Identity 99 100,
       strain_name_attr = ''A_4_H1'', accession_attr = ''CY121680'' \<rparr>"
  have a: "ambig_flags ?c = Some [] \<and> mut_flags ?c = Some [?f]" by simp
  have p: "profile ?c \<noteq> ''Unknown''" by simp
  have cds: "\<not> (\<exists>f\<in>set [?f]. sublist ''CDS'' (Flag f))"
    by (simp add: str_in_iff_sublist [symmetric])
  have ncr: "\<exists>f\<in>set [?f]. sublist ''NCR'' (Flag f) \<or> sublist ''CTS'' (Flag f)"
    by (simp add: str_in_iff_sublist [symmetric])
  from summary_flag_precedence [of ?c "[]" "[?f]"] a
  have "summary_flag ?c =
          Inr (if profile ?c = ''Unknown'' \<or> ([] :: string list) \<noteq> [] then ''Ambig-Seq''
               else if \<exists>f\<in>set [?f]. sublist ''CDS'' (Flag f) then ''Flag-CDS''
               else if \<exists>f\<in>set [?f]. sublist ''NCR'' (Flag f) \<or> sublist ''CTS'' (Flag f)
               then ''Flag-NCR''
               else ''Pass'')"
    by blast
  then show ?thesis
    unfolding if_not_P [OF cds] if_P [OF ncr] using p by simp
qed

text \<open>
  Claim C7, as the code has it. When no strain name is supplied and the homology search
  finds no alignment, the constructor returns an object, whatever the boundary file, the
  lookup table and the alignment are (none of them is read): its profile, identity and
  strain name are \<open>Unknown\<close>; \<open>mutation_flags\<close>, \<open>deletion_flags\<close>, \<open>insertion_flags\<close> and
  \<open>substitution_flags\<close> return the string \<open>Unknown\<close>, \<open>ambiguity_flags\<close> returns the string
  \<open>Excess-Dist\<close>, and \<open>summary_flag\<close> returns \<open>Ambig-Seq\<close>. None of them raises.
\<close>

theorem classifier_unknown_halts:
  assumes "query_record w = Inr (accession, sequence)"
    and "strain_name = None \<or> strain_name = Some []"
    and "blast_run w = Inr No_Alignments"
  shows "\<exists>c. Curation_init w strain_name = Inr c
           \<and> c = \<lparr> mut_flags = None, del_flags = None, ins_flags = None, sub_flags = None,
                   ambig_flags = None, profile = ''Unknown'', identity_attr = Identity_Unknown,
                   strain_name_attr = ''Unknown'', accession_attr = accession \<rparr>
           \<and> mutation_flags c = Inr (Sentinel ''Unknown'')
           \<and> Curation_deletion_flags c = Inr (Sentinel ''Unknown'')
           \<and> Curation_insertion_flags c = Inr (Sentinel ''Unknown'')
           \<and> Curation_substitution_flags c = Inr (Sentinel ''Unknown'')
           \<and> ambiguity_flags c = Inr (Ambiguity_Sentinel ''Excess-Dist'')
           \<and> summary_flag c = Inr ''Ambig-Seq''"
proof -
  let ?c = "\<lparr> mut_flags = None, del_flags = None, ins_flags = None, sub_flags = None,
                   ambig_flags = None, profile = ''Unknown'', identity_attr = Identity_Unknown,
                   strain_name_attr = ''Unknown'', accession_attr = accession \<rparr>"
  from assms have i: "Curation_init w strain_name = Inr ?c"
    by (auto simp: Curation_init_def Blast_init_def get_strain_def)
  have "mutation_flags ?c = Inr (Sentinel ''Unknown'')"
    and "Curation_deletion_flags ?c = Inr (Sentinel ''Unknown'')"
    and "Curation_insertion_flags ?c = Inr (Sentinel ''Unknown'')"
    and "Curation_substitution_flags ?c = Inr (Sentinel ''Unknown'')"
    and "ambiguity_flags ?c = Inr (Ambiguity_Sentinel ''Excess-Dist'')"
    and "summary_flag ?c = Inr ''Ambig-Seq''"
    by (simp_all add: mutation_flags_def Curation_deletion_flags_def Curation_insertion_flags_def
        Curation_substitution_flags_def flag_report_def ambiguity_flags_def summary_flag_def)
  with i show ?thesis by blast
qed

theorem classifier_unknown_halts_witness:
  "Curation_init unclassified_world None
     = Inr \<lparr> mut_flags = None, del_flags = None, ins_flags = None, sub_flags = None,
             ambig_flags = None, profile = ''Unknown'', identity_attr = Identity_Unknown,
             strain_name_attr = ''Unknown'', accession_attr = ''CY121680'' \<rparr>
   \<and> summary_flag \<lparr> mut_flags = None, del_flags = None, ins_flags = None, sub_flags = None,
             ambig_flags = None, profile = ''Unknown'', identity_attr = Identity_Unknown,
             strain_name_attr = ''Unknown'', accession_attr = ''CY121680'' \<rparr> = Inr ''Ambig-Seq''"
proof -
  have q: "query_record unclassified_world = Inr (''CY121680'', ''ACGTACGTAC'')"
    and b: "blast_run unclassified_world = Inr No_Alignments"
    by (simp_all add: unclassified_world_def)
  have s: "(None :: string option) = None \<or> (None :: string option) = Some []" by simp
  from classifier_unknown_halts [OF q s b] show ?thesis by auto
qed

text \<open>
  What \<open>ambiguity_flags\<close> returns for an unclassified query is the string itself, not a list
  that holds it.
\<close>

theorem ambiguity_flags_list_counterexample:
  "Curation_init unclassified_world None
     = Inr \<lparr> mut_flags = None, del_flags = None, ins_flags = None, sub_flags = None,
             ambig_flags = None, profile = ''Unknown'', identity_attr = Identity_Unknown,
             strain_name_attr = ''Unknown'', accession_attr = ''CY121680'' \<rparr>
   \<and> ambiguity_flags \<lparr> mut_flags = None, del_flags = None, ins_flags = None, sub_flags = None,
             ambig_flags = None, profile = ''Unknown'', identity_attr = Identity_Unknown,
             strain_name_attr = ''Unknown'', accession_attr = ''CY121680'' \<rparr>
       = Inr (Ambiguity_Sentinel ''Excess-Dist'')
   \<and> ambiguity_flags \<lparr> mut_flags = None, del_flags = None, ins_flags = None, sub_flags = None,
             ambig_flags = None, profile = ''Unknown'', identity_attr = Identity_Unknown,
             strain_name_attr = ''Unknown'', accession_attr = ''CY121680'' \<rparr>
       \<noteq> Inr (Ambiguity_List [''Excess-Dist''])"
  by code_simp

text \<open>
  Claim C8, as the code has it. \<open>parse_boundary_file\<close> takes the first line that starts with
  the strain name, whatever follows the name on that line, and builds the table from that
  line alone; when no line starts with the strain name it returns no table.
\<close>

theorem parse_boundary_file_first_prefix_line:
  "(boundary_types = pre @ line # post \<and> prefix strain_name line
      \<and> (\<forall>l\<in>set pre. \<not> prefix strain_name l)
     \<longrightarrow> select_boundary_line strain_name boundary_types = line
       \<and> parse_boundary_file strain_name (Some boundary_types)
           = parse_boundary_file strain_name (Some [line]))
   \<and> ((\<forall>l\<in>set boundary_types. \<not> prefix strain_name l)
     \<longrightarrow> (\<exists>e. parse_boundary_file strain_name (Some boundary_types) = Inl e))"
proof (rule conjI; rule impI)
  assume a: "boundary_types = pre @ line # post \<and> prefix strain_name line
      \<and> (\<forall>l\<in>set pre. \<not> prefix strain_name l)"
  then have "find (prefix strain_name) boundary_types = Some line"
    by (simp add: find_first)
  moreover from a have "find (prefix strain_name) [line] = Some line" by simp
  ultimately show "select_boundary_line strain_name boundary_types = line
       \<and> parse_boundary_file strain_name (Some boundary_types)
           = parse_boundary_file strain_name (Some [line])"
    by (simp add: parse_boundary_file_def select_boundary_line_def)
next
  assume "\<forall>l\<in>set boundary_types. \<not> prefix strain_name l"
  then have "select_boundary_line strain_name boundary_types = []"
    by (simp add: select_boundary_line_def find_none)
  then have "parse_boundary_file strain_name (Some boundary_types) = Inl (KeyError ''START'')"
    by (simp add: parse_boundary_file_def split_def boundary_table_def dict_get_def)
  then show "\<exists>e. parse_boundary_file strain_name (Some boundary_types) = Inl e" by blast
qed

theorem parse_boundary_file_first_prefix_line_witness:
  "parse_boundary_file ''A_4_H1''
     (Some [''B_4_NA|START=1|CTS5=12|ATG=21|STOP=1700|CTS3=1720|END=1733'' @ [CHR 0x0A],
            ''A_4_H1|START=1|CTS5=2|ATG=5|STOP=7|CTS3=9|END=10'' @ [CHR 0x0A]])
     = Inr example_boundaries
   \<and> (\<exists>e. parse_boundary_file ''A_4_H2''
         (Some [''B_4_NA|START=1|CTS5=12|ATG=21|STOP=1700|CTS3=1720|END=1733'' @ [CHR 0x0A],
            ''A_4_H1|START=1|CTS5=2|ATG=5|STOP=7|CTS3=9|END=10'' @ [CHR 0x0A]]) = Inl e)"
proof -
  let ?b = "''B_4_NA|START=1|CTS5=12|ATG=21|STOP=1700|CTS3=1720|END=1733'' @ [CHR 0x0A]"
  let ?a = "''A_4_H1|START=1|CTS5=2|ATG=5|STOP=7|CTS3=9|END=10'' @ [CHR 0x0A]"
  have one: "parse_boundary_file ''A_4_H1'' (Some [?a]) = Inr example_boundaries"
    by code_simp
  have h: "[?b, ?a] = [?b] @ ?a # [] \<and> prefix ''A_4_H1'' ?a
      \<and> (\<forall>l\<in>set [?b]. \<not> prefix ''A_4_H1'' l)"
    by simp
  from parse_boundary_file_first_prefix_line [of "[?b, ?a]" "[?b]" ?a "[]" "''A_4_H1''"] h
  have "parse_boundary_file ''A_4_H1'' (Some [?b, ?a]) = parse_boundary_file ''A_4_H1'' (Some [?a])"
    by blast
  with one have 1: "parse_boundary_file ''A_4_H1'' (Some [?b, ?a]) = Inr example_boundaries"
    by simp
  have n: "\<forall>l\<in>set [?b, ?a]. \<not> prefix ''A_4_H2'' l" by simp
  from parse_boundary_file_first_prefix_line [of "[?b, ?a]" "[]" "[]" "[]" "''A_4_H2''"] n
  have 2: "\<exists>e. parse_boundary_file ''A_4_H2'' (Some [?b, ?a]) = Inl e"
    by blast
  from 1 2 show ?thesis by blast
qed

text \<open>
  The strain \<open>A_4_H1\<close> and a file whose first line is that of \<open>A_4_H10\<close>: the table is built
  from the line of \<open>A_4_H10\<close>, whose first field is not the strain name, although the
  second line has exactly that first field. For a strain with no line, the failure is the
  missing key \<open>START\<close>.
\<close>

theorem parse_boundary_file_prefix_counterexample:
  "parse_boundary_file ''A_4_H1''
     (Some [''A_4_H10|START=1|CTS5=12|ATG=21|STOP=1700|CTS3=1720|END=1733'' @ [CHR 0x0A],
            ''A_4_H1|START=1|CTS5=12|ATG=33|STOP=1733|CTS3=1766|END=1778'' @ [CHR 0x0A]])
     = Inr [\<lparr> Region = ''CTS5'', Start = 1, End = 12 \<rparr>,
            \<lparr> Region = ''NCR5'', Start = 13, End = 20 \<rparr>,
            \<lparr> Region = ''CDS'', Start = 21, End = 1700 \<rparr>,
            \<lparr> Region = ''NCR3'', Start = 1701, End = 1719 \<rparr>,
            \<lparr> Region = ''CTS3'', Start = 1720, End = 1733 \<rparr>]
   \<and> hd (split (''A_4_H10|START=1|CTS5=12|ATG=21|STOP=1700|CTS3=1720|END=1733'' @ [CHR 0x0A]) ''|'')
       \<noteq> ''A_4_H1''
   \<and> hd (split (''A_4_H1|START=1|CTS5=12|ATG=33|STOP=1733|CTS3=1766|END=1778'' @ [CHR 0x0A]) ''|'')
       = ''A_4_H1''
   \<and> parse_boundary_file ''A_4_H2''
     (Some [''A_4_H10|START=1|CTS5=12|ATG=21|STOP=1700|CTS3=1720|END=1733'' @ [CHR 0x0A],
            ''A_4_H1|START=1|CTS5=12|ATG=33|STOP=1733|CTS3=1766|END=1778'' @ [CHR 0x0A]])
     = Inl (KeyError ''START'')"
  by code_simp

text \<open>
  Claim C9, as the code has it. With a strain name supplied (and not empty), the
  constructor returns an object only when the profile file found is named \<open>Unknown\<close>.
  When a profile file of another name is found, the query sequence is not blank and
  \<open>parse_boundary_file\<close> and \<open>parse_lookup_table\<close> succeed, it raises the error of the unbound
  variable \<open>identity\<close>.
\<close>

theorem supplied_strain_never_succeeds:
  assumes "s \<noteq> []"
  shows "(\<forall>c. Curation_init w (Some s) = Inr c \<longrightarrow>
            profile c = ''Unknown''
          \<and> (\<exists>files. profile_dir_files w = Some files \<and> find (prefix s) files = Some ''Unknown''))
       \<and> (\<forall>accession sequence files prof boundary_df lookup_df.
            query_record w = Inr (accession, sequence) \<and> strip sequence \<noteq> []
          \<and> profile_dir_files w = Some files \<and> find (prefix s) files = Some prof
          \<and> prof \<noteq> ''Unknown''
          \<and> parse_boundary_file s (boundary_file_lines w) = Inr boundary_df
          \<and> parse_lookup_table prof (lookup_table_lines w) = Inr lookup_df
          \<longrightarrow> Curation_init w (Some s) = Inl (UnboundLocalError ''identity''))"
proof (rule conjI; intro allI; rule impI)
  fix c assume c: "Curation_init w (Some s) = Inr c"
  from c obtain accession sequence where q: "query_record w = Inr (accession, sequence)"
    by (cases "query_record w") (auto simp: Curation_init_def)
  from c q assms obtain files where f: "profile_dir_files w = Some files"
    by (cases "profile_dir_files w") (auto simp: Curation_init_def)
  from c q f assms obtain prof rest where p: "[filename \<leftarrow> files. prefix s filename] = prof # rest"
    by (cases "[filename \<leftarrow> files. prefix s filename]") (auto simp: Curation_init_def)
  then have fnd: "find (prefix s) files = Some prof"
    by (simp add: find_conv_filter)
  have u: "prof = ''Unknown''"
  proof (rule ccontr)
    assume "prof \<noteq> ''Unknown''"
    with c q f p assms show False
      by (auto simp: Curation_init_def curate_unbound split: sum.splits if_splits)
  qed
  with c q f p assms have "profile c = ''Unknown''"
    by (auto simp: Curation_init_def)
  with f fnd u show "profile c = ''Unknown''
          \<and> (\<exists>files. profile_dir_files w = Some files \<and> find (prefix s) files = Some ''Unknown'')"
    by simp
next
  fix accession sequence files prof boundary_df lookup_df
  assume a: "query_record w = Inr (accession, sequence) \<and> strip sequence \<noteq> []
          \<and> profile_dir_files w = Some files \<and> find (prefix s) files = Some prof
          \<and> prof \<noteq> ''Unknown''
          \<and> parse_boundary_file s (boundary_file_lines w) = Inr boundary_df
          \<and> parse_lookup_table prof (lookup_table_lines w) = Inr lookup_df"
  then have "\<exists>rest. [filename \<leftarrow> files. prefix s filename] = prof # rest"
    by (auto simp: find_conv_filter split: list.splits)
  then obtain rest where p: "[filename \<leftarrow> files. prefix s filename] = prof # rest" ..
  from a p assms show "Curation_init w (Some s) = Inl (UnboundLocalError ''identity'')"
    by (simp add: Curation_init_def curate_unbound)
qed

theorem supplied_strain_never_succeeds_witness:
  "parse_boundary_file ''A_4_H1'' (boundary_file_lines strain_world) = Inr example_boundaries
   \<and> parse_lookup_table ''A_4_H1_profile.fasta'' (lookup_table_lines strain_world)
       = Inr [\<lparr> lk_Flag = ''XXX'', lk_Start = - 1, lk_End = - 1 \<rparr>]
   \<and> Curation_init strain_world (Some ''A_4_H1'') = Inl (UnboundLocalError ''identity'')"
proof -
  have s: "''A_4_H1'' \<noteq> []" by simp
  have b: "parse_boundary_file ''A_4_H1'' (boundary_file_lines strain_world) = Inr example_boundaries"
    by code_simp
  have l: "parse_lookup_table ''A_4_H1_profile.fasta'' (lookup_table_lines strain_world)
       = Inr [\<lparr> lk_Flag = ''XXX'', lk_Start = - 1, lk_End = - 1 \<rparr>]"
    by code_simp
  have q: "query_record strain_world = Inr (''CY121680'', ''ACGGTAC'')"
    by (simp add: strain_world_def)
  have st: "strip ''ACGGTAC'' \<noteq> []" by code_simp
  have f: "profile_dir_files strain_world = Some [''A_4_H1_profile.fasta'']"
    by (simp add: strain_world_def)
  have fnd: "find (prefix ''A_4_H1'') [''A_4_H1_profile.fasta''] = Some ''A_4_H1_profile.fasta''"
    by simp
  have nu: "''A_4_H1_profile.fasta'' \<noteq> ''Unknown''" by simp
  from supplied_strain_never_succeeds [OF s, of strain_world] q st f fnd nu b l
  have "Curation_init strain_world (Some ''A_4_H1'') = Inl (UnboundLocalError ''identity'')"
    by blast
  with b l show ?thesis by blast
qed

text \<open>
  With a strain name that has no line in the boundary file the constructor raises the
  \<open>KeyError\<close> of \<open>parse_boundary_file\<close>, before \<open>identity\<close> is read; with a profile file named
  \<open>Unknown\<close> it returns an object.
\<close>

theorem supplied_strain_counterexample:
  "Curation_init (strain_world \<lparr> boundary_file_lines := Some [] \<rparr>) (Some ''A_4_H1'')
     = Inl (KeyError ''START'')
   \<and> Curation_init (strain_world \<lparr> profile_dir_files := Some [''Unknown''] \<rparr>) (Some ''Unknown'')
     = Inr \<lparr> mut_flags = None, del_flags = None, ins_flags = None, sub_flags = None,
             ambig_flags = None, profile = ''Unknown'', identity_attr = Identity_Unknown,
             strain_name_attr = ''Unknown'', accession_attr = ''CY121680'' \<rparr>"
  by code_simp

end
